(* ===== verification/Prelude.thy ===== *)
theory Prelude
  imports Main "HOL-Library.Word" "HOL-Library.Signed_Division" "HOL-Library.Sublist"
begin

text \<open>
  The shared vocabulary of the development: Go's machine integers, instants and durations of
  package time, the parts of packages strings and strconv that the sources use on byte
  strings, and the generic list lemmas of the table model. Go strings are byte sequences, so
  \<^typ>\<open>string\<close> (a list of 8-bit characters) is their exact counterpart.
\<close>

named_theorems tx_rules
named_theorems tx_unfold

section \<open>Signed machine integers\<close>

text \<open>
  The Go types int32 and int64 are modelled as \<^typ>\<open>int\<close> with the wrap-around of every
  addition and multiplication that can leave the range written out.
\<close>

definition wrap32 :: "int \<Rightarrow> int" where
  "wrap32 x = (x + 2 ^ 31) mod 2 ^ 32 - 2 ^ 31"

definition wrap64 :: "int \<Rightarrow> int" where
  "wrap64 x = (x + 2 ^ 63) mod 2 ^ 64 - 2 ^ 63"

definition int32_range :: "int \<Rightarrow> bool" where
  "int32_range x \<longleftrightarrow> - (2 ^ 31) \<le> x \<and> x < 2 ^ 31"

definition int64_range :: "int \<Rightarrow> bool" where
  "int64_range x \<longleftrightarrow> - (2 ^ 63) \<le> x \<and> x < 2 ^ 63"

definition max_int32 :: int where
  "max_int32 = 2 ^ 31 - 1"

definition max_int64 :: int where
  "max_int64 = 2 ^ 63 - 1"

definition min_int64 :: int where
  "min_int64 = - (2 ^ 63)"

lemma wrap32_id [simp]: "int32_range x \<Longrightarrow> wrap32 x = x"
  by (simp add: wrap32_def int32_range_def)

lemma wrap64_id [simp]: "int64_range x \<Longrightarrow> wrap64 x = x"
  by (simp add: wrap64_def int64_range_def)

lemma wrap32_range: "int32_range (wrap32 x)"
proof -
  have "0 \<le> (x + 2 ^ 31) mod 2 ^ 32" and "(x + 2 ^ 31) mod 2 ^ 32 < (2 ^ 32 :: int)"
    by simp_all
  then show ?thesis by (simp add: wrap32_def int32_range_def)
qed

lemma wrap64_range: "int64_range (wrap64 x)"
proof -
  have "0 \<le> (x + 2 ^ 63) mod 2 ^ 64" and "(x + 2 ^ 63) mod 2 ^ 64 < (2 ^ 64 :: int)"
    by simp_all
  then show ?thesis by (simp add: wrap64_def int64_range_def)
qed

text \<open>The two functions agree with the two's complement reading of the library's words.\<close>

lemma signed_take_bit_wrap: "signed_take_bit n x = (x + 2 ^ n) mod 2 ^ Suc n - (2 ^ n :: int)"
  by (simp add: signed_take_bit_eq_take_bit_shift take_bit_eq_mod)

lemma wrap32_word: "wrap32 x = sint (word_of_int x :: 32 word)"
  by (simp add: wrap32_def signed_take_bit_wrap sint_sbintrunc')

lemma wrap64_word: "wrap64 x = sint (word_of_int x :: 64 word)"
  by (simp add: wrap64_def signed_take_bit_wrap sint_sbintrunc')

section \<open>Instants and durations\<close>

text \<open>
  An instant (\<^verbatim>\<open>time.Time\<close>) is the number of nanoseconds since Go's zero time, so that
  \<open>IsZero\<close> is equality with 0; a duration is an int64 count of nanoseconds.
\<close>

type_synonym gotime = int
type_synonym duration = int

definition Millisecond :: duration where "Millisecond = 1000000"
definition Second :: duration where "Second = 1000000000"
definition Minute :: duration where "Minute = 60 * Second"
definition Hour :: duration where "Hour = 60 * Minute"
definition Day :: duration where "Day = 24 * Hour"

lemmas duration_units = Millisecond_def Second_def Minute_def Hour_def Day_def

definition time_IsZero :: "gotime \<Rightarrow> bool" where
  "time_IsZero t \<longleftrightarrow> t = 0"

text \<open>\<^verbatim>\<open>Time.Sub\<close> saturates at the int64 bounds; \<^verbatim>\<open>Time.Truncate\<close> rounds down.\<close>

definition time_Sub :: "gotime \<Rightarrow> gotime \<Rightarrow> duration" where
  "time_Sub t u = max min_int64 (min max_int64 (t - u))"

definition time_Truncate :: "gotime \<Rightarrow> duration \<Rightarrow> gotime" where
  "time_Truncate t d = t - t mod d"

lemma time_Sub_exact:
  "int64_range (t - u) \<Longrightarrow> time_Sub t u = t - u"
  by (auto simp: time_Sub_def int64_range_def min_int64_def max_int64_def)

text \<open>
  \<^verbatim>\<open>time.Duration(n) * time.Second\<close> for an int32 n does not leave the int64 range.
\<close>

definition seconds_of :: "int \<Rightarrow> duration" where
  "seconds_of n = wrap64 (n * Second)"

lemma seconds_of_exact: "int32_range n \<Longrightarrow> seconds_of n = n * Second"
  by (simp add: seconds_of_def int32_range_def int64_range_def Second_def)

section \<open>Optional values\<close>

text \<open>
  The nullable wrappers of pgtype (a value and a Valid flag) are options. Where the sources
  read the value without looking at the flag, they get the zero value of the type.
\<close>

definition text_value :: "string option \<Rightarrow> string" where
  "text_value t = (case t of None \<Rightarrow> [] | Some s \<Rightarrow> s)"

definition int_value :: "int option \<Rightarrow> int" where
  "int_value t = (case t of None \<Rightarrow> 0 | Some n \<Rightarrow> n)"

lemma text_value_simps [simp]: "text_value None = []" "text_value (Some s) = s"
  by (simp_all add: text_value_def)

lemma int_value_simps [simp]: "int_value None = 0" "int_value (Some n) = n"
  by (simp_all add: int_value_def)

text \<open>\<^verbatim>\<open>COALESCE(a, b)\<close> of SQL.\<close>

definition coalesce :: "'a option \<Rightarrow> 'a option \<Rightarrow> 'a option" where
  "coalesce a b = (case a of None \<Rightarrow> b | Some x \<Rightarrow> Some x)"

definition coalesce_nn :: "'a option \<Rightarrow> 'a \<Rightarrow> 'a" where
  "coalesce_nn a b = (case a of None \<Rightarrow> b | Some x \<Rightarrow> x)"

lemma coalesce_simps [simp]:
  "coalesce None b = b" "coalesce (Some x) b = Some x"
  "coalesce_nn None y = y" "coalesce_nn (Some x) y = x"
  by (simp_all add: coalesce_def coalesce_nn_def)

text \<open>The SQL comparison \<open>x < y\<close> is not true when \<open>x\<close> is NULL.\<close>

definition null_less :: "int option \<Rightarrow> int \<Rightarrow> bool" where
  "null_less x y = (case x of None \<Rightarrow> False | Some v \<Rightarrow> v < y)"

lemma null_less_simps [simp]: "\<not> null_less None y" "null_less (Some v) y \<longleftrightarrow> v < y"
  by (simp_all add: null_less_def)

lemma null_less_SomeE: "null_less x y \<Longrightarrow> (\<And>v. x = Some v \<Longrightarrow> v < y \<Longrightarrow> P) \<Longrightarrow> P"
  by (cases x) auto

section \<open>Byte strings\<close>

definition str_contains :: "string \<Rightarrow> string \<Rightarrow> bool" where
  "str_contains s sub = sublist sub s"

lemma str_contains_code [code]:
  "str_contains s sub = (case s of [] \<Rightarrow> sub = [] | c # cs \<Rightarrow> prefix sub s \<or> str_contains cs sub)"
  by (auto simp: str_contains_def sublist_Cons_right split: list.split)

text \<open>
  The length of the white-space rune at the front of a UTF-8 string, 0 if there is none:
  the runes for which \<^verbatim>\<open>unicode.IsSpace\<close> holds. Their lead bytes are never continuation
  bytes, so scanning byte by byte finds the same runes as decoding does.
\<close>

definition byte :: "char \<Rightarrow> nat" where
  "byte c = of_char c"

fun space_len :: "string \<Rightarrow> nat" where
  "space_len [] = 0"
| "space_len (a # s) =
    (let x = byte a; y = (case s of [] \<Rightarrow> 0 | b # _ \<Rightarrow> byte b);
         z = (case s of _ # c # _ \<Rightarrow> byte c | _ \<Rightarrow> 0) in
     if x = 32 \<or> (9 \<le> x \<and> x \<le> 13) then 1
     else if x = 194 \<and> (y = 133 \<or> y = 160) then 2
     else if (x = 225 \<and> y = 154 \<and> z = 128)
          \<or> (x = 226 \<and> y = 128 \<and> (128 \<le> z \<and> z \<le> 138 \<or> z = 168 \<or> z = 169 \<or> z = 175))
          \<or> (x = 226 \<and> y = 129 \<and> z = 159) \<or> (x = 227 \<and> y = 128 \<and> z = 128) then 3
     else 0)"

lemma space_len_bound: "space_len s \<le> length s"
  by (cases s) (auto simp: Let_def split: list.splits)

text \<open>\<^verbatim>\<open>strings.Fields\<close>: the maximal runs without white space; \<open>acc\<close> is the current run.\<close>

function fields_from :: "string \<Rightarrow> string \<Rightarrow> string list" where
  "fields_from acc s =
    (case s of
       [] \<Rightarrow> if acc = [] then [] else [acc]
     | c # cs \<Rightarrow>
         if space_len s = 0 then fields_from (acc @ [c]) cs
         else (if acc = [] then [] else [acc]) @ fields_from [] (drop (space_len s) s))"
  by pat_completeness auto
termination
  by (relation "measure (\<lambda>(acc, s). length s)") auto

declare fields_from.simps [simp del]

definition str_Fields :: "string \<Rightarrow> string list" where
  "str_Fields s = fields_from [] s"

text \<open>\<^verbatim>\<open>strings.TrimSpace\<close>, first on the left, then on the right.\<close>

function trim_left :: "string \<Rightarrow> string" where
  "trim_left s = (if space_len s = 0 then s else trim_left (drop (space_len s) s))"
  by pat_completeness auto
termination
proof (relation "measure length")
  fix s :: string
  assume "space_len s \<noteq> 0"
  then show "(drop (space_len s) s, s) \<in> measure length"
    using space_len_bound [of s] by auto
qed simp

declare trim_left.simps [simp del]

fun trim_right :: "string \<Rightarrow> string" where
  "trim_right [] = []"
| "trim_right (c # cs) = (if trim_left (c # cs) = [] then [] else c # trim_right cs)"

definition str_TrimSpace :: "string \<Rightarrow> string" where
  "str_TrimSpace s = trim_right (trim_left s)"

section \<open>Decimal numbers\<close>

fun show_nat :: "nat \<Rightarrow> string" where
  "show_nat n = (if n < 10 then [char_of (48 + n)] else show_nat (n div 10) @ [char_of (48 + n mod 10)])"

declare show_nat.simps [simp del]

definition show_int :: "int \<Rightarrow> string" where
  "show_int i = (if i < 0 then CHR ''-'' # show_nat (nat (- i)) else show_nat (nat i))"

definition is_digit :: "char \<Rightarrow> bool" where
  "is_digit c \<longleftrightarrow> 48 \<le> byte c \<and> byte c \<le> 57"

definition digit_val :: "char \<Rightarrow> nat" where
  "digit_val c = byte c - 48"

fun read_digits :: "nat \<Rightarrow> string \<Rightarrow> nat option" where
  "read_digits acc [] = Some acc"
| "read_digits acc (c # cs) = (if is_digit c then read_digits (10 * acc + digit_val c) cs else None)"

text \<open>
  \<^verbatim>\<open>strconv.ParseInt(s, 10, bits)\<close>: an optional sign, at least one digit, nothing else, and
  a value in the range of the width; anything else is an error.
\<close>

definition parse_nat :: "string \<Rightarrow> nat option" where
  "parse_nat s = (if s = [] then None else read_digits 0 s)"

definition parse_int :: "string \<Rightarrow> int option" where
  "parse_int s =
    (case s of
       [] \<Rightarrow> None
     | c # cs \<Rightarrow>
         if c = CHR ''-'' then map_option (\<lambda>n. - int n) (parse_nat cs)
         else if c = CHR ''+'' then map_option int (parse_nat cs)
         else map_option int (parse_nat s))"

definition ParseInt64 :: "string \<Rightarrow> int option" where
  "ParseInt64 s = (case parse_int s of None \<Rightarrow> None | Some i \<Rightarrow> if int64_range i then Some i else None)"

definition ParseInt32 :: "string \<Rightarrow> int option" where
  "ParseInt32 s = (case parse_int s of None \<Rightarrow> None | Some i \<Rightarrow> if int32_range i then Some i else None)"

lemma byte_char_of [simp]: "n < 256 \<Longrightarrow> byte (char_of n) = n"
  by (simp add: byte_def)

lemma digit_chars [simp]:
  "char_of (48::nat) = CHR ''0''" "char_of (49::nat) = CHR ''1''" "char_of (50::nat) = CHR ''2''"
  "char_of (51::nat) = CHR ''3''" "char_of (52::nat) = CHR ''4''" "char_of (53::nat) = CHR ''5''"
  "char_of (54::nat) = CHR ''6''" "char_of (55::nat) = CHR ''7''" "char_of (56::nat) = CHR ''8''"
  "char_of (57::nat) = CHR ''9''"
  by (simp_all add: char_of_def bit_0)

lemma digit_char [simp]:
  "d < 10 \<Longrightarrow> is_digit (char_of (48 + d))" "d < 10 \<Longrightarrow> digit_val (char_of (48 + d)) = d"
  by (simp_all add: is_digit_def digit_val_def)

lemma read_digits_append:
  "read_digits acc (xs @ ys) = (case read_digits acc xs of None \<Rightarrow> None | Some n \<Rightarrow> read_digits n ys)"
  by (induction acc xs rule: read_digits.induct) auto

lemma read_digits_show_nat: "read_digits 0 (show_nat n) = Some n"
proof (induction n rule: show_nat.induct)
  case (1 n)
  show ?case
  proof (cases "n < 10")
    case True
    then show ?thesis by (subst show_nat.simps) simp
  next
    case False
    with "1.IH" have "read_digits 0 (show_nat (n div 10)) = Some (n div 10)" by simp
    with False show ?thesis by (subst show_nat.simps) (simp add: read_digits_append)
  qed
qed

lemma show_nat_nonempty: "show_nat n \<noteq> []"
  by (subst show_nat.simps) simp

lemma show_nat_digits: "c \<in> set (show_nat n) \<Longrightarrow> is_digit c"
proof (induction n arbitrary: c rule: show_nat.induct)
  case (1 n)
  then show ?case
    by (cases "n < 10") (auto simp: show_nat.simps [of n])
qed

lemma parse_int_show_int: "parse_int (show_int i) = Some i"
proof (cases "i < 0")
  case True
  then show ?thesis
    by (simp add: parse_int_def show_int_def parse_nat_def show_nat_nonempty read_digits_show_nat)
next
  case False
  obtain c cs where s: "show_nat (nat i) = c # cs"
    using show_nat_nonempty by (cases "show_nat (nat i)") auto
  then have "is_digit c" using show_nat_digits [of c "nat i"] by simp
  then have "c \<noteq> CHR ''-''" and "c \<noteq> CHR ''+''" by (auto simp: is_digit_def byte_def)
  with False s show ?thesis
    using read_digits_show_nat [of "nat i"]
    by (simp add: parse_int_def show_int_def parse_nat_def)
qed

lemma ParseInt64_show_int: "int64_range i \<Longrightarrow> ParseInt64 (show_int i) = Some i"
  by (simp add: ParseInt64_def parse_int_show_int)

section \<open>Lists of rows\<close>

text \<open>
  A table is the list of its rows in insertion order. \<open>update_where\<close> is the UPDATE statement,
  \<open>the_row\<close> a SELECT that reads at most one row.
\<close>

definition update_where :: "('r \<Rightarrow> bool) \<Rightarrow> ('r \<Rightarrow> 'r) \<Rightarrow> 'r list \<Rightarrow> 'r list" where
  "update_where p f rows = map (\<lambda>r. if p r then f r else r) rows"

definition the_row :: "('r \<Rightarrow> bool) \<Rightarrow> 'r list \<Rightarrow> 'r option" where
  "the_row p rows = find p rows"

lemma update_where_set: "set (update_where p f rows) = (\<lambda>r. if p r then f r else r) ` set rows"
  by (simp add: update_where_def)

lemma update_where_member:
  "r \<in> set (update_where p f rows) \<Longrightarrow> \<exists>r0 \<in> set rows. r = (if p r0 then f r0 else r0)"
  by (auto simp: update_where_def)

lemma update_where_map_key:
  "(\<And>r. p r \<Longrightarrow> key (f r) = key r) \<Longrightarrow> map key (update_where p f rows) = map key rows"
  by (simp add: update_where_def)

lemma update_where_Nil [simp]: "update_where p f [] = []"
  by (simp add: update_where_def)

lemma update_where_Cons [simp]:
  "update_where p f (r # rows) = (if p r then f r else r) # update_where p f rows"
  by (simp add: update_where_def)

lemma length_update_where [simp]: "length (update_where p f rows) = length rows"
  by (simp add: update_where_def)

lemma the_row_SomeD: "the_row p rows = Some r \<Longrightarrow> r \<in> set rows \<and> p r"
  unfolding the_row_def by (induction rows) (auto split: if_splits)

lemma the_row_None_iff: "the_row p rows = None \<longleftrightarrow> (\<forall>r \<in> set rows. \<not> p r)"
  unfolding the_row_def by (auto simp: find_None_iff)

lemma the_row_simps [simp]:
  "the_row p [] = None" "the_row p (r # rows) = (if p r then Some r else the_row p rows)"
  by (simp_all add: the_row_def)

lemma the_row_key:
  assumes "distinct (map key rows)" and "r \<in> set rows"
  shows "the_row (\<lambda>x. key x = key r) rows = Some r"
  using assms by (induction rows) (auto simp: rev_image_eqI)

lemma the_row_update_where:
  assumes "\<And>r. key (f r) = key r"
  shows "the_row (\<lambda>r. key r = k) (update_where (\<lambda>r. key r = k') f rows)
       = map_option (\<lambda>r. if key r = k' then f r else r) (the_row (\<lambda>r. key r = k) rows)"
  by (induction rows) (auto simp: assms)

end
