(* ===== verification/Schedule.thy ===== *)
theory Schedule
  imports Prelude
begin

text \<open>
  Package schedule (src/backend/schedule): the period/cron/grace arithmetic of heartbeat
  monitors. The cron library (robfig/cron) and the time zone database are not part of the
  repository; they are the fields of a record \<open>schedlib\<close> that every definition takes.
\<close>

section \<open>External functions\<close>

datatype cron_outcome = CronOk | CronErr string | CronPanic string

text \<open>
  \<open>LoadLocation tz\<close> says whether the zone name resolves, \<open>cronParse expr\<close> is what the
  parser does with an expression (it may panic), and \<open>cronNext expr tz t\<close> is the instant
  that the parsed schedule's \<^verbatim>\<open>Next\<close> returns for \<open>t\<close> in that zone.
\<close>

record schedlib =
  LoadLocation :: "string \<Rightarrow> bool"
  cronParse :: "string \<Rightarrow> cron_outcome"
  cronNext :: "string \<Rightarrow> string \<Rightarrow> gotime \<Rightarrow> gotime"

section \<open>Configuration and validation\<close>

definition KindPeriod :: string where "KindPeriod = ''period''"
definition KindCron :: string where "KindCron = ''cron''"

definition MinPeriod :: duration where "MinPeriod = Minute"
definition MaxPeriod :: duration where "MaxPeriod = 365 * 24 * Hour"
definition MinGrace :: duration where "MinGrace = Minute"
definition MaxGrace :: duration where "MaxGrace = 30 * 24 * Hour"

lemmas schedule_bounds = MinPeriod_def MaxPeriod_def MinGrace_def MaxGrace_def duration_units

record Config =
  cKind :: string
  cPeriod :: duration
  cCronExpr :: string
  cTZ :: string
  cGrace :: duration

datatype ValidationError = ValidationError (ve_Field: string) (ve_Message: string)

text \<open>\<^verbatim>\<open>%q\<close>: double quotes, with escapes for the quote, the backslash and control bytes.\<close>

definition hex_digit :: "nat \<Rightarrow> char" where
  "hex_digit d = (if d < 10 then char_of (48 + d) else char_of (87 + d))"

definition quote_char :: "char \<Rightarrow> string" where
  "quote_char c =
    (let b = byte c; bs = char_of (92::nat) in
     if b = 34 \<or> b = 92 then [bs, c]
     else if b = 7 then [bs, CHR ''a''] else if b = 8 then [bs, CHR ''b'']
     else if b = 12 then [bs, CHR ''f''] else if b = 10 then [bs, CHR ''n'']
     else if b = 13 then [bs, CHR ''r''] else if b = 9 then [bs, CHR ''t'']
     else if b = 11 then [bs, CHR ''v'']
     else if b < 32 \<or> b = 127 then [bs, CHR ''x'', hex_digit (b div 16), hex_digit (b mod 16)]
     else [c])"

definition go_quote :: "string \<Rightarrow> string" where
  "go_quote s = [char_of (34::nat)] @ concat (map quote_char s) @ [char_of (34::nat)]"

text \<open>\<open>safeParseCron\<close> turns a panic of the parser into an error; None is a nil error.\<close>

definition safeParseCron :: "schedlib \<Rightarrow> string \<Rightarrow> string option" where
  "safeParseCron L expr =
    (case cronParse L expr of
       CronOk \<Rightarrow> None
     | CronErr e \<Rightarrow> Some e
     | CronPanic r \<Rightarrow> Some (''invalid cron expression: '' @ r))"

definition Validate :: "schedlib \<Rightarrow> Config \<Rightarrow> ValidationError option" where
  "Validate L cfg =
    (if cTZ cfg = [] then Some (ValidationError ''tz'' ''timezone is required'')
     else if \<not> LoadLocation L (cTZ cfg)
       then Some (ValidationError ''tz'' (''unknown timezone '' @ go_quote (cTZ cfg)))
     else if cGrace cfg < MinGrace \<or> cGrace cfg > MaxGrace
       then Some (ValidationError ''grace_s'' ''must be between 1m0s and 720h0m0s'')
     else if cKind cfg = KindPeriod then
       (if cCronExpr cfg \<noteq> [] then Some (ValidationError ''cron_expr'' ''must be empty for a period schedule'')
        else if cPeriod cfg < MinPeriod \<or> cPeriod cfg > MaxPeriod
          then Some (ValidationError ''period_s'' ''must be between 1m0s and 8760h0m0s'')
        else None)
     else if cKind cfg = KindCron then
       (if cPeriod cfg \<noteq> 0 then Some (ValidationError ''period_s'' ''must be zero for a cron schedule'')
        else if cCronExpr cfg = [] then Some (ValidationError ''cron_expr'' ''cron expression is required'')
        else if str_contains (cCronExpr cfg) ''=''
          then Some (ValidationError ''cron_expr'' ''must not contain a timezone prefix; set tz instead'')
        else if length (str_Fields (cCronExpr cfg)) \<noteq> 5
          then Some (ValidationError ''cron_expr'' ''expected a 5-field cron expression'')
        else case safeParseCron L (cCronExpr cfg) of
               Some e \<Rightarrow> Some (ValidationError ''cron_expr'' e)
             | None \<Rightarrow> None)
     else Some (ValidationError ''schedule_kind'' ''must be \"period\" or \"cron\"''))"

section \<open>Occurrences and deadlines\<close>

definition NextOccurrence ::
  "schedlib \<Rightarrow> Config \<Rightarrow> gotime \<Rightarrow> gotime \<Rightarrow> ValidationError + gotime" where
  "NextOccurrence L cfg lastCheckin now =
    (case Validate L cfg of
       Some e \<Rightarrow> Inl e
     | None \<Rightarrow>
         (let from = (if time_IsZero lastCheckin then now else lastCheckin) in
          if cKind cfg = KindPeriod then Inr (from + cPeriod cfg)
          else Inr (cronNext L (cCronExpr cfg) (cTZ cfg) from)))"

definition NextDeadline ::
  "schedlib \<Rightarrow> Config \<Rightarrow> gotime \<Rightarrow> gotime \<Rightarrow> ValidationError + gotime" where
  "NextDeadline L cfg lastCheckin now =
    (case NextOccurrence L cfg lastCheckin now of
       Inl e \<Rightarrow> Inl e
     | Inr occ \<Rightarrow> Inr (occ + cGrace cfg))"

section \<open>Human-readable descriptions\<close>

definition describePeriod :: "duration \<Rightarrow> string" where
  "describePeriod d =
    (if d = 24 * Hour then ''every day''
     else if d smod (24 * Hour) = 0 then ''every '' @ show_int (d sdiv (24 * Hour)) @ '' days''
     else if d = Hour then ''every hour''
     else if d smod Hour = 0 then ''every '' @ show_int (d sdiv Hour) @ '' hours''
     else if d = Minute then ''every minute''
     else ''every '' @ show_int (d sdiv Minute) @ '' minutes'')"

definition isNumeric :: "string \<Rightarrow> bool" where
  "isNumeric s \<longleftrightarrow> list_all is_digit s \<and> length s > 0"

text \<open>The value \<^verbatim>\<open>strconv.Atoi\<close> returns beside an ignored error: 0, or the largest int.\<close>

definition atoi_value :: "string \<Rightarrow> int" where
  "atoi_value s = (case parse_int s of None \<Rightarrow> 0 | Some i \<Rightarrow> max min_int64 (min max_int64 i))"

definition pad2 :: "int \<Rightarrow> string" where
  "pad2 i = (if 0 \<le> i \<and> i < 10 then ''0'' @ show_int i else show_int i)"

text \<open>Indexing the fields panics when there are fewer than five: None.\<close>

definition describeCron :: "string \<Rightarrow> string \<Rightarrow> string option" where
  "describeCron expr tz =
    (case str_Fields expr of
       minute # hour # mday # month # wday # _ \<Rightarrow>
         (if mday = ''*'' \<and> month = ''*'' \<and> wday = ''*'' \<and> isNumeric minute \<and> isNumeric hour
          then Some (''every day at '' @ pad2 (atoi_value hour) @ '':'' @ pad2 (atoi_value minute)
                     @ '' ('' @ tz @ '')'')
          else Some (''on schedule '' @ go_quote expr @ '' ('' @ tz @ '')''))
     | _ \<Rightarrow> None)"

definition describeDuration :: "duration \<Rightarrow> string" where
  "describeDuration d =
    (if d smod (24 * Hour) = 0 \<and> d \<ge> 24 * Hour then
       (let days = d sdiv (24 * Hour) in if days = 1 then ''1 day'' else show_int days @ '' days'')
     else if d smod Hour = 0 \<and> d \<ge> Hour then
       (let hours = d sdiv Hour in if hours = 1 then ''1 hour'' else show_int hours @ '' hours'')
     else show_int (d sdiv Minute) @ '' min'')"

definition Describe :: "schedlib \<Rightarrow> Config \<Rightarrow> (ValidationError + string) option" where
  "Describe L cfg =
    (case Validate L cfg of
       Some e \<Rightarrow> Some (Inl e)
     | None \<Rightarrow>
         (case (if cKind cfg = KindPeriod then Some (describePeriod (cPeriod cfg))
                else describeCron (cCronExpr cfg) (cTZ cfg)) of
            None \<Rightarrow> None
          | Some schedulePart \<Rightarrow>
              Some (Inr (schedulePart @ ''; alert if '' @ describeDuration (cGrace cfg) @ '' late''))))"

section \<open>Validation\<close>

text \<open>The documented bounds (period one minute to 365 days, grace one minute to 30 days) and
  the cross-field rules, as one predicate.\<close>

definition valid_config :: "schedlib \<Rightarrow> Config \<Rightarrow> bool" where
  "valid_config L cfg \<longleftrightarrow>
     cTZ cfg \<noteq> [] \<and> LoadLocation L (cTZ cfg) \<and> cGrace cfg \<in> {MinGrace..MaxGrace} \<and>
     ((cKind cfg = KindPeriod \<and> cCronExpr cfg = [] \<and> cPeriod cfg \<in> {MinPeriod..MaxPeriod}) \<or>
      (cKind cfg = KindCron \<and> cPeriod cfg = 0 \<and> \<not> str_contains (cCronExpr cfg) ''='' \<and>
       length (str_Fields (cCronExpr cfg)) = 5 \<and> cronParse L (cCronExpr cfg) = CronOk))"

lemma str_Fields_Nil [simp]: "str_Fields [] = []"
  by (simp add: str_Fields_def fields_from.simps)

lemma kinds_distinct [simp]: "KindPeriod \<noteq> KindCron" "KindCron \<noteq> KindPeriod"
  by (simp_all add: KindPeriod_def KindCron_def)

lemma safeParseCron_None_iff: "safeParseCron L e = None \<longleftrightarrow> cronParse L e = CronOk"
  by (simp add: safeParseCron_def split: cron_outcome.split)

lemma Validate_None_iff: "Validate L cfg = None \<longleftrightarrow> valid_config L cfg"
  by (auto simp: Validate_def valid_config_def safeParseCron_None_iff [symmetric]
      split: option.splits if_splits)

lemma valid_config_kind: "valid_config L cfg \<Longrightarrow> cKind cfg = KindPeriod \<or> cKind cfg = KindCron"
  by (auto simp: valid_config_def)

lemma NextOccurrence_valid:
  "valid_config L cfg \<Longrightarrow> NextOccurrence L cfg lastCheckin now =
     Inr (let from = (if lastCheckin = 0 then now else lastCheckin) in
          if cKind cfg = KindPeriod then from + cPeriod cfg
          else cronNext L (cCronExpr cfg) (cTZ cfg) from)"
  by (simp add: NextOccurrence_def Validate_None_iff [THEN iffD2] time_IsZero_def Let_def)

lemma NextOccurrence_Inl_iff:
  "NextOccurrence L cfg l n = Inl e \<longleftrightarrow> Validate L cfg = Some e"
  by (auto simp: NextOccurrence_def Let_def split: option.split)

text \<open>A cron schedule whose occurrences lie strictly after the instant they are asked for.\<close>

definition cron_after :: "schedlib \<Rightarrow> Config \<Rightarrow> bool" where
  "cron_after L cfg \<longleftrightarrow>
     (cKind cfg = KindCron \<longrightarrow> (\<forall>t. t < cronNext L (cCronExpr cfg) (cTZ cfg) t))"

lemma valid_period_pos: "valid_config L cfg \<Longrightarrow> cKind cfg = KindPeriod \<Longrightarrow> 0 < cPeriod cfg"
  by (auto simp: valid_config_def schedule_bounds)

lemma valid_grace_pos: "valid_config L cfg \<Longrightarrow> Minute \<le> cGrace cfg"
  by (auto simp: valid_config_def schedule_bounds)

text \<open>
  The deadline a schedule computes is well defined exactly for the configurations
  \<open>Validate\<close> accepts, it lies at least the grace period (one minute or more) after the
  check-in it counts from, and a period schedule's deadline is exactly check-in + period +
  grace, so at most 395 days away.
\<close>

theorem NextDeadline_spec:
  assumes "cron_after L cfg" and "lastCheckin \<noteq> 0"
  shows "if valid_config L cfg
         then \<exists>d. NextDeadline L cfg lastCheckin now = Inr d \<and> lastCheckin + cGrace cfg < d \<and>
              (cKind cfg = KindPeriod \<longrightarrow>
                 d = lastCheckin + cPeriod cfg + cGrace cfg \<and> d \<le> lastCheckin + 395 * Day)
         else \<exists>e. NextDeadline L cfg lastCheckin now = Inl e \<and> Validate L cfg = Some e"
proof (cases "valid_config L cfg")
  case True
  let ?d = "(if cKind cfg = KindPeriod then lastCheckin + cPeriod cfg
             else cronNext L (cCronExpr cfg) (cTZ cfg) lastCheckin) + cGrace cfg"
  have "NextDeadline L cfg lastCheckin now = Inr ?d"
    using assms(2) by (simp add: NextDeadline_def NextOccurrence_valid [OF True] Let_def)
  moreover have "lastCheckin + cGrace cfg < ?d"
    using assms(1) valid_config_kind [OF True] valid_period_pos [OF True]
    by (auto simp: cron_after_def)
  moreover have "?d \<le> lastCheckin + 395 * Day" if "cKind cfg = KindPeriod"
    using True that by (auto simp: valid_config_def schedule_bounds)
  ultimately show ?thesis using True by simp
next
  case False
  then obtain e where "Validate L cfg = Some e"
    using Validate_None_iff [of L cfg] by auto
  with False show ?thesis by (simp add: NextDeadline_def NextOccurrence_def)
qed

text \<open>A concrete instance of the external functions: one zone, a daily cron schedule.\<close>

definition demo_lib :: schedlib where
  "demo_lib = \<lparr>LoadLocation = (\<lambda>z. z = ''UTC''), cronParse = (\<lambda>_. CronOk),
     cronNext = (\<lambda>_ _ t. t + Day)\<rparr>"

definition demo_config :: Config where
  "demo_config = \<lparr>cKind = ''period'', cPeriod = 15 * Minute, cCronExpr = [], cTZ = ''UTC'',
     cGrace = 5 * Minute\<rparr>"

lemma demo_config_valid: "valid_config demo_lib demo_config"
  by (simp add: valid_config_def demo_lib_def demo_config_def KindPeriod_def schedule_bounds)

theorem NextDeadline_spec_witness:
  "NextDeadline demo_lib demo_config Day 0 = Inr (Day + 20 * Minute)"
proof -
  have "cron_after demo_lib demo_config"
    by (simp add: cron_after_def demo_lib_def duration_units)
  moreover have "Day \<noteq> 0" by (simp add: duration_units)
  ultimately show ?thesis
    using NextDeadline_spec [of demo_lib demo_config Day 0] demo_config_valid
    by (auto simp: demo_config_def KindPeriod_def duration_units)
qed

section \<open>Descriptions\<close>

text \<open>Decimal text determines the number, and contains digits only.\<close>

lemma show_int_inject: "show_int i = show_int j \<longleftrightarrow> i = j"
  by (metis option.inject parse_int_show_int)

lemma length_five_cases:
  "length xs = 5 \<Longrightarrow> \<exists>a b c d e. xs = [a, b, c, d, e]"
  by (auto simp: numeral_eq_Suc length_Suc_conv)

text \<open>
  \<open>Describe\<close> never panics: the field indexing of \<open>describeCron\<close> is in range for every
  configuration that passed validation, so a description is returned exactly for the valid
  configurations and a validation error for all others.
\<close>

lemma Describe_total:
  "\<exists>r. Describe L cfg = Some r \<and> (valid_config L cfg \<longleftrightarrow> (\<exists>text. r = Inr text))"
proof (cases "valid_config L cfg")
  case True
  show ?thesis
  proof (cases "cKind cfg = KindPeriod")
    case True
    with \<open>valid_config L cfg\<close> show ?thesis
      by (auto simp: Describe_def Validate_None_iff [THEN iffD2])
  next
    case False
    with True have "length (str_Fields (cCronExpr cfg)) = 5" by (auto simp: valid_config_def)
    then obtain a b c d e where "str_Fields (cCronExpr cfg) = [a, b, c, d, e]"
      using length_five_cases by blast
    then have "\<exists>t. describeCron (cCronExpr cfg) (cTZ cfg) = Some t"
      by (simp add: describeCron_def)
    with True False show ?thesis
      by (auto simp: Describe_def Validate_None_iff [THEN iffD2])
  qed
next
  case False
  then obtain e where "Validate L cfg = Some e" using Validate_None_iff [of L cfg] by auto
  with False show ?thesis by (auto simp: Describe_def)
qed

text \<open>The count and unit a period is described with.\<close>

definition period_words :: "duration \<Rightarrow> int \<times> string" where
  "period_words d =
    (if d mod Day = 0 then (d div Day, '' days'')
     else if d mod Hour = 0 then (d div Hour, '' hours'')
     else (d div Minute, '' minutes''))"

definition words_text :: "int \<times> string \<Rightarrow> string" where
  "words_text w =
    (case w of (n, u) \<Rightarrow>
       if n = 1 then (if u = '' days'' then ''every day'' else if u = '' hours'' then ''every hour''
                      else ''every minute'')
       else ''every '' @ show_int n @ u)"

lemma int_sdiv_pos: "0 \<le> a \<Longrightarrow> 0 < b \<Longrightarrow> a sdiv b = a div (b::int)"
  by (cases "a = 0") (simp_all add: signed_divide_int_def)

lemma int_smod_pos: "0 \<le> a \<Longrightarrow> 0 < b \<Longrightarrow> a smod b = a mod (b::int)"
  by (cases "a = 0") (simp_all add: signed_modulo_int_def)

lemma period_words_inject:
  assumes "Minute dvd d" "Minute dvd d'" "period_words d = period_words d'"
  shows "d = d'"
  using assms
  by (auto simp: period_words_def dvd_def duration_units split: if_splits)

lemma words_text_ending:
  assumes "u \<in> {'' days'', '' hours'', '' minutes''}"
  shows "take 2 (rev (words_text (n, u))) =
     (if n = 1 then (if u = '' days'' then ''ya'' else if u = '' hours'' then ''ru'' else ''et'')
      else (if u = '' days'' then ''sy'' else if u = '' hours'' then ''sr'' else ''se''))"
  using assms by (auto simp: words_text_def)

lemma words_text_inject:
  assumes "u \<in> {'' days'', '' hours'', '' minutes''}" "u' \<in> {'' days'', '' hours'', '' minutes''}"
    and eq: "words_text (n, u) = words_text (n', u')"
  shows "n = n' \<and> u = u'"
proof -
  have ends: "take 2 (rev (words_text (n, u))) = take 2 (rev (words_text (n', u')))"
    using eq by simp
  have one: "n = 1 \<longleftrightarrow> n' = 1" and u: "u = u'"
    using ends assms(1,2)
    unfolding words_text_ending [OF assms(1)] words_text_ending [OF assms(2)]
    by (auto split: if_splits)
  show ?thesis
  proof (cases "n = 1")
    case True
    with one u show ?thesis by simp
  next
    case False
    with one u eq show ?thesis by (auto simp: words_text_def show_int_inject)
  qed
qed

lemma describePeriod_words:
  assumes "0 < d" and "Minute dvd d"
  shows "describePeriod d = words_text (period_words d)"
proof -
  have smod: "d smod (24 * Hour) = d mod Day" "d smod Hour = d mod Hour"
    and sdiv: "d sdiv (24 * Hour) = d div Day" "d sdiv Hour = d div Hour"
      "d sdiv Minute = d div Minute"
    using assms(1) by (simp_all add: int_smod_pos int_sdiv_pos duration_units)
  have one: "d mod Day = 0 \<Longrightarrow> d div Day = 1 \<longleftrightarrow> d = 24 * Hour"
    "d mod Hour = 0 \<Longrightarrow> d div Hour = 1 \<longleftrightarrow> d = Hour" "d div Minute = 1 \<longleftrightarrow> d = Minute"
    using assms by (auto simp: duration_units dvd_def)
  have hour: "d = Hour \<Longrightarrow> d mod Day \<noteq> 0" "d = 24 * Hour \<Longrightarrow> d mod Day = 0"
    by (simp_all add: duration_units)
  show ?thesis
    unfolding describePeriod_def period_words_def words_text_def smod sdiv
    using one hour by (auto simp: duration_units)
qed

lemma period_words_unit: "snd (period_words d) \<in> {'' days'', '' hours'', '' minutes''}"
  by (simp add: period_words_def)

text \<open>
  For periods that are whole minutes the description determines the period: two such
  periods with the same description are equal, whatever unit (days, hours, minutes; singular
  or plural) each is described in.
\<close>

lemma describePeriod_inject:
  assumes "0 < d" "0 < d'" "Minute dvd d" "Minute dvd d'"
  shows "describePeriod d = describePeriod d' \<longleftrightarrow> d = d'"
proof
  assume "describePeriod d = describePeriod d'"
  then have "words_text (period_words d) = words_text (period_words d')"
    using assms by (simp add: describePeriod_words)
  then have "period_words d = period_words d'"
    using words_text_inject [OF period_words_unit [of d] period_words_unit [of d']]
    by (metis prod.collapse)
  then show "d = d'" using assms period_words_inject by blast
qed simp

lemma describePeriod_inject_witness:
  "describePeriod (15 * Minute) = ''every 15 minutes'' \<and>
   describePeriod (15 * Hour) \<noteq> describePeriod (15 * Minute)"
proof -
  have "describePeriod (15 * Minute) = ''every 15 minutes''"
    by (simp add: describePeriod_def duration_units int_smod_pos int_sdiv_pos show_int_def
        show_nat.simps)
  moreover have "15 * Hour \<noteq> 15 * Minute" and "Minute dvd 15 * Hour" and "Minute dvd 15 * Minute"
    by (simp_all add: duration_units)
  ultimately show ?thesis
    using describePeriod_inject [of "15 * Hour" "15 * Minute"] by (simp add: duration_units)
qed

text \<open>
  For other periods it does not: 90 seconds, an accepted period, is described like one
  minute would be if it had a plural, ``every 1 minutes'', because the seconds are cut off.
\<close>

lemma describePeriod_drops_seconds:
  "valid_config demo_lib (demo_config\<lparr>cPeriod := seconds_of 90\<rparr>) \<and>
   describePeriod (seconds_of 90) = ''every 1 minutes''"
  by (simp add: seconds_of_def int64_range_def valid_config_def demo_lib_def demo_config_def
      KindPeriod_def schedule_bounds describePeriod_def int_smod_pos int_sdiv_pos show_int_def
      show_nat.simps)

end
