(* ===== verification/Database.thy ===== *)
theory Database
  imports Schedule
begin

text \<open>
  The Postgres database behind packages db and store: the rows of every table
  (src/backend/db/models.go and the migrations), errors of package store, and the way the
  store runs statements and transactions (src/backend/store/store.go). A table is the list of
  its rows; NULL is None; a BIGSERIAL column draws from a sequence of the database, and a
  sequence is not rolled back.
\<close>

section \<open>Rows\<close>

text \<open>UUID values are opaque; two are only compared.\<close>

type_synonym uuid = nat

record user_row =
  u_id :: uuid
  u_email :: string
  u_password_hash :: string
  u_created_at :: gotime
  u_updated_at :: gotime

record api_key_row =
  k_id :: uuid
  k_user_id :: uuid
  k_key_hash :: string
  k_label :: string
  k_last_used_at :: "gotime option"
  k_revoked_at :: "gotime option"
  k_created_at :: gotime

record refresh_token_row =
  r_id :: uuid
  r_user_id :: uuid
  r_family_id :: uuid
  r_token_hash :: string
  r_expires_at :: gotime
  r_rotated_at :: "gotime option"
  r_revoked_at :: "gotime option"
  r_created_at :: gotime

record monitor_row =
  m_id :: uuid
  m_user_id :: uuid
  m_kind :: string
  m_slug :: string
  m_name :: string
  m_schedule_kind :: "string option"
  m_period_s :: "int option"
  m_cron_expr :: "string option"
  m_tz :: string
  m_grace_s :: "int option"
  m_url :: "string option"
  m_method :: "string option"
  m_interval_s :: "int option"
  m_timeout_s :: "int option"
  m_fail_threshold :: "int option"
  m_http_config :: string
  m_state :: string
  m_fail_streak :: int
  m_last_checkin_at :: "gotime option"
  m_next_deadline :: "gotime option"
  m_next_probe_at :: "gotime option"
  m_alerts_muted :: bool
  m_paused_at :: "gotime option"
  m_created_at :: gotime
  m_updated_at :: gotime
  m_auto_resume :: bool
  m_reminder_every_s :: int
  m_tls_warned_expires_at :: "gotime option"

record checkin_row =
  c_id :: int
  c_monitor_id :: uuid
  c_kind :: string
  c_source_ip :: "string option"
  c_user_agent :: "string option"
  c_body :: "string option"
  c_created_at :: gotime

record probe_result_row =
  p_id :: int
  p_monitor_id :: uuid
  p_ok :: bool
  p_http_status :: "int option"
  p_latency_ms :: "int option"
  p_error :: "string option"
  p_tls_expires_at :: "gotime option"
  p_created_at :: gotime

text \<open>
  The JSONB column \<^verbatim>\<open>events.meta\<close> holds one of three documents: the empty object, the
  changed-field list of a config_change event, or the certificate expiry of a tls_expiry event.
\<close>

datatype event_meta = MetaEmpty | MetaFields "string list" | MetaTLS gotime

record event_row =
  e_id :: int
  e_monitor_id :: uuid
  e_type :: string
  e_message :: string
  e_meta :: event_meta
  e_created_at :: gotime

record alert_row =
  a_id :: int
  a_monitor_id :: uuid
  a_event_id :: int
  a_channel :: string
  a_status :: string
  a_attempts :: int
  a_next_attempt_at :: gotime
  a_sent_at :: "gotime option"
  a_created_at :: gotime
  a_is_reminder :: bool

record daily_stat_row =
  d_monitor_id :: uuid
  d_day :: int
  d_checkins :: int
  d_failures :: int
  d_downtime_s :: int
  d_latency_p50 :: "int option"
  d_latency_p95 :: "int option"

record sequences =
  seq_checkins :: int
  seq_probe_results :: int
  seq_events :: int
  seq_alerts :: int

record db =
  users :: "user_row list"
  api_keys :: "api_key_row list"
  refresh_tokens :: "refresh_token_row list"
  monitors :: "monitor_row list"
  checkins :: "checkin_row list"
  probe_results :: "probe_result_row list"
  events :: "event_row list"
  alerts :: "alert_row list"
  daily_stats :: "daily_stat_row list"
  seqs :: sequences

definition empty_db :: db where
  "empty_db = \<lparr>users = [], api_keys = [], refresh_tokens = [], monitors = [], checkins = [],
     probe_results = [], events = [], alerts = [], daily_stats = [],
     seqs = \<lparr>seq_checkins = 1, seq_probe_results = 1, seq_events = 1, seq_alerts = 1\<rparr>\<rparr>"

section \<open>Errors\<close>

datatype dberr = NoRows | UniqueViolation | ForeignKeyViolation | CheckViolation
  | NumericOutOfRange | NegativeLimit | ScanError | ConnFailure

datatype sentinel = ErrEmailTaken | ErrRegistrationClosed | ErrInvalidCredentials
  | ErrInvalidRefreshToken | ErrRefreshReuse | ErrNotFound | ErrForbidden | ErrText string

text \<open>
  Go error values: an error of pgx, a bare sentinel, a sentinel with an HTTP status
  (\<^verbatim>\<open>httpError\<close>), a schedule validation error, a plain message, and
  \<^verbatim>\<open>fmt.Errorf(\"...: %w\", err)\<close>, which keeps the wrapped error in the chain.
\<close>

datatype gerror = DbE dberr | SentinelE sentinel | HttpE sentinel nat
  | ValidationE ValidationError | MsgE string | WrapE string gerror

definition newHTTPError :: "sentinel \<Rightarrow> nat \<Rightarrow> gerror" where
  "newHTTPError e status = HttpE e status"

fun err_is :: "sentinel \<Rightarrow> gerror \<Rightarrow> bool" where
  "err_is s (SentinelE e) = (e = s)"
| "err_is s (HttpE e _) = (e = s)"
| "err_is s (WrapE _ e) = err_is s e"
| "err_is s _ = False"

fun is_no_rows :: "gerror \<Rightarrow> bool" where
  "is_no_rows (DbE e) = (e = NoRows)"
| "is_no_rows (WrapE _ e) = is_no_rows e"
| "is_no_rows _ = False"

fun isUniqueViolation :: "gerror \<Rightarrow> bool" where
  "isUniqueViolation (DbE e) = (e = UniqueViolation)"
| "isUniqueViolation (WrapE _ e) = isUniqueViolation e"
| "isUniqueViolation _ = False"

text \<open>
  Third-party functions the store calls: pgtype's UUID scanner and formatter, and
  \<^verbatim>\<open>netip.ParseAddr\<close>, which yields the canonical text of the address.
\<close>

record extlib =
  scanUUID :: "string \<Rightarrow> uuid option"
  uuidString :: "uuid \<Rightarrow> string"
  ParseAddr :: "string \<Rightarrow> string option"

definition pgUUID :: "extlib \<Rightarrow> string \<Rightarrow> gerror + uuid" where
  "pgUUID x s = (case scanUUID x s of
      None \<Rightarrow> Inl (MsgE (''store: parse uuid '' @ go_quote s)) | Some u \<Rightarrow> Inr u)"

section \<open>Statements and transactions\<close>

text \<open>
  A statement runs on the database with the value of \<^verbatim>\<open>now()\<close> and yields a result or an
  error. What the connection does to it is an element of the session's outcome list: it
  succeeds, it fails without effect, or its effect happens and the answer is lost. An
  exhausted list means success. A killed process is a failure of the statement that would
  have come next.
\<close>

datatype outcome = Succeeds | FailsBefore | FailsAfter

type_synonym 'a stmt = "gotime \<Rightarrow> db \<Rightarrow> (dberr + 'a) \<times> db"

record sess =
  sdb :: db
  snow :: gotime
  soutcomes :: "outcome list"

type_synonym 'a dbm = "sess \<Rightarrow> (gerror + 'a) \<times> sess"

definition ret :: "'a \<Rightarrow> 'a dbm" where
  "ret x s = (Inr x, s)"

definition raise :: "gerror \<Rightarrow> 'a dbm" where
  "raise e s = (Inl e, s)"

definition bind :: "'a dbm \<Rightarrow> ('a \<Rightarrow> 'b dbm) \<Rightarrow> 'b dbm" where
  "bind m f s = (case m s of (Inl e, s') \<Rightarrow> (Inl e, s') | (Inr x, s') \<Rightarrow> f x s')"

text \<open>\<open>map_err\<close> is \<^verbatim>\<open>if err != nil { return g(err) }\<close>, \<open>catch\<close> goes on after an error.\<close>

definition map_err :: "(gerror \<Rightarrow> gerror) \<Rightarrow> 'a dbm \<Rightarrow> 'a dbm" where
  "map_err g m s = (case m s of (Inl e, s') \<Rightarrow> (Inl (g e), s') | (Inr x, s') \<Rightarrow> (Inr x, s'))"

definition catch :: "'a dbm \<Rightarrow> (gerror \<Rightarrow> 'a dbm) \<Rightarrow> 'a dbm" where
  "catch m h s = (case m s of (Inl e, s') \<Rightarrow> h e s' | (Inr x, s') \<Rightarrow> (Inr x, s'))"

definition next_outcome :: "sess \<Rightarrow> outcome" where
  "next_outcome s = (case soutcomes s of [] \<Rightarrow> Succeeds | b # _ \<Rightarrow> b)"

definition consume :: "sess \<Rightarrow> sess" where
  "consume s = s\<lparr>soutcomes := tl (soutcomes s)\<rparr>"

definition query :: "'a stmt \<Rightarrow> 'a dbm" where
  "query q s =
    (case next_outcome s of
       Succeeds \<Rightarrow> (case q (snow s) (sdb s) of
           (Inl e, d) \<Rightarrow> (Inl (DbE e), (consume s)\<lparr>sdb := d\<rparr>)
         | (Inr x, d) \<Rightarrow> (Inr x, (consume s)\<lparr>sdb := d\<rparr>))
     | FailsBefore \<Rightarrow> (Inl (DbE ConnFailure), consume s)
     | FailsAfter \<Rightarrow> (Inl (DbE ConnFailure), (consume s)\<lparr>sdb := snd (q (snow s) (sdb s))\<rparr>))"

text \<open>Rolling back restores the tables and keeps the sequences where they are.\<close>

definition rollback :: "db \<Rightarrow> db \<Rightarrow> db" where
  "rollback old new = old\<lparr>seqs := seqs new\<rparr>"

definition withTx :: "'a dbm \<Rightarrow> 'a dbm" where
  "withTx fn s =
    (if next_outcome s \<noteq> Succeeds
     then (Inl (WrapE ''store: begin tx'' (DbE ConnFailure)), consume s)
     else (case fn (consume s) of
         (Inl e, s') \<Rightarrow> (Inl e, s'\<lparr>sdb := rollback (sdb s) (sdb s')\<rparr>)
       | (Inr x, s') \<Rightarrow>
           (case next_outcome s' of
              Succeeds \<Rightarrow> (Inr x, consume s')
            | FailsBefore \<Rightarrow> (Inl (WrapE ''store: commit tx'' (DbE ConnFailure)),
                              (consume s')\<lparr>sdb := rollback (sdb s) (sdb s')\<rparr>)
            | FailsAfter \<Rightarrow> (Inl (WrapE ''store: commit tx'' (DbE ConnFailure)), consume s'))))"

text \<open>The database after a store operation, and its result.\<close>

definition run_db :: "'a dbm \<Rightarrow> gotime \<Rightarrow> outcome list \<Rightarrow> db \<Rightarrow> db" where
  "run_db m now os d = sdb (snd (m \<lparr>sdb = d, snow = now, soutcomes = os\<rparr>))"

definition run_res :: "'a dbm \<Rightarrow> gotime \<Rightarrow> outcome list \<Rightarrow> db \<Rightarrow> gerror + 'a" where
  "run_res m now os d = fst (m \<lparr>sdb = d, snow = now, soutcomes = os\<rparr>)"

section \<open>Reasoning about store operations\<close>

lemma consume_simps [simp]:
  "sdb (consume s) = sdb s" "snow (consume s) = snow s" "soutcomes (consume s) = tl (soutcomes s)"
  by (simp_all add: consume_def)

lemma rollback_simps [simp]:
  "users (rollback d d') = users d" "api_keys (rollback d d') = api_keys d"
  "refresh_tokens (rollback d d') = refresh_tokens d" "monitors (rollback d d') = monitors d"
  "checkins (rollback d d') = checkins d" "probe_results (rollback d d') = probe_results d"
  "events (rollback d d') = events d" "alerts (rollback d d') = alerts d"
  "daily_stats (rollback d d') = daily_stats d" "seqs (rollback d d') = seqs d'"
  by (simp_all add: rollback_def)

lemma rollback_id [simp]: "rollback d d = d"
  by (simp add: rollback_def)

subsection \<open>Runs without connection failures\<close>

text \<open>With an empty outcome list every statement runs, so a run unfolds to its statements.\<close>

abbreviation quiet :: "db \<Rightarrow> gotime \<Rightarrow> sess" where
  "quiet d now \<equiv> \<lparr>sdb = d, snow = now, soutcomes = []\<rparr>"

lemma quiet_consume [simp]: "consume (quiet d now) = quiet d now"
  by (simp add: consume_def)

lemma query_quiet [tx_unfold]:
  "query q (quiet d now) = (case q now d of
      (Inl e, d') \<Rightarrow> (Inl (DbE e), quiet d' now) | (Inr x, d') \<Rightarrow> (Inr x, quiet d' now))"
  by (simp add: query_def next_outcome_def consume_def split: prod.split sum.split)

lemma next_outcome_quiet [simp]: "next_outcome (quiet d now) = Succeeds"
  by (simp add: next_outcome_def)

lemma withTx_unfold [tx_unfold]:
  "withTx fn (quiet d now) = (case fn (quiet d now) of
      (Inl e, s') \<Rightarrow> (Inl e, s'\<lparr>sdb := rollback d (sdb s')\<rparr>)
    | (Inr x, s') \<Rightarrow> (case next_outcome s' of
        Succeeds \<Rightarrow> (Inr x, consume s')
      | FailsBefore \<Rightarrow> (Inl (WrapE ''store: commit tx'' (DbE ConnFailure)),
                        (consume s')\<lparr>sdb := rollback d (sdb s')\<rparr>)
      | FailsAfter \<Rightarrow> (Inl (WrapE ''store: commit tx'' (DbE ConnFailure)), consume s')))"
  by (cases "fn (quiet d now)") (simp add: withTx_def split: sum.split outcome.split)

lemma withTx_quiet:
  assumes "fn (quiet d now) = (r, quiet d' now)"
  shows "withTx fn (quiet d now) =
    (case r of Inl e \<Rightarrow> (Inl e, quiet (rollback d d') now) | Inr x \<Rightarrow> (Inr x, quiet d' now))"
  using assms by (simp add: withTx_def next_outcome_def consume_def split: sum.split)

declare ret_def [tx_unfold] raise_def [tx_unfold] bind_def [tx_unfold] map_err_def [tx_unfold]
  catch_def [tx_unfold]

subsection \<open>Sequences only grow\<close>

definition seqs_le :: "sequences \<Rightarrow> sequences \<Rightarrow> bool" where
  "seqs_le a b \<longleftrightarrow> seq_checkins a \<le> seq_checkins b \<and> seq_probe_results a \<le> seq_probe_results b \<and>
     seq_events a \<le> seq_events b \<and> seq_alerts a \<le> seq_alerts b"

lemma seqs_le_refl [simp]: "seqs_le a a"
  by (simp add: seqs_le_def)

lemma seqs_le_trans: "seqs_le a b \<Longrightarrow> seqs_le b c \<Longrightarrow> seqs_le a c"
  by (auto simp: seqs_le_def)

definition stmt_grows :: "'a stmt \<Rightarrow> bool" where
  "stmt_grows q \<longleftrightarrow> (\<forall>now d. seqs_le (seqs d) (seqs (snd (q now d))))"

definition grows :: "'a dbm \<Rightarrow> bool" where
  "grows m \<longleftrightarrow> (\<forall>s. seqs_le (seqs (sdb s)) (seqs (sdb (snd (m s)))))"

lemma grows_ret [tx_rules]: "grows (ret x)"
  by (simp add: grows_def ret_def)

lemma grows_raise [tx_rules]: "grows (raise e)"
  by (simp add: grows_def raise_def)

lemma grows_bind [tx_rules]:
  assumes "grows m" and "\<And>x. grows (f x)"
  shows "grows (bind m f)"
  unfolding grows_def
proof
  fix s
  obtain r s' where ms: "m s = (r, s')" by force
  from assms(1) have a: "seqs_le (seqs (sdb s)) (seqs (sdb s'))"
    unfolding grows_def by (metis ms snd_conv)
  show "seqs_le (seqs (sdb s)) (seqs (sdb (snd (bind m f s))))"
    using a assms(2) by (auto simp: bind_def ms grows_def intro: seqs_le_trans split: sum.split)
qed

lemma grows_map_err [tx_rules]: "grows m \<Longrightarrow> grows (map_err g m)"
proof -
  have "snd (map_err g m s) = snd (m s)" for s
    by (auto simp: map_err_def split: prod.split sum.split)
  then show "grows m \<Longrightarrow> grows (map_err g m)" by (simp add: grows_def)
qed

lemma grows_query [tx_rules]: "stmt_grows q \<Longrightarrow> grows (query q)"
  unfolding grows_def stmt_grows_def query_def
  by (auto split: outcome.split prod.split sum.split) (metis snd_conv)+

subsection \<open>Atomicity\<close>

text \<open>
  \<open>strict m\<close>: a successful run of \<open>m\<close> met no connection failure, so it is the run without
  failures. Every function the store passes to \<open>withTx\<close> stops at the first error.
\<close>

definition strict :: "'a dbm \<Rightarrow> bool" where
  "strict m \<longleftrightarrow> (\<forall>s x s'. m s = (Inr x, s') \<longrightarrow>
     snow s' = snow s \<and> m (quiet (sdb s) (snow s)) = (Inr x, quiet (sdb s') (snow s)))"

lemma strict_ret [tx_rules]: "strict (ret x)"
  by (simp add: strict_def ret_def)

lemma strict_raise [tx_rules]: "strict (raise e)"
  by (simp add: strict_def raise_def)

lemma strict_query [tx_rules]: "strict (query q)"
  unfolding strict_def query_def
  by (auto simp: next_outcome_def consume_def split: outcome.splits prod.splits sum.splits list.splits)

lemma strict_map_err [tx_rules]: "strict m \<Longrightarrow> strict (map_err g m)"
  unfolding strict_def map_err_def by (fastforce split: prod.splits sum.splits)

lemma strict_bind [tx_rules]:
  assumes m: "strict m" and f: "\<And>x. strict (f x)"
  shows "strict (bind m f)"
  unfolding strict_def
proof (intro allI impI)
  fix s y s' assume "bind m f s = (Inr y, s')"
  then obtain x t where mx: "m s = (Inr x, t)" and fx: "f x t = (Inr y, s')"
    by (auto simp: bind_def split: prod.splits sum.splits)
  from m mx have t: "snow t = snow s" "m (quiet (sdb s) (snow s)) = (Inr x, quiet (sdb t) (snow s))"
    unfolding strict_def by blast+
  from f fx have "snow s' = snow t" "f x (quiet (sdb t) (snow t)) = (Inr y, quiet (sdb s') (snow t))"
    unfolding strict_def by blast+
  with t show "snow s' = snow s \<and>
      bind m f (quiet (sdb s) (snow s)) = (Inr y, quiet (sdb s') (snow s))"
    by (simp add: bind_def)
qed

text \<open>
  Whatever the connection does, a transaction leaves every table as it was (and reports an
  error), or has the effect and, unless the answer to the commit is lost, the result of the
  run without failures.
\<close>

definition tables_kept :: "db \<Rightarrow> db \<Rightarrow> bool" where
  "tables_kept d d' \<longleftrightarrow> seqs_le (seqs d) (seqs d') \<and> d' = rollback d d'"

lemma tables_kept_refl [simp]: "tables_kept d d"
  by (simp add: tables_kept_def)

lemma tables_kept_rollback: "seqs_le (seqs d) (seqs d') \<Longrightarrow> tables_kept d (rollback d d')"
  by (simp add: tables_kept_def rollback_def)

lemma tables_kept_simps:
  assumes "tables_kept d d'"
  shows "users d' = users d" "api_keys d' = api_keys d" "refresh_tokens d' = refresh_tokens d"
    "monitors d' = monitors d" "checkins d' = checkins d" "probe_results d' = probe_results d"
    "events d' = events d" "alerts d' = alerts d" "daily_stats d' = daily_stats d"
  using assms unfolding tables_kept_def by (metis rollback_simps)+

lemma withTx_atomic:
  assumes "strict fn" and "grows fn"
  shows "(\<exists>e. run_res (withTx fn) now os d = Inl e) \<and> tables_kept d (run_db (withTx fn) now os d) \<or>
    (\<exists>x. run_res (withTx fn) now [] d = Inr x \<and>
         run_db (withTx fn) now os d = run_db (withTx fn) now [] d \<and>
         (run_res (withTx fn) now os d = Inr x \<or> (\<exists>e. run_res (withTx fn) now os d = Inl e)))"
proof -
  define s where "s = \<lparr>sdb = d, snow = now, soutcomes = os\<rparr>"
  obtain r s' where fn: "fn (consume s) = (r, s')" by force
  have g: "seqs_le (seqs d) (seqs (sdb s'))"
    using assms(2) fn unfolding grows_def s_def
    by (metis consume_simps(1) sess.select_convs(1) snd_conv)
  show ?thesis
  proof (cases r)
    case (Inl e)
    then show ?thesis using fn g
      by (auto simp: run_res_def run_db_def withTx_def s_def tables_kept_rollback)
  next
    case (Inr x)
    with assms(1) fn have q: "fn (quiet d now) = (Inr x, quiet (sdb s') now)"
      unfolding strict_def s_def by force
    have "run_res (withTx fn) now [] d = Inr x" "run_db (withTx fn) now [] d = sdb s'"
      by (simp_all add: run_res_def run_db_def withTx_quiet [of fn d now, OF q])
    with Inr fn g show ?thesis
      by (auto simp: run_res_def run_db_def withTx_def s_def tables_kept_rollback split: outcome.split)
  qed
qed

lemma withTx_result:
  assumes "strict fn" and "run_res (withTx fn) now os d = Inr x"
  shows "run_res (withTx fn) now [] d = Inr x \<and> run_db (withTx fn) now os d = run_db (withTx fn) now [] d"
proof -
  obtain r s' where fn: "fn (consume \<lparr>sdb = d, snow = now, soutcomes = os\<rparr>) = (r, s')" by force
  with assms(2) have r: "r = Inr x" and o: "next_outcome s' = Succeeds"
    by (auto simp: run_res_def withTx_def split: if_splits sum.splits outcome.splits)
  with assms(1) fn have q: "fn (quiet d now) = (Inr x, quiet (sdb s') now)"
    unfolding strict_def by force
  have b: "next_outcome \<lparr>sdb = d, snow = now, soutcomes = os\<rparr> = Succeeds"
    using assms(2) by (auto simp: run_res_def withTx_def split: if_splits)
  have "run_res (withTx fn) now [] d = Inr x" "run_db (withTx fn) now [] d = sdb s'"
    by (simp_all add: run_res_def run_db_def withTx_quiet [of fn d now, OF q])
  with fn r o b show ?thesis by (simp add: run_db_def withTx_def)
qed

subsection \<open>Success triples\<close>

text \<open>
  \<open>succ P m Q\<close>: when \<open>m\<close> starts in a database satisfying \<open>P\<close> and succeeds with \<open>x\<close>, the
  resulting database satisfies \<open>Q x\<close>. Failing runs are not constrained, because \<open>withTx\<close>
  undoes them.
\<close>

definition succ :: "(db \<Rightarrow> bool) \<Rightarrow> 'a dbm \<Rightarrow> ('a \<Rightarrow> db \<Rightarrow> bool) \<Rightarrow> bool" where
  "succ P m Q \<longleftrightarrow> (\<forall>s x s'. P (sdb s) \<longrightarrow> m s = (Inr x, s') \<longrightarrow> Q x (sdb s'))"

definition stmt_succ :: "(db \<Rightarrow> bool) \<Rightarrow> 'a stmt \<Rightarrow> ('a \<Rightarrow> db \<Rightarrow> bool) \<Rightarrow> bool" where
  "stmt_succ P q Q \<longleftrightarrow> (\<forall>now d x d'. P d \<longrightarrow> q now d = (Inr x, d') \<longrightarrow> Q x d')"

lemma succ_ret: "(\<And>d. P d \<Longrightarrow> Q x d) \<Longrightarrow> succ P (ret x) Q"
  by (simp add: succ_def ret_def)

lemma succ_raise: "succ P (raise e) Q"
  by (simp add: succ_def raise_def)

lemma succ_bind: "succ P m R \<Longrightarrow> (\<And>x. succ (R x) (f x) Q) \<Longrightarrow> succ P (bind m f) Q"
  unfolding succ_def bind_def by (fastforce split: prod.splits sum.splits)

lemma succ_map_err: "succ P m Q \<Longrightarrow> succ P (map_err g m) Q"
  unfolding succ_def map_err_def by (fastforce split: prod.splits sum.splits)

lemma succ_query:
  assumes "stmt_succ P q Q" shows "succ P (query q) Q"
  unfolding succ_def query_def
proof (intro allI impI)
  fix s x s'
  assume "P (sdb s)"
    and "(case next_outcome s of
        Succeeds \<Rightarrow> (case q (snow s) (sdb s) of
           (Inl e, d) \<Rightarrow> (Inl (DbE e), (consume s)\<lparr>sdb := d\<rparr>)
         | (Inr x, d) \<Rightarrow> (Inr x, (consume s)\<lparr>sdb := d\<rparr>))
      | FailsBefore \<Rightarrow> (Inl (DbE ConnFailure), consume s)
      | FailsAfter \<Rightarrow> (Inl (DbE ConnFailure), (consume s)\<lparr>sdb := snd (q (snow s) (sdb s))\<rparr>)) = (Inr x, s')"
  with assms show "Q x (sdb s')"
    by (auto simp: stmt_succ_def split: outcome.splits prod.splits sum.splits)
qed

lemma succ_weaken: "succ P m Q \<Longrightarrow> (\<And>d. P' d \<Longrightarrow> P d) \<Longrightarrow> (\<And>x d. Q x d \<Longrightarrow> Q' x d) \<Longrightarrow> succ P' m Q'"
  unfolding succ_def by blast

text \<open>
  An invariant that survives a rollback and the successful body of a transaction survives the
  transaction, whatever the connection does.
\<close>

definition rollback_stable :: "(db \<Rightarrow> bool) \<Rightarrow> bool" where
  "rollback_stable I \<longleftrightarrow> (\<forall>d d'. I d \<longrightarrow> tables_kept d d' \<longrightarrow> I d')"

definition keeps :: "(db \<Rightarrow> bool) \<Rightarrow> 'a dbm \<Rightarrow> bool" where
  "keeps I m \<longleftrightarrow> (\<forall>now os d. I d \<longrightarrow> I (run_db m now os d))"

lemma keeps_withTx:
  assumes "rollback_stable I" and "strict fn" and "grows fn" and "succ I fn (\<lambda>_. I)"
  shows "keeps I (withTx fn)"
  unfolding keeps_def
proof (intro allI impI)
  fix now os d assume I: "I d"
  consider (kept) "tables_kept d (run_db (withTx fn) now os d)"
    | (ran) x where "run_res (withTx fn) now [] d = Inr x"
        "run_db (withTx fn) now os d = run_db (withTx fn) now [] d"
    using withTx_atomic [OF assms(2,3), of now os d] by blast
  then show "I (run_db (withTx fn) now os d)"
  proof cases
    case kept
    with assms(1) I show ?thesis by (auto simp: rollback_stable_def)
  next
    case (ran x)
    note x = ran(1) and eq = ran(2)
    obtain r s' where fn: "fn (quiet d now) = (r, s')" by force
    with x have r: "r = Inr x"
      by (auto simp: run_res_def withTx_def split: sum.splits outcome.splits)
    moreover from assms(2) fn r have "s' = quiet (sdb s') now"
      unfolding strict_def by fastforce
    ultimately have "fn (quiet d now) = (Inr x, quiet (sdb s') now)"
      using fn by simp
    then have "run_db (withTx fn) now [] d = sdb s'"
      by (simp add: run_db_def withTx_quiet [of fn d now])
    moreover from assms(4) fn r I have "I (sdb s')"
      unfolding succ_def by (metis sess.select_convs(1))
    ultimately show ?thesis using eq by simp
  qed
qed

end
