(* ===== verification/Monitor_Queries.thy ===== *)
theory Monitor_Queries
  imports Database "HOL-Library.Product_Lexorder"
begin

text \<open>
  The statements of src/backend/db/monitors.sql.go on the monitors table, with the CHECK,
  UNIQUE and foreign-key constraints of src/backend/db/migrations. A statement that would
  store a row outside its constraints or its column type fails and changes nothing. ORDER BY
  ties keep the table order. A generated UUID is an argument of the statement that draws it.
\<close>

section \<open>The shape of statements\<close>

text \<open>A SELECT does not change the database; \<open>first_row\<close> is \<^verbatim>\<open>QueryRow\<close>'s answer.\<close>

definition reading :: "(db \<Rightarrow> dberr + 'a) \<Rightarrow> 'a stmt" where
  "reading f now d = (f d, d)"

definition first_row :: "'r list \<Rightarrow> dberr + 'r" where
  "first_row rows = (case rows of [] \<Rightarrow> Inl NoRows | r # _ \<Rightarrow> Inr r)"

definition sql_limit :: "int \<Rightarrow> 'r list \<Rightarrow> dberr + 'r list" where
  "sql_limit n rows = (if n < 0 then Inl NegativeLimit else Inr (take (nat n) rows))"

definition sql_one :: "'r list stmt \<Rightarrow> 'r stmt" where
  "sql_one q now d = (case q now d of
      (Inl e, d') \<Rightarrow> (Inl e, d')
    | (Inr rows, d') \<Rightarrow> (first_row rows, d'))"

definition sql_exec :: "'r list stmt \<Rightarrow> unit stmt" where
  "sql_exec q now d = (case q now d of (Inl e, d') \<Rightarrow> (Inl e, d') | (Inr _, d') \<Rightarrow> (Inr (), d'))"

text \<open>
  \<open>sql_like\<close> matches a LIKE pattern: \<^verbatim>\<open>%\<close> stands for any run of characters, \<^verbatim>\<open>_\<close> for
  one, a backslash quotes the next character. ILIKE folds the case of both sides first
  (ASCII letters; the folding of other characters depends on the server's collation).
\<close>

definition lower_char :: "char \<Rightarrow> char" where
  "lower_char c = (if byte c \<ge> 65 \<and> byte c \<le> 90 then char_of (byte c + 32) else c)"

fun sql_like :: "string \<Rightarrow> string \<Rightarrow> bool" where
  "sql_like [] s \<longleftrightarrow> s = []"
| "sql_like (p # ps) s \<longleftrightarrow>
    (if p = CHR ''%'' then sql_like ps s \<or> (case s of [] \<Rightarrow> False | _ # t \<Rightarrow> sql_like (p # ps) t)
     else if p = CHR ''_'' then (case s of [] \<Rightarrow> False | _ # t \<Rightarrow> sql_like ps t)
     else if p = CHR 0x5C then
       (case ps of [] \<Rightarrow> False
        | q # qs \<Rightarrow> (case s of [] \<Rightarrow> False | c # t \<Rightarrow> c = q \<and> sql_like qs t))
     else (case s of [] \<Rightarrow> False | c # t \<Rightarrow> c = p \<and> sql_like ps t))"

definition sql_ilike :: "string \<Rightarrow> string \<Rightarrow> bool" where
  "sql_ilike s pat = sql_like (map lower_char pat) (map lower_char s)"

section \<open>Constraints of the monitors table\<close>

definition monitor_checks :: "monitor_row \<Rightarrow> bool" where
  "monitor_checks m \<longleftrightarrow>
     m_kind m \<in> {''heartbeat'', ''http''} \<and>
     m_state m \<in> {''new'', ''up'', ''late'', ''down''} \<and>
     m_schedule_kind m \<in> {None, Some ''period'', Some ''cron''} \<and>
     m_method m \<in> {None, Some ''GET'', Some ''POST'', Some ''HEAD''}"

definition update_monitors ::
  "(monitor_row \<Rightarrow> bool) \<Rightarrow> (monitor_row \<Rightarrow> monitor_row) \<Rightarrow> monitor_row list stmt" where
  "update_monitors sel f now d =
    (let new = map f (filter sel (monitors d)) in
     if \<not> list_all (\<lambda>m. int32_range (m_fail_streak m)) new then (Inl NumericOutOfRange, d)
     else if \<not> list_all monitor_checks new then (Inl CheckViolation, d)
     else (Inr new, d\<lparr>monitors := update_where sel f (monitors d)\<rparr>))"

section \<open>Worker scans\<close>

text \<open>
  FOR UPDATE SKIP LOCKED passes over the rows other transactions hold (\<open>locked\<close>), then takes
  the first \<open>limit\<close> of the others.
\<close>

definition q_ClaimDueMonitors :: "(uuid \<Rightarrow> bool) \<Rightarrow> gotime \<Rightarrow> int \<Rightarrow> monitor_row list stmt" where
  "q_ClaimDueMonitors locked t limit = reading (\<lambda>d. sql_limit limit
    (filter (\<lambda>m. \<not> locked (m_id m))
      (sort_key (\<lambda>m. the (m_next_deadline m))
        (filter (\<lambda>m. null_less (m_next_deadline m) t \<and> m_state m \<in> {''up'', ''late''} \<and>
                      m_paused_at m = None)
          (monitors d)))))"

definition q_ClaimDueProbes :: "(uuid \<Rightarrow> bool) \<Rightarrow> gotime \<Rightarrow> int \<Rightarrow> monitor_row list stmt" where
  "q_ClaimDueProbes locked t limit = reading (\<lambda>d. sql_limit limit
    (filter (\<lambda>m. \<not> locked (m_id m))
      (sort_key (\<lambda>m. the (m_next_probe_at m))
        (filter (\<lambda>m. null_less (m_next_probe_at m) t \<and> m_kind m = ''http'' \<and> m_paused_at m = None)
          (monitors d)))))"

section \<open>Creating, reading and deleting\<close>

record CreateMonitorParams =
  cm_user_id :: uuid
  cm_kind :: string
  cm_slug :: string
  cm_name :: string
  cm_schedule_kind :: "string option"
  cm_period_s :: "int option"
  cm_cron_expr :: "string option"
  cm_tz :: string
  cm_grace_s :: "int option"
  cm_url :: "string option"
  cm_method :: "string option"
  cm_interval_s :: "int option"
  cm_timeout_s :: "int option"
  cm_fail_threshold :: "int option"
  cm_http_config :: "string option"
  cm_auto_resume :: "bool option"

definition new_monitor :: "uuid \<Rightarrow> CreateMonitorParams \<Rightarrow> gotime \<Rightarrow> monitor_row" where
  "new_monitor new_id p now =
    \<lparr>m_id = new_id, m_user_id = cm_user_id p, m_kind = cm_kind p, m_slug = cm_slug p,
     m_name = cm_name p, m_schedule_kind = cm_schedule_kind p, m_period_s = cm_period_s p,
     m_cron_expr = cm_cron_expr p, m_tz = (if cm_tz p = '''' then ''UTC'' else cm_tz p),
     m_grace_s = cm_grace_s p, m_url = cm_url p, m_method = cm_method p,
     m_interval_s = cm_interval_s p, m_timeout_s = cm_timeout_s p,
     m_fail_threshold = cm_fail_threshold p, m_http_config = coalesce_nn (cm_http_config p) ''{}'',
     m_state = ''new'', m_fail_streak = 0, m_last_checkin_at = None, m_next_deadline = None,
     m_next_probe_at = (if cm_kind p = ''http'' then Some now else None), m_alerts_muted = False,
     m_paused_at = None, m_created_at = now, m_updated_at = now,
     m_auto_resume = coalesce_nn (cm_auto_resume p) True, m_reminder_every_s = 86400,
     m_tls_warned_expires_at = None\<rparr>"

definition q_CreateMonitor :: "uuid \<Rightarrow> CreateMonitorParams \<Rightarrow> monitor_row stmt" where
  "q_CreateMonitor new_id p now d =
    (let m = new_monitor new_id p now in
     if \<not> monitor_checks m then (Inl CheckViolation, d)
     else if new_id \<in> m_id ` set (monitors d) \<or> cm_slug p \<in> m_slug ` set (monitors d)
       then (Inl UniqueViolation, d)
     else if cm_user_id p \<notin> u_id ` set (users d) then (Inl ForeignKeyViolation, d)
     else (Inr m, d\<lparr>monitors := monitors d @ [m]\<rparr>))"

text \<open>ON DELETE CASCADE removes every row that refers to the monitor.\<close>

definition cascade_monitor :: "uuid \<Rightarrow> db \<Rightarrow> db" where
  "cascade_monitor i d = d\<lparr>
     monitors := filter (\<lambda>m. m_id m \<noteq> i) (monitors d),
     checkins := filter (\<lambda>c. c_monitor_id c \<noteq> i) (checkins d),
     probe_results := filter (\<lambda>p. p_monitor_id p \<noteq> i) (probe_results d),
     alerts := filter (\<lambda>a. a_monitor_id a \<noteq> i \<and>
        a_event_id a \<notin> e_id ` set (filter (\<lambda>e. e_monitor_id e = i) (events d))) (alerts d),
     events := filter (\<lambda>e. e_monitor_id e \<noteq> i) (events d),
     daily_stats := filter (\<lambda>s. d_monitor_id s \<noteq> i) (daily_stats d)\<rparr>"

definition q_DeleteMonitor :: "uuid \<Rightarrow> uuid \<Rightarrow> int stmt" where
  "q_DeleteMonitor i user now d =
    (let hit = filter (\<lambda>m. m_id m = i \<and> m_user_id m = user) (monitors d) in
     (Inr (int (length hit)), if hit = [] then d else cascade_monitor i d))"

definition q_GetMonitorByID :: "uuid \<Rightarrow> monitor_row stmt" where
  "q_GetMonitorByID i = reading (\<lambda>d. first_row (filter (\<lambda>m. m_id m = i) (monitors d)))"

definition q_GetMonitorBySlug :: "string \<Rightarrow> monitor_row stmt" where
  "q_GetMonitorBySlug slug = reading (\<lambda>d. first_row (filter (\<lambda>m. m_slug m = slug) (monitors d)))"

definition q_GetMonitorBySlugForUpdate :: "string \<Rightarrow> monitor_row stmt" where
  "q_GetMonitorBySlugForUpdate slug =
    reading (\<lambda>d. first_row (filter (\<lambda>m. m_slug m = slug) (monitors d)))"

definition q_ListMonitorsByUser :: "uuid \<Rightarrow> monitor_row list stmt" where
  "q_ListMonitorsByUser user = reading (\<lambda>d. Inr
    (sort_key (\<lambda>m. - m_created_at m) (filter (\<lambda>m. m_user_id m = user) (monitors d))))"

record ListMonitorsByUserPageParams =
  lm_user_id :: uuid
  lm_cursor_created_at :: "gotime option"
  lm_cursor_id :: "uuid option"
  lm_search :: "string option"
  lm_kind :: "string option"
  lm_display_state :: "string option"
  lm_page_limit :: int

definition before_cursor :: "gotime option \<Rightarrow> uuid option \<Rightarrow> monitor_row \<Rightarrow> bool" where
  "before_cursor ct ci m = (case ct of None \<Rightarrow> True | Some t \<Rightarrow>
     m_created_at m < t \<or>
     (m_created_at m = t \<and> (case ci of None \<Rightarrow> False | Some i \<Rightarrow> m_id m < i)))"

definition page_filter :: "ListMonitorsByUserPageParams \<Rightarrow> monitor_row \<Rightarrow> bool" where
  "page_filter p m \<longleftrightarrow>
     m_user_id m = lm_user_id p \<and>
     before_cursor (lm_cursor_created_at p) (lm_cursor_id p) m \<and>
     (case lm_search p of None \<Rightarrow> True
      | Some s \<Rightarrow> sql_ilike (m_name m) (''%'' @ s @ ''%'') \<or> sql_ilike (m_slug m) (''%'' @ s @ ''%'')) \<and>
     (case lm_kind p of None \<Rightarrow> True | Some k \<Rightarrow> m_kind m = k) \<and>
     (case lm_display_state p of None \<Rightarrow> True
      | Some st \<Rightarrow> (st = ''paused'' \<and> m_paused_at m \<noteq> None) \<or>
                   (st \<noteq> ''paused'' \<and> m_paused_at m = None \<and> m_state m = st))"

definition q_ListMonitorsByUserPage :: "ListMonitorsByUserPageParams \<Rightarrow> monitor_row list stmt" where
  "q_ListMonitorsByUserPage p = reading (\<lambda>d. sql_limit (lm_page_limit p)
    (sort_key (\<lambda>m. (- m_created_at m, - int (m_id m))) (filter (page_filter p) (monitors d))))"

section \<open>Updates\<close>

definition q_MarkMonitorDown :: "uuid \<Rightarrow> unit stmt" where
  "q_MarkMonitorDown i now = sql_exec (update_monitors (\<lambda>m. m_id m = i)
    (\<lambda>m. m\<lparr>m_state := ''down'', m_next_deadline := None, m_fail_streak := m_fail_streak m + 1,
           m_updated_at := now\<rparr>)) now"

definition q_MarkMonitorLate :: "gotime option \<Rightarrow> uuid \<Rightarrow> unit stmt" where
  "q_MarkMonitorLate dl i now = sql_exec (update_monitors (\<lambda>m. m_id m = i)
    (\<lambda>m. m\<lparr>m_state := ''late'', m_next_deadline := dl, m_updated_at := now\<rparr>)) now"

definition q_MuteMonitor :: "uuid \<Rightarrow> uuid \<Rightarrow> monitor_row stmt" where
  "q_MuteMonitor i user now = sql_one (update_monitors (\<lambda>m. m_id m = i \<and> m_user_id m = user)
    (\<lambda>m. m\<lparr>m_alerts_muted := True, m_updated_at := now\<rparr>)) now"

definition q_PauseMonitor :: "uuid \<Rightarrow> uuid \<Rightarrow> monitor_row stmt" where
  "q_PauseMonitor i user now = sql_one (update_monitors (\<lambda>m. m_id m = i \<and> m_user_id m = user)
    (\<lambda>m. m\<lparr>m_paused_at := Some now, m_updated_at := now\<rparr>)) now"

definition q_ResumeMonitor :: "gotime option \<Rightarrow> uuid \<Rightarrow> uuid \<Rightarrow> monitor_row stmt" where
  "q_ResumeMonitor dl i user now = sql_one (update_monitors (\<lambda>m. m_id m = i \<and> m_user_id m = user)
    (\<lambda>m. m\<lparr>m_paused_at := None, m_state := ''up'', m_next_deadline := dl, m_updated_at := now\<rparr>)) now"

definition q_UnmuteMonitor :: "uuid \<Rightarrow> uuid \<Rightarrow> monitor_row stmt" where
  "q_UnmuteMonitor i user now = sql_one (update_monitors (\<lambda>m. m_id m = i \<and> m_user_id m = user)
    (\<lambda>m. m\<lparr>m_alerts_muted := False, m_updated_at := now\<rparr>)) now"

record UpdateMonitorParams =
  um_name :: "string option"
  um_schedule_kind :: "string option"
  um_period_s :: "int option"
  um_cron_expr :: "string option"
  um_tz :: "string option"
  um_grace_s :: "int option"
  um_url :: "string option"
  um_method :: "string option"
  um_interval_s :: "int option"
  um_timeout_s :: "int option"
  um_fail_threshold :: "int option"
  um_http_config :: "string option"
  um_auto_resume :: "bool option"

definition apply_update :: "UpdateMonitorParams \<Rightarrow> gotime \<Rightarrow> monitor_row \<Rightarrow> monitor_row" where
  "apply_update p now m = m\<lparr>
     m_name := coalesce_nn (um_name p) (m_name m),
     m_schedule_kind := coalesce (um_schedule_kind p) (m_schedule_kind m),
     m_period_s := coalesce (um_period_s p) (m_period_s m),
     m_cron_expr := coalesce (um_cron_expr p) (m_cron_expr m),
     m_tz := coalesce_nn (um_tz p) (m_tz m),
     m_grace_s := coalesce (um_grace_s p) (m_grace_s m),
     m_url := coalesce (um_url p) (m_url m),
     m_method := coalesce (um_method p) (m_method m),
     m_interval_s := coalesce (um_interval_s p) (m_interval_s m),
     m_timeout_s := coalesce (um_timeout_s p) (m_timeout_s m),
     m_fail_threshold := coalesce (um_fail_threshold p) (m_fail_threshold m),
     m_http_config := coalesce_nn (um_http_config p) (m_http_config m),
     m_auto_resume := coalesce_nn (um_auto_resume p) (m_auto_resume m),
     m_updated_at := now\<rparr>"

definition q_UpdateMonitor :: "UpdateMonitorParams \<Rightarrow> uuid \<Rightarrow> uuid \<Rightarrow> monitor_row stmt" where
  "q_UpdateMonitor p i user now = sql_one (update_monitors (\<lambda>m. m_id m = i \<and> m_user_id m = user)
    (apply_update p now)) now"

definition q_UpdateMonitorOnCheckin ::
  "string \<Rightarrow> gotime option \<Rightarrow> gotime option \<Rightarrow> int \<Rightarrow> uuid \<Rightarrow> unit stmt" where
  "q_UpdateMonitorOnCheckin st seen dl streak i now = sql_exec (update_monitors (\<lambda>m. m_id m = i)
    (\<lambda>m. m\<lparr>m_state := st, m_last_checkin_at := seen, m_next_deadline := dl,
           m_fail_streak := streak, m_paused_at := (if m_auto_resume m then None else m_paused_at m),
           m_updated_at := now\<rparr>)) now"

end
