(* ===== verification/Log_Queries.thy ===== *)
theory Log_Queries
  imports Monitor_Queries
begin

text \<open>
  The statements on the append-mostly tables: checkins (src/backend/db/checkins.sql.go),
  probe results with the two monitor updates of the prober
  (src/backend/db/probe_results.sql.go), timeline events (src/backend/db/events.sql.go) and
  the alert outbox (src/backend/db/alerts.sql.go). The id of an inserted row comes from the
  table's sequence, which advances even when the insert is refused.
\<close>

section \<open>Sequences\<close>

definition bump_checkins :: "db \<Rightarrow> db" where
  "bump_checkins d = d\<lparr>seqs := (seqs d)\<lparr>seq_checkins := seq_checkins (seqs d) + 1\<rparr>\<rparr>"

definition bump_probe_results :: "db \<Rightarrow> db" where
  "bump_probe_results d = d\<lparr>seqs := (seqs d)\<lparr>seq_probe_results := seq_probe_results (seqs d) + 1\<rparr>\<rparr>"

definition bump_events :: "db \<Rightarrow> db" where
  "bump_events d = d\<lparr>seqs := (seqs d)\<lparr>seq_events := seq_events (seqs d) + 1\<rparr>\<rparr>"

definition bump_alerts :: "db \<Rightarrow> db" where
  "bump_alerts d = d\<lparr>seqs := (seqs d)\<lparr>seq_alerts := seq_alerts (seqs d) + 1\<rparr>\<rparr>"

lemmas bump_defs = bump_checkins_def bump_probe_results_def bump_events_def bump_alerts_def

definition has_monitor :: "db \<Rightarrow> uuid \<Rightarrow> bool" where
  "has_monitor d i \<longleftrightarrow> i \<in> m_id ` set (monitors d)"

definition has_event :: "db \<Rightarrow> int \<Rightarrow> bool" where
  "has_event d i \<longleftrightarrow> i \<in> e_id ` set (events d)"

section \<open>Check-ins\<close>

definition q_InsertCheckin ::
  "uuid \<Rightarrow> string \<Rightarrow> string option \<Rightarrow> string option \<Rightarrow> string option \<Rightarrow> checkin_row stmt" where
  "q_InsertCheckin mid kind ip ua body now d =
    (let c = \<lparr>c_id = seq_checkins (seqs d), c_monitor_id = mid, c_kind = kind, c_source_ip = ip,
              c_user_agent = ua, c_body = body, c_created_at = now\<rparr>;
         d' = bump_checkins d in
     if kind \<notin> {''success'', ''start'', ''fail''} then (Inl CheckViolation, d')
     else if \<not> has_monitor d mid then (Inl ForeignKeyViolation, d')
     else (Inr c, d'\<lparr>checkins := checkins d @ [c]\<rparr>))"

text \<open>
  The rows a batched DELETE removes: \<open>batch\<close> is the subquery with its LIMIT. The subquery has
  no ORDER BY; the model takes the oldest rows of the table, and no lemma below uses which
  ones they are.
\<close>

definition batch :: "int \<Rightarrow> ('r \<Rightarrow> bool) \<Rightarrow> 'r list \<Rightarrow> 'r list" where
  "batch limit p rows = take (nat limit) (filter p rows)"

definition q_DeleteOldCheckinsBatch :: "gotime \<Rightarrow> int \<Rightarrow> int stmt" where
  "q_DeleteOldCheckinsBatch cutoff limit now d =
    (if limit < 0 then (Inl NegativeLimit, d)
     else let ids = c_id ` set (batch limit (\<lambda>c. c_created_at c < cutoff) (checkins d)) in
       (Inr (int (length (filter (\<lambda>c. c_id c \<in> ids) (checkins d)))),
        d\<lparr>checkins := filter (\<lambda>c. c_id c \<notin> ids) (checkins d)\<rparr>))"

definition id_before :: "int option \<Rightarrow> int \<Rightarrow> bool" where
  "id_before cursor i = (case cursor of None \<Rightarrow> True | Some c \<Rightarrow> i < c)"

definition q_ListCheckinsByMonitorPage :: "uuid \<Rightarrow> int option \<Rightarrow> int \<Rightarrow> checkin_row list stmt" where
  "q_ListCheckinsByMonitorPage mid cursor limit = reading (\<lambda>d. sql_limit limit
    (sort_key (\<lambda>c. - c_id c)
      (filter (\<lambda>c. c_monitor_id c = mid \<and> id_before cursor (c_id c)) (checkins d))))"

section \<open>Probe results\<close>

definition q_InsertProbeResult ::
  "uuid \<Rightarrow> bool \<Rightarrow> int option \<Rightarrow> int option \<Rightarrow> string option \<Rightarrow> gotime option \<Rightarrow> probe_result_row stmt"
where
  "q_InsertProbeResult mid ok status latency err tls now d =
    (let p = \<lparr>p_id = seq_probe_results (seqs d), p_monitor_id = mid, p_ok = ok,
              p_http_status = status, p_latency_ms = latency, p_error = err,
              p_tls_expires_at = tls, p_created_at = now\<rparr>;
         d' = bump_probe_results d in
     if \<not> has_monitor d mid then (Inl ForeignKeyViolation, d')
     else (Inr p, d'\<lparr>probe_results := probe_results d @ [p]\<rparr>))"

definition q_DeleteOldProbeResultsBatch :: "gotime \<Rightarrow> int \<Rightarrow> int stmt" where
  "q_DeleteOldProbeResultsBatch cutoff limit now d =
    (if limit < 0 then (Inl NegativeLimit, d)
     else let ids = p_id ` set (batch limit (\<lambda>p. p_created_at p < cutoff) (probe_results d)) in
       (Inr (int (length (filter (\<lambda>p. p_id p \<in> ids) (probe_results d)))),
        d\<lparr>probe_results := filter (\<lambda>p. p_id p \<notin> ids) (probe_results d)\<rparr>))"

definition q_ListProbeResultsByMonitor ::
  "uuid \<Rightarrow> bool option \<Rightarrow> int option \<Rightarrow> int \<Rightarrow> probe_result_row list stmt" where
  "q_ListProbeResultsByMonitor mid ok cursor limit = reading (\<lambda>d. sql_limit limit
    (sort_key (\<lambda>p. - p_id p)
      (filter (\<lambda>p. p_monitor_id p = mid \<and> (case ok of None \<Rightarrow> True | Some b \<Rightarrow> p_ok p = b) \<and>
                    id_before cursor (p_id p)) (probe_results d))))"

definition q_SetTLSWarnedExpiry :: "gotime option \<Rightarrow> uuid \<Rightarrow> unit stmt" where
  "q_SetTLSWarnedExpiry t i now = sql_exec (update_monitors (\<lambda>m. m_id m = i)
    (\<lambda>m. m\<lparr>m_tls_warned_expires_at := t\<rparr>)) now"

definition q_UpdateMonitorOnProbe :: "string \<Rightarrow> int \<Rightarrow> gotime option \<Rightarrow> uuid \<Rightarrow> unit stmt" where
  "q_UpdateMonitorOnProbe st streak probe_at i now = sql_exec (update_monitors (\<lambda>m. m_id m = i)
    (\<lambda>m. m\<lparr>m_state := st, m_fail_streak := streak, m_next_probe_at := probe_at,
           m_updated_at := now\<rparr>)) now"

section \<open>Events\<close>

definition q_InsertEvent ::
  "uuid \<Rightarrow> string \<Rightarrow> string \<Rightarrow> event_meta option \<Rightarrow> event_row stmt" where
  "q_InsertEvent mid type msg meta now d =
    (let e = \<lparr>e_id = seq_events (seqs d), e_monitor_id = mid, e_type = type, e_message = msg,
              e_meta = coalesce_nn meta MetaEmpty, e_created_at = now\<rparr>;
         d' = bump_events d in
     if \<not> has_monitor d mid then (Inl ForeignKeyViolation, d')
     else (Inr e, d'\<lparr>events := events d @ [e]\<rparr>))"

definition event_pending :: "db \<Rightarrow> event_row \<Rightarrow> bool" where
  "event_pending d e \<longleftrightarrow> list_ex (\<lambda>a. a_event_id a = e_id e \<and> a_status a = ''pending'') (alerts d)"

text \<open>Deleting an event cascades to its outbox rows.\<close>

definition q_DeleteOldEventsBatch :: "gotime \<Rightarrow> int \<Rightarrow> int stmt" where
  "q_DeleteOldEventsBatch cutoff limit now d =
    (if limit < 0 then (Inl NegativeLimit, d)
     else let ids = e_id ` set (batch limit
                (\<lambda>e. e_created_at e < cutoff \<and> \<not> event_pending d e) (events d)) in
       (Inr (int (length (filter (\<lambda>e. e_id e \<in> ids) (events d)))),
        d\<lparr>events := filter (\<lambda>e. e_id e \<notin> ids) (events d),
          alerts := filter (\<lambda>a. a_event_id a \<notin> ids) (alerts d)\<rparr>))"

definition q_ListEventsByMonitorPage ::
  "uuid \<Rightarrow> string option \<Rightarrow> int option \<Rightarrow> int \<Rightarrow> event_row list stmt" where
  "q_ListEventsByMonitorPage mid type cursor limit = reading (\<lambda>d. sql_limit limit
    (sort_key (\<lambda>e. - e_id e)
      (filter (\<lambda>e. e_monitor_id e = mid \<and> (case type of None \<Rightarrow> True | Some t \<Rightarrow> e_type e = t) \<and>
                    id_before cursor (e_id e)) (events d))))"

definition owned_by :: "db \<Rightarrow> uuid \<Rightarrow> uuid \<Rightarrow> bool" where
  "owned_by d user mid \<longleftrightarrow> list_ex (\<lambda>m. m_id m = mid \<and> m_user_id m = user) (monitors d)"

definition q_ListEventsByUserPage ::
  "uuid \<Rightarrow> uuid option \<Rightarrow> string option \<Rightarrow> int option \<Rightarrow> int \<Rightarrow> event_row list stmt" where
  "q_ListEventsByUserPage user mid type cursor limit = reading (\<lambda>d. sql_limit limit
    (sort_key (\<lambda>e. - e_id e)
      (filter (\<lambda>e. owned_by d user (e_monitor_id e) \<and>
                    (case mid of None \<Rightarrow> True | Some i \<Rightarrow> e_monitor_id e = i) \<and>
                    (case type of None \<Rightarrow> True | Some t \<Rightarrow> e_type e = t) \<and>
                    id_before cursor (e_id e)) (events d))))"

section \<open>The alert outbox\<close>

definition new_alert :: "int \<Rightarrow> uuid \<Rightarrow> int \<Rightarrow> string \<Rightarrow> bool \<Rightarrow> gotime \<Rightarrow> alert_row" where
  "new_alert i mid ev channel reminder now =
    \<lparr>a_id = i, a_monitor_id = mid, a_event_id = ev, a_channel = channel, a_status = ''pending'',
     a_attempts = 0, a_next_attempt_at = now, a_sent_at = None, a_created_at = now,
     a_is_reminder = reminder\<rparr>"

definition q_InsertAlert :: "uuid \<Rightarrow> int \<Rightarrow> string \<Rightarrow> alert_row stmt" where
  "q_InsertAlert mid ev channel now d =
    (let a = new_alert (seq_alerts (seqs d)) mid ev channel False now; d' = bump_alerts d in
     if \<not> has_monitor d mid \<or> \<not> has_event d ev then (Inl ForeignKeyViolation, d')
     else (Inr a, d'\<lparr>alerts := alerts d @ [a]\<rparr>))"

record ClaimDueAlertsRow =
  ca_ID :: int
  ca_MonitorID :: uuid
  ca_EventID :: int
  ca_Channel :: string
  ca_Status :: string
  ca_Attempts :: int
  ca_NextAttemptAt :: gotime
  ca_SentAt :: "gotime option"
  ca_CreatedAt :: gotime
  ca_IsReminder :: bool
  ca_Recipient :: string
  ca_MonitorName :: string
  ca_MonitorSlug :: string
  ca_MonitorState :: string
  ca_AlertsMuted :: bool
  ca_EventType :: string
  ca_EventMessage :: string
  ca_EventCreatedAt :: gotime
  ca_EventMeta :: event_meta

text \<open>The three inner joins of the claim: an alert without a partner row drops out.\<close>

definition join_alert :: "db \<Rightarrow> alert_row \<Rightarrow> ClaimDueAlertsRow option" where
  "join_alert d a =
    (case the_row (\<lambda>m. m_id m = a_monitor_id a) (monitors d) of None \<Rightarrow> None
     | Some m \<Rightarrow> (case the_row (\<lambda>u. u_id u = m_user_id m) (users d) of None \<Rightarrow> None
     | Some u \<Rightarrow> (case the_row (\<lambda>e. e_id e = a_event_id a) (events d) of None \<Rightarrow> None
     | Some e \<Rightarrow> Some
        \<lparr>ca_ID = a_id a, ca_MonitorID = a_monitor_id a, ca_EventID = a_event_id a,
         ca_Channel = a_channel a, ca_Status = a_status a, ca_Attempts = a_attempts a,
         ca_NextAttemptAt = a_next_attempt_at a, ca_SentAt = a_sent_at a,
         ca_CreatedAt = a_created_at a, ca_IsReminder = a_is_reminder a,
         ca_Recipient = u_email u, ca_MonitorName = m_name m, ca_MonitorSlug = m_slug m,
         ca_MonitorState = m_state m, ca_AlertsMuted = m_alerts_muted m, ca_EventType = e_type e,
         ca_EventMessage = e_message e, ca_EventCreatedAt = e_created_at e,
         ca_EventMeta = e_meta e\<rparr>)))"

definition q_ClaimDueAlerts :: "(int \<Rightarrow> bool) \<Rightarrow> gotime \<Rightarrow> int \<Rightarrow> ClaimDueAlertsRow list stmt" where
  "q_ClaimDueAlerts locked t limit = reading (\<lambda>d. sql_limit limit
    (List.map_filter (join_alert d)
      (filter (\<lambda>a. \<not> locked (a_id a))
        (sort_key a_next_attempt_at
          (filter (\<lambda>a. a_status a = ''pending'' \<and> a_next_attempt_at a < t) (alerts d))))))"

text \<open>The lateral join of the reminder query: the monitor's latest down event.\<close>

definition latest_down :: "db \<Rightarrow> uuid \<Rightarrow> gotime option \<Rightarrow> event_row option" where
  "latest_down d mid before =
    (case sort_key (\<lambda>e. - e_created_at e)
       (filter (\<lambda>e. e_monitor_id e = mid \<and> e_type e = ''down'' \<and>
                     (case before of None \<Rightarrow> True | Some t \<Rightarrow> e_created_at e \<le> t)) (events d)) of
       [] \<Rightarrow> None | e # _ \<Rightarrow> Some e)"

definition reminder_due :: "db \<Rightarrow> gotime \<Rightarrow> monitor_row \<Rightarrow> bool" where
  "reminder_due d t m \<longleftrightarrow>
     m_state m = ''down'' \<and> \<not> m_alerts_muted m \<and> m_reminder_every_s m > 0 \<and>
     \<not> list_ex (\<lambda>a. a_monitor_id a = m_id m \<and>
                    a_created_at a > t - m_reminder_every_s m * Second) (alerts d)"

definition reminder_source :: "db \<Rightarrow> gotime \<Rightarrow> monitor_row \<Rightarrow> (uuid \<times> int) option" where
  "reminder_source d t m = (if reminder_due d t m
     then map_option (\<lambda>e. (m_id m, e_id e)) (latest_down d (m_id m) None) else None)"

fun number_reminders :: "gotime \<Rightarrow> int \<Rightarrow> (uuid \<times> int) list \<Rightarrow> alert_row list" where
  "number_reminders now i [] = []"
| "number_reminders now i ((mid, ev) # rest) =
     new_alert i mid ev ''default'' True now # number_reminders now (i + 1) rest"

definition q_EnqueueDownReminders :: "gotime \<Rightarrow> alert_row list stmt" where
  "q_EnqueueDownReminders t now d =
    (let rows = number_reminders now (seq_alerts (seqs d))
                  (List.map_filter (reminder_source d t) (monitors d)) in
     (Inr rows, d\<lparr>alerts := alerts d @ rows,
        seqs := (seqs d)\<lparr>seq_alerts := seq_alerts (seqs d) + int (length rows)\<rparr>\<rparr>))"

definition q_LatestDownEventBefore :: "uuid \<Rightarrow> gotime \<Rightarrow> event_row stmt" where
  "q_LatestDownEventBefore mid before = reading (\<lambda>d.
     case latest_down d mid (Some before) of None \<Rightarrow> Inl NoRows | Some e \<Rightarrow> Inr e)"

definition update_alerts :: "(alert_row \<Rightarrow> bool) \<Rightarrow> (alert_row \<Rightarrow> alert_row) \<Rightarrow> unit stmt" where
  "update_alerts sel f now d =
    (if \<not> list_all (\<lambda>a. int32_range (a_attempts (f a))) (filter sel (alerts d))
     then (Inl NumericOutOfRange, d)
     else (Inr (), d\<lparr>alerts := update_where sel f (alerts d)\<rparr>))"

definition q_MarkAlertFailed :: "int \<Rightarrow> unit stmt" where
  "q_MarkAlertFailed i = update_alerts (\<lambda>a. a_id a = i)
     (\<lambda>a. a\<lparr>a_status := ''failed'', a_attempts := a_attempts a + 1\<rparr>)"

definition q_MarkAlertSent :: "int \<Rightarrow> unit stmt" where
  "q_MarkAlertSent i now = update_alerts (\<lambda>a. a_id a = i)
     (\<lambda>a. a\<lparr>a_status := ''sent'', a_sent_at := Some now, a_attempts := a_attempts a + 1\<rparr>) now"

definition q_RescheduleAlert :: "int \<Rightarrow> gotime \<Rightarrow> unit stmt" where
  "q_RescheduleAlert i t = update_alerts (\<lambda>a. a_id a = i)
     (\<lambda>a. a\<lparr>a_attempts := a_attempts a + 1, a_next_attempt_at := t\<rparr>)"

definition q_SuppressAlert :: "int \<Rightarrow> unit stmt" where
  "q_SuppressAlert i = update_alerts (\<lambda>a. a_id a = i) (\<lambda>a. a\<lparr>a_status := ''sent''\<rparr>)"

end
