(* ===== verification/Schema.thy ===== *)
theory Schema
  imports Log_Queries
begin

text \<open>
  The invariant the schema of src/backend/db/migrations gives every reachable database:
  primary keys are unique and below their sequences, foreign keys point at rows, CHECK
  constraints and column widths hold. Every statement of the monitor and log tables keeps it,
  also when it fails, and no statement moves a sequence backwards.
\<close>

section \<open>The invariant\<close>

definition wf_users :: "user_row list \<Rightarrow> bool" where
  "wf_users us \<longleftrightarrow> distinct (map u_id us) \<and> distinct (map u_email us)"

definition wf_monitors :: "uuid set \<Rightarrow> monitor_row list \<Rightarrow> bool" where
  "wf_monitors uids ms \<longleftrightarrow> distinct (map m_id ms) \<and> distinct (map m_slug ms) \<and>
     (\<forall>m \<in> set ms. monitor_checks m \<and> int32_range (m_fail_streak m) \<and> m_user_id m \<in> uids)"

definition wf_checkins :: "uuid set \<Rightarrow> int \<Rightarrow> checkin_row list \<Rightarrow> bool" where
  "wf_checkins mids sq cs \<longleftrightarrow> distinct (map c_id cs) \<and>
     (\<forall>c \<in> set cs. c_id c < sq \<and> c_monitor_id c \<in> mids \<and> c_kind c \<in> {''success'', ''start'', ''fail''})"

definition wf_probe_results :: "uuid set \<Rightarrow> int \<Rightarrow> probe_result_row list \<Rightarrow> bool" where
  "wf_probe_results mids sq ps \<longleftrightarrow> distinct (map p_id ps) \<and>
     (\<forall>p \<in> set ps. p_id p < sq \<and> p_monitor_id p \<in> mids)"

definition wf_events :: "uuid set \<Rightarrow> int \<Rightarrow> event_row list \<Rightarrow> bool" where
  "wf_events mids sq es \<longleftrightarrow> distinct (map e_id es) \<and>
     (\<forall>e \<in> set es. e_id e < sq \<and> e_monitor_id e \<in> mids)"

definition wf_alerts :: "uuid set \<Rightarrow> int set \<Rightarrow> int \<Rightarrow> alert_row list \<Rightarrow> bool" where
  "wf_alerts mids eids sq as \<longleftrightarrow> distinct (map a_id as) \<and>
     (\<forall>a \<in> set as. a_id a < sq \<and> a_monitor_id a \<in> mids \<and> a_event_id a \<in> eids \<and>
        a_status a \<in> {''pending'', ''sent'', ''failed''} \<and> int32_range (a_attempts a))"

abbreviation monitor_ids :: "db \<Rightarrow> uuid set" where
  "monitor_ids d \<equiv> m_id ` set (monitors d)"

abbreviation event_ids :: "db \<Rightarrow> int set" where
  "event_ids d \<equiv> e_id ` set (events d)"

definition wf_db :: "db \<Rightarrow> bool" where
  "wf_db d \<longleftrightarrow> wf_users (users d) \<and> wf_monitors (u_id ` set (users d)) (monitors d) \<and>
     wf_checkins (monitor_ids d) (seq_checkins (seqs d)) (checkins d) \<and>
     wf_probe_results (monitor_ids d) (seq_probe_results (seqs d)) (probe_results d) \<and>
     wf_events (monitor_ids d) (seq_events (seqs d)) (events d) \<and>
     wf_alerts (monitor_ids d) (event_ids d) (seq_alerts (seqs d)) (alerts d)"

lemmas wf_table_defs = wf_users_def wf_monitors_def wf_checkins_def wf_probe_results_def
  wf_events_def wf_alerts_def

lemma wf_empty_db: "wf_db empty_db"
  by (simp add: wf_db_def empty_db_def wf_table_defs)

lemma wf_db_monitor_ids: "wf_db d \<Longrightarrow> distinct (map m_id (monitors d))"
  by (simp add: wf_db_def wf_monitors_def)

lemma wf_db_monitor:
  "wf_db d \<Longrightarrow> m \<in> set (monitors d) \<Longrightarrow> monitor_checks m \<and> int32_range (m_fail_streak m)"
  by (simp add: wf_db_def wf_monitors_def)

lemma wf_db_monitor_unique:
  "wf_db d \<Longrightarrow> m \<in> set (monitors d) \<Longrightarrow> m' \<in> set (monitors d) \<Longrightarrow> m_id m = m_id m' \<Longrightarrow> m = m'"
  by (simp add: wf_db_def wf_monitors_def) (metis distinct_map inj_on_def)

section \<open>Invariants of statements and store operations\<close>

definition stmt_keeps :: "(db \<Rightarrow> bool) \<Rightarrow> 'a stmt \<Rightarrow> bool" where
  "stmt_keeps I q \<longleftrightarrow> (\<forall>now d. I d \<longrightarrow> I (snd (q now d)))"

definition keeps_all :: "(db \<Rightarrow> bool) \<Rightarrow> 'a dbm \<Rightarrow> bool" where
  "keeps_all I m \<longleftrightarrow> (\<forall>s. I (sdb s) \<longrightarrow> I (sdb (snd (m s))))"

lemma keeps_all_ret [tx_rules]: "keeps_all I (ret x)"
  by (simp add: keeps_all_def ret_def)

lemma keeps_all_raise [tx_rules]: "keeps_all I (raise e)"
  by (simp add: keeps_all_def raise_def)

lemma keeps_all_bind [tx_rules]:
  assumes m: "keeps_all I m" and f: "\<And>x. keeps_all I (f x)"
  shows "keeps_all I (bind m f)"
  unfolding keeps_all_def
proof (intro allI impI)
  fix s :: sess assume "I (sdb s)"
  obtain r s' where ms: "m s = (r, s')" by force
  with m \<open>I (sdb s)\<close> have "I (sdb s')" unfolding keeps_all_def by (metis snd_conv)
  with f show "I (sdb (snd (bind m f s)))"
    by (auto simp: bind_def ms keeps_all_def split: sum.split)
qed

lemma keeps_all_map_err [tx_rules]: "keeps_all I m \<Longrightarrow> keeps_all I (map_err g m)"
proof -
  have "snd (map_err g m s) = snd (m s)" for s
    by (auto simp: map_err_def split: prod.split sum.split)
  then show "keeps_all I m \<Longrightarrow> keeps_all I (map_err g m)" by (simp add: keeps_all_def)
qed

lemma keeps_all_catch [tx_rules]:
  assumes m: "keeps_all I m" and h: "\<And>e. keeps_all I (h e)"
  shows "keeps_all I (catch m h)"
  unfolding keeps_all_def
proof (intro allI impI)
  fix s :: sess assume "I (sdb s)"
  obtain r s' where ms: "m s = (r, s')" by force
  with m \<open>I (sdb s)\<close> have "I (sdb s')" unfolding keeps_all_def by (metis snd_conv)
  with h show "I (sdb (snd (catch m h s)))"
    by (auto simp: catch_def ms keeps_all_def split: sum.split)
qed

lemma keeps_all_query [tx_rules]: "stmt_keeps I q \<Longrightarrow> keeps_all I (query q)"
  unfolding keeps_all_def stmt_keeps_def query_def
  by (auto split: outcome.split prod.split sum.split) (metis snd_conv)+

lemma keeps_all_withTx:
  assumes "rollback_stable I" and "keeps_all I fn" and "grows fn"
  shows "keeps_all I (withTx fn)"
  unfolding keeps_all_def
proof (intro allI impI)
  fix s :: sess assume I: "I (sdb s)"
  obtain r s' where fn: "fn (consume s) = (r, s')" by force
  have I': "I (sdb s')" using assms(2) I fn unfolding keeps_all_def by (metis consume_simps(1) snd_conv)
  have "tables_kept (sdb s) (rollback (sdb s) (sdb s'))"
    using assms(3) fn unfolding grows_def
    by (metis consume_simps(1) snd_conv tables_kept_rollback)
  with assms(1) I have "I (rollback (sdb s) (sdb s'))" by (auto simp: rollback_stable_def)
  with I I' show "I (sdb (snd (withTx fn s)))"
    by (auto simp: withTx_def fn split: sum.split outcome.split)
qed

lemma keeps_all_run: "keeps_all I m \<Longrightarrow> I d \<Longrightarrow> I (run_db m now os d)"
  unfolding keeps_all_def run_db_def by simp

lemma wf_rollback_stable [tx_rules]: "rollback_stable wf_db"
proof -
  have "wf_db d'" if "wf_db d" "tables_kept d d'" for d d'
    using that(1) tables_kept_simps [OF that(2)] that(2)
    by (fastforce simp: wf_db_def wf_table_defs tables_kept_def seqs_le_def)
  then show ?thesis by (simp add: rollback_stable_def)
qed

section \<open>Statements\<close>

lemma reading_grows [tx_rules]: "stmt_grows (reading f)"
  by (simp add: stmt_grows_def reading_def)

lemma reading_keeps [tx_rules]: "stmt_keeps I (reading f)"
  by (simp add: stmt_keeps_def reading_def)

lemma update_monitors_seqs [simp]: "seqs (snd (update_monitors sel f now d)) = seqs d"
  by (simp add: update_monitors_def Let_def)

lemma sql_exec_snd [simp]: "snd (sql_exec q now d) = snd (q now d)"
  by (auto simp: sql_exec_def split: prod.split sum.split)

lemma sql_one_snd [simp]: "snd (sql_one q now d) = snd (q now d)"
  by (auto simp: sql_one_def split: prod.split sum.split)

definition keeps_keys :: "(monitor_row \<Rightarrow> monitor_row) \<Rightarrow> bool" where
  "keeps_keys f \<longleftrightarrow> (\<forall>m. m_id (f m) = m_id m \<and> m_slug (f m) = m_slug m \<and> m_user_id (f m) = m_user_id m)"

lemma update_where_ids:
  "keeps_keys f \<Longrightarrow> m_id ` set (update_where sel f ms) = m_id ` set ms"
proof -
  assume "keeps_keys f"
  then have "map m_id (update_where sel f ms) = map m_id ms"
    by (simp add: update_where_map_key keeps_keys_def)
  from arg_cong [OF this, of set] show ?thesis by simp
qed

lemma wf_monitors_update:
  assumes "wf_monitors uids ms" and "keeps_keys f"
    and "list_all (\<lambda>m. int32_range (m_fail_streak m)) (map f (filter sel ms))"
    and "list_all monitor_checks (map f (filter sel ms))"
  shows "wf_monitors uids (update_where sel f ms)"
proof -
  have "map m_id (update_where sel f ms) = map m_id ms"
       "map m_slug (update_where sel f ms) = map m_slug ms"
    using assms(2) by (simp_all add: update_where_map_key keeps_keys_def)
  with assms show ?thesis
    by (auto simp: wf_monitors_def update_where_set list_all_iff keeps_keys_def)
qed

lemma update_monitors_wf:
  assumes "keeps_keys f" and "wf_db d"
  shows "wf_db (snd (update_monitors sel f now d))"
  using assms by (simp add: update_monitors_def Let_def wf_db_def wf_monitors_update update_where_ids)

lemma update_alerts_wf:
  assumes "wf_db d"
    and "\<And>a. a_id (f a) = a_id a \<and> a_monitor_id (f a) = a_monitor_id a \<and> a_event_id (f a) = a_event_id a"
    and "\<And>a. a_status a \<in> {''pending'', ''sent'', ''failed''} \<Longrightarrow> a_status (f a) \<in> {''pending'', ''sent'', ''failed''}"
  shows "wf_db (snd (update_alerts sel f now d))"
proof -
  have "map a_id (update_where sel f (alerts d)) = map a_id (alerts d)"
    using assms(2) by (simp add: update_where_map_key)
  then show ?thesis using assms
    by (auto simp: update_alerts_def wf_db_def wf_alerts_def update_where_set list_all_iff)
qed

lemma new_monitor_keys [simp]:
  "m_id (new_monitor i p now) = i" "m_slug (new_monitor i p now) = cm_slug p"
  "m_user_id (new_monitor i p now) = cm_user_id p" "m_fail_streak (new_monitor i p now) = 0"
  by (simp_all add: new_monitor_def)

lemma int32_range_0 [simp]: "int32_range 0"
  by (simp add: int32_range_def)

lemma wf_CreateMonitor [tx_rules]: "stmt_keeps wf_db (q_CreateMonitor i p)"
  by (auto simp: stmt_keeps_def q_CreateMonitor_def Let_def wf_db_def wf_table_defs)

lemma wf_cascade_monitor: "wf_db d \<Longrightarrow> wf_db (cascade_monitor i d)"
proof -
  have *: "a \<in> e_id ` {e \<in> E. e_monitor_id e \<noteq> i}"
    if "a \<in> e_id ` E" "a \<notin> e_id ` {e \<in> E. e_monitor_id e = i}" for a E
    using that by (auto simp: image_iff)
  show "wf_db d \<Longrightarrow> wf_db (cascade_monitor i d)"
    by (auto simp: wf_db_def wf_table_defs cascade_monitor_def distinct_map_filter intro!: *)
qed

lemma wf_DeleteMonitor [tx_rules]: "stmt_keeps wf_db (q_DeleteMonitor i u)"
  by (simp add: stmt_keeps_def q_DeleteMonitor_def Let_def wf_cascade_monitor)

lemma wf_monitor_updates [tx_rules]:
  "stmt_keeps wf_db (q_MarkMonitorDown i)" "stmt_keeps wf_db (q_MarkMonitorLate dl i)"
  "stmt_keeps wf_db (q_MuteMonitor i u)" "stmt_keeps wf_db (q_PauseMonitor i u)"
  "stmt_keeps wf_db (q_ResumeMonitor dl i u)" "stmt_keeps wf_db (q_UnmuteMonitor i u)"
  "stmt_keeps wf_db (q_UpdateMonitor up i u)" "stmt_keeps wf_db (q_UpdateMonitorOnCheckin st t dl n i)"
  "stmt_keeps wf_db (q_SetTLSWarnedExpiry dl i)" "stmt_keeps wf_db (q_UpdateMonitorOnProbe st n dl i)"
  by (simp_all add: stmt_keeps_def q_MarkMonitorDown_def q_MarkMonitorLate_def q_MuteMonitor_def
      q_PauseMonitor_def q_ResumeMonitor_def q_UnmuteMonitor_def q_UpdateMonitor_def
      q_UpdateMonitorOnCheckin_def q_SetTLSWarnedExpiry_def q_UpdateMonitorOnProbe_def
      update_monitors_wf keeps_keys_def apply_update_def)

lemma wf_log_inserts [tx_rules]:
  "stmt_keeps wf_db (q_InsertCheckin mid kind ip ua body)"
  "stmt_keeps wf_db (q_InsertProbeResult mid ok hs lat err tls)"
  "stmt_keeps wf_db (q_InsertEvent mid ty msg meta)"
  "stmt_keeps wf_db (q_InsertAlert mid ev ch)"
  unfolding stmt_keeps_def
  by (fastforce simp: q_InsertCheckin_def q_InsertProbeResult_def q_InsertEvent_def q_InsertAlert_def
      Let_def bump_defs wf_db_def wf_table_defs has_monitor_def has_event_def new_alert_def)+

lemma wf_log_deletes [tx_rules]:
  "stmt_keeps wf_db (q_DeleteOldCheckinsBatch c l)" "stmt_keeps wf_db (q_DeleteOldProbeResultsBatch c l)"
  "stmt_keeps wf_db (q_DeleteOldEventsBatch c l)"
  unfolding stmt_keeps_def
  by (auto simp: q_DeleteOldCheckinsBatch_def q_DeleteOldProbeResultsBatch_def
      q_DeleteOldEventsBatch_def Let_def wf_db_def wf_table_defs distinct_map_filter)

lemma wf_alert_updates [tx_rules]:
  "stmt_keeps wf_db (q_MarkAlertFailed i)" "stmt_keeps wf_db (q_MarkAlertSent i)"
  "stmt_keeps wf_db (q_RescheduleAlert i t)" "stmt_keeps wf_db (q_SuppressAlert i)"
  unfolding stmt_keeps_def q_MarkAlertFailed_def q_MarkAlertSent_def q_RescheduleAlert_def
    q_SuppressAlert_def by (auto intro!: update_alerts_wf)

lemma number_reminders_rows:
  "a \<in> set (number_reminders now i src) \<Longrightarrow>
     a_status a = ''pending'' \<and> a_attempts a = 0 \<and> a_is_reminder a \<and> a_created_at a = now \<and>
     i \<le> a_id a \<and> a_id a < i + int (length src) \<and> (a_monitor_id a, a_event_id a) \<in> set src"
  by (induction src arbitrary: i) (force simp: new_alert_def)+

lemma number_reminders_distinct: "distinct (map a_id (number_reminders now i src))"
  by (induction src arbitrary: i) (force simp: new_alert_def dest: number_reminders_rows)+

lemma length_number_reminders [simp]: "length (number_reminders now i src) = length src"
  by (induction src arbitrary: i) auto

lemma latest_down_SomeD:
  "latest_down d mid t = Some e \<Longrightarrow> e \<in> set (events d) \<and> e_monitor_id e = mid \<and> e_type e = ''down''"
proof -
  have "e \<in> set (sort_key k xs)" if "sort_key k xs = e # es" for k :: "event_row \<Rightarrow> int" and xs es
    using that by simp
  then show "latest_down d mid t = Some e \<Longrightarrow>
      e \<in> set (events d) \<and> e_monitor_id e = mid \<and> e_type e = ''down''"
    unfolding latest_down_def by (fastforce split: list.splits)
qed

lemma reminder_source_SomeD:
  assumes "reminder_source d t m = Some (mid, ev)"
  shows "reminder_due d t m \<and> mid = m_id m \<and>
    (\<exists>e \<in> set (events d). e_id e = ev \<and> e_monitor_id e = mid \<and> e_type e = ''down'')"
  using assms by (auto simp: reminder_source_def split: if_splits dest: latest_down_SomeD)

lemma reminder_row:
  assumes "a \<in> set (number_reminders now i (List.map_filter (reminder_source d t) ms))"
  shows "\<exists>m \<in> set ms. reminder_due d t m \<and> a_monitor_id a = m_id m \<and>
    (\<exists>e \<in> set (events d). e_id e = a_event_id a \<and> e_monitor_id e = m_id m \<and> e_type e = ''down'')"
  using number_reminders_rows [OF assms]
  by (fastforce simp: map_filter_def dest: reminder_source_SomeD)

lemma wf_EnqueueDownReminders [tx_rules]: "stmt_keeps wf_db (q_EnqueueDownReminders t)"
proof -
  have "wf_alerts (monitor_ids d) (event_ids d) (seq_alerts (seqs d) + int (length rows))
          (alerts d @ rows)"
    if wf: "wf_alerts (monitor_ids d) (event_ids d) (seq_alerts (seqs d)) (alerts d)"
      and rows: "rows = number_reminders now (seq_alerts (seqs d))
            (List.map_filter (reminder_source d t) (monitors d))" for d now rows
  proof -
    have "distinct (map a_id (alerts d @ rows))"
      using wf number_reminders_distinct
      by (auto simp: wf_alerts_def rows dest!: number_reminders_rows)
    moreover have "a_id a < seq_alerts (seqs d) + int (length rows) \<and> a_monitor_id a \<in> monitor_ids d \<and>
        a_event_id a \<in> event_ids d \<and> a_status a = ''pending'' \<and> a_attempts a = 0" if "a \<in> set rows" for a
    proof -
      from reminder_row [OF that [unfolded rows]] obtain m e where
        "m \<in> set (monitors d)" "a_monitor_id a = m_id m" "e \<in> set (events d)" "a_event_id a = e_id e"
        by auto
      moreover from number_reminders_rows [OF that [unfolded rows]]
      have "a_id a < seq_alerts (seqs d) + int (length rows)" "a_status a = ''pending''" "a_attempts a = 0"
        by (simp_all add: rows)
      ultimately show ?thesis by auto
    qed
    moreover have "a_id a < seq_alerts (seqs d) + int (length rows)" if "a \<in> set (alerts d)" for a
      using that wf by (force simp: wf_alerts_def)
    ultimately show ?thesis using wf unfolding wf_alerts_def by auto
  qed
  then show ?thesis
    by (simp add: stmt_keeps_def q_EnqueueDownReminders_def Let_def wf_db_def)
qed

section \<open>Sequences\<close>

lemma stmt_grows_updates [tx_rules]:
  "stmt_grows (q_MarkMonitorDown i)" "stmt_grows (q_MarkMonitorLate dl i)"
  "stmt_grows (q_MuteMonitor i u)" "stmt_grows (q_PauseMonitor i u)"
  "stmt_grows (q_ResumeMonitor dl i u)" "stmt_grows (q_UnmuteMonitor i u)"
  "stmt_grows (q_UpdateMonitor up i u)" "stmt_grows (q_UpdateMonitorOnCheckin st t dl n i)"
  "stmt_grows (q_SetTLSWarnedExpiry dl i)" "stmt_grows (q_UpdateMonitorOnProbe st n dl i)"
  "stmt_grows (q_MarkAlertFailed j)" "stmt_grows (q_MarkAlertSent j)"
  "stmt_grows (q_RescheduleAlert j tt)" "stmt_grows (q_SuppressAlert j)"
  "stmt_grows (q_CreateMonitor i cp)" "stmt_grows (q_DeleteMonitor i u)"
  by (simp_all add: stmt_grows_def q_MarkMonitorDown_def q_MarkMonitorLate_def q_MuteMonitor_def
      q_PauseMonitor_def q_ResumeMonitor_def q_UnmuteMonitor_def q_UpdateMonitor_def
      q_UpdateMonitorOnCheckin_def q_SetTLSWarnedExpiry_def q_UpdateMonitorOnProbe_def
      q_MarkAlertFailed_def q_MarkAlertSent_def q_RescheduleAlert_def q_SuppressAlert_def
      q_CreateMonitor_def q_DeleteMonitor_def cascade_monitor_def update_alerts_def Let_def)

lemma stmt_grows_log [tx_rules]:
  "stmt_grows (q_InsertCheckin mid kind ip ua body)"
  "stmt_grows (q_InsertProbeResult mid ok hs lat err tls)"
  "stmt_grows (q_InsertEvent mid ty msg meta)" "stmt_grows (q_InsertAlert mid ev ch)"
  "stmt_grows (q_DeleteOldCheckinsBatch c l)" "stmt_grows (q_DeleteOldProbeResultsBatch c l)"
  "stmt_grows (q_DeleteOldEventsBatch c l)" "stmt_grows (q_EnqueueDownReminders c)"
  by (simp_all add: stmt_grows_def q_InsertCheckin_def q_InsertProbeResult_def q_InsertEvent_def
      q_InsertAlert_def q_DeleteOldCheckinsBatch_def q_DeleteOldProbeResultsBatch_def
      q_DeleteOldEventsBatch_def q_EnqueueDownReminders_def bump_defs Let_def seqs_le_def)

lemma reads_rules [tx_rules]:
  "stmt_grows (q_GetMonitorBySlugForUpdate sl)" "stmt_keeps I (q_GetMonitorBySlugForUpdate sl)"
  "stmt_grows (q_GetMonitorBySlug sl)" "stmt_keeps I (q_GetMonitorBySlug sl)"
  "stmt_grows (q_GetMonitorByID i)" "stmt_keeps I (q_GetMonitorByID i)"
  "stmt_grows (q_ClaimDueMonitors lk t n)" "stmt_keeps I (q_ClaimDueMonitors lk t n)"
  "stmt_grows (q_ClaimDueProbes lk t n)" "stmt_keeps I (q_ClaimDueProbes lk t n)"
  "stmt_grows (q_ClaimDueAlerts lka t n)" "stmt_keeps I (q_ClaimDueAlerts lka t n)"
  "stmt_grows (q_LatestDownEventBefore i t)" "stmt_keeps I (q_LatestDownEventBefore i t)"
  by (simp_all add: q_GetMonitorBySlugForUpdate_def q_GetMonitorBySlug_def q_GetMonitorByID_def
      q_ClaimDueMonitors_def q_ClaimDueProbes_def q_ClaimDueAlerts_def q_LatestDownEventBefore_def
      reading_grows reading_keeps)

section \<open>What the statements compute\<close>

lemma reading_simp [simp]: "reading f now d = (f d, d)"
  by (simp add: reading_def)

lemma first_row_filter:
  "first_row (filter p rows) = (case the_row p rows of None \<Rightarrow> Inl NoRows | Some r \<Rightarrow> Inr r)"
  by (induction rows) (auto simp: first_row_def)

text \<open>An UPDATE by primary key of a row that stays within its constraints succeeds.\<close>

lemma update_monitors_ok:
  assumes "\<And>m. m \<in> set (monitors d) \<Longrightarrow> sel m \<Longrightarrow> monitor_checks (f m) \<and> int32_range (m_fail_streak (f m))"
  shows "update_monitors sel f now d =
    (Inr (map f (filter sel (monitors d))), d\<lparr>monitors := update_where sel f (monitors d)\<rparr>)"
  using assms by (auto simp: update_monitors_def Let_def list_all_iff)

lemma filter_unique_key:
  assumes "distinct (map key rows)" and "r \<in> set rows" and "sel r"
    and "\<And>x. sel x \<Longrightarrow> key x = key r"
  shows "filter sel rows = [r]"
proof -
  have "x = r" if "x \<in> set rows" "key x = key r" for x
    using assms(1,2) that by (metis distinct_map inj_onD)
  then have "filter sel rows = filter (\<lambda>x. key x = key r) rows"
    using assms(3,4) by (metis (mono_tags, lifting) filter_cong)
  also have "\<dots> = [r]"
    using assms(1,2)
  proof (induction rows)
    case (Cons a rows)
    show ?case
    proof (cases "key a = key r")
      case True
      with Cons.prems have "r \<notin> set rows" "a = r" by force+
      moreover have "filter (\<lambda>x. key x = key a) rows = []"
        using Cons.prems(1) by (auto simp: filter_empty_conv) (metis imageI)
      ultimately show ?thesis by simp
    next
      case False
      with Cons show ?thesis by auto
    qed
  qed simp
  finally show ?thesis .
qed

lemma query_exec_update:
  assumes "q now = sql_exec (update_monitors sel f) now"
    and "\<And>m. m \<in> set (monitors d) \<Longrightarrow> sel m \<Longrightarrow> monitor_checks (f m) \<and> int32_range (m_fail_streak (f m))"
  shows "query q (quiet d now) = (Inr (), quiet (d\<lparr>monitors := update_where sel f (monitors d)\<rparr>) now)"
  by (simp add: tx_unfold assms(1) sql_exec_def update_monitors_ok [OF assms(2)])

lemma query_one_update:
  assumes "q now = sql_one (update_monitors sel f) now"
    and "\<And>m. m \<in> set (monitors d) \<Longrightarrow> sel m \<Longrightarrow> monitor_checks (f m) \<and> int32_range (m_fail_streak (f m))"
  shows "query q (quiet d now) = (case the_row sel (monitors d) of
      None \<Rightarrow> (Inl (DbE NoRows), quiet d now)
    | Some m \<Rightarrow> (Inr (f m), quiet (d\<lparr>monitors := update_where sel f (monitors d)\<rparr>) now))"
proof -
  have fr: "first_row (map f (filter sel ms)) = (case the_row sel ms of None \<Rightarrow> Inl NoRows | Some r \<Rightarrow> Inr (f r))"
    for ms by (induction ms) (auto simp: first_row_def)
  have "update_where sel f ms = ms" if "the_row sel ms = None" for ms
    using that by (induction ms) (auto split: if_splits)
  then show ?thesis
    by (simp add: tx_unfold assms(1) sql_one_def update_monitors_ok [OF assms(2)] fr split: option.split)
qed

end
