(* ===== verification/Checkin.thy ===== *)
theory Checkin
  imports Schema
begin

text \<open>
  Ingesting pings: src/backend/store/checkin.go. \<open>RecordCheckin\<close> locks the monitor, records
  the check-in, moves the state machine and writes the timeline event with its outbox row, all
  in one transaction. The functions that write events and outbox rows are shared with the
  scheduler and the prober.
\<close>

section \<open>Model\<close>

definition alertChannelDefault :: string where
  "alertChannelDefault = ''default''"

definition textOrNull :: "string \<Rightarrow> string option" where
  "textOrNull s = (if s = '''' then None else Some s)"

definition parseSourceIP :: "extlib \<Rightarrow> string \<Rightarrow> string option" where
  "parseSourceIP x ip = (if ip = '''' then None else ParseAddr x ip)"

definition recordEventMeta ::
  "uuid \<Rightarrow> string \<Rightarrow> string \<Rightarrow> event_meta option \<Rightarrow> event_row dbm" where
  "recordEventMeta mid eventType message meta =
     map_err (WrapE ''store: insert event'') (query (q_InsertEvent mid eventType message meta))"

definition recordEvent :: "uuid \<Rightarrow> string \<Rightarrow> string \<Rightarrow> event_row dbm" where
  "recordEvent mid eventType message = recordEventMeta mid eventType message None"

definition recordTransition :: "uuid \<Rightarrow> string \<Rightarrow> string \<Rightarrow> unit dbm" where
  "recordTransition mid eventType message =
     bind (recordEvent mid eventType message) (\<lambda>event.
     bind (map_err (WrapE ''store: insert alert'')
            (query (q_InsertAlert mid (e_id event) alertChannelDefault))) (\<lambda>_.
     ret ()))"

definition scheduleConfig :: "monitor_row \<Rightarrow> Config" where
  "scheduleConfig m =
    \<lparr>cKind = text_value (m_schedule_kind m),
     cPeriod = (case m_period_s m of Some n \<Rightarrow> seconds_of n | None \<Rightarrow> 0),
     cCronExpr = text_value (m_cron_expr m), cTZ = m_tz m,
     cGrace = (case m_grace_s m of Some n \<Rightarrow> seconds_of n | None \<Rightarrow> 0)\<rparr>"

definition nextDeadlineFor :: "schedlib \<Rightarrow> monitor_row \<Rightarrow> gotime \<Rightarrow> gerror + gotime option" where
  "nextDeadlineFor lib m now =
    (if m_kind m \<noteq> ''heartbeat'' \<or> m_schedule_kind m = None then Inr None
     else case NextOccurrence lib (scheduleConfig m) now now of
        Inl e \<Rightarrow> Inl (WrapE ''store: recompute deadline'' (ValidationE e))
      | Inr occurrence \<Rightarrow> Inr (Some occurrence))"

record RecordCheckinParams =
  rp_Slug :: string
  rp_Kind :: string
  rp_SourceIP :: string
  rp_UserAgent :: string
  rp_Body :: string
  rp_Now :: gotime

record RecordCheckinResult =
  rr_MonitorID :: string
  rr_State :: string
  rr_Transition :: string
  rr_NextDeadline :: "gotime option"

definition applySuccess ::
  "schedlib \<Rightarrow> monitor_row \<Rightarrow> gotime \<Rightarrow> RecordCheckinResult \<Rightarrow> RecordCheckinResult dbm" where
  "applySuccess lib m now result =
    (case nextDeadlineFor lib m now of
       Inl e \<Rightarrow> raise e
     | Inr nextDeadline \<Rightarrow>
         bind (map_err (WrapE ''store: update monitor on success'')
            (query (q_UpdateMonitorOnCheckin ''up'' (Some now) nextDeadline 0 (m_id m)))) (\<lambda>_.
         let result' = result\<lparr>rr_State := ''up'', rr_NextDeadline := nextDeadline\<rparr> in
         if m_state m = ''down''
         then bind (recordTransition (m_id m) ''up'' ''Monitor recovered'') (\<lambda>_.
                ret (result'\<lparr>rr_Transition := ''up''\<rparr>))
         else ret result'))"

definition applyFail ::
  "monitor_row \<Rightarrow> gotime \<Rightarrow> RecordCheckinResult \<Rightarrow> RecordCheckinResult dbm" where
  "applyFail m now result =
     bind (map_err (WrapE ''store: update monitor on fail'')
        (query (q_UpdateMonitorOnCheckin ''down'' (Some now) None (wrap32 (m_fail_streak m + 1)) (m_id m))))
     (\<lambda>_.
     let result' = result\<lparr>rr_State := ''down''\<rparr> in
     if m_state m \<noteq> ''down''
     then bind (recordTransition (m_id m) ''down'' ''Monitor reported failure'') (\<lambda>_.
            ret (result'\<lparr>rr_Transition := ''down''\<rparr>))
     else ret result')"

definition checkinBody ::
  "schedlib \<Rightarrow> extlib \<Rightarrow> RecordCheckinParams \<Rightarrow> RecordCheckinResult dbm" where
  "checkinBody lib x p =
     bind (map_err (\<lambda>err. if is_no_rows err then SentinelE ErrNotFound
                           else WrapE ''store: lookup monitor by slug'' err)
            (query (q_GetMonitorBySlugForUpdate (rp_Slug p)))) (\<lambda>m.
     bind (map_err (WrapE ''store: insert checkin'')
            (query (q_InsertCheckin (m_id m) (rp_Kind p) (parseSourceIP x (rp_SourceIP p))
                      (textOrNull (rp_UserAgent p)) (textOrNull (rp_Body p))))) (\<lambda>_.
     let result = \<lparr>rr_MonitorID = uuidString x (m_id m), rr_State = m_state m,
                   rr_Transition = '''', rr_NextDeadline = None\<rparr> in
     if rp_Kind p = ''start'' then ret result
     else if rp_Kind p = ''success'' then applySuccess lib m (rp_Now p) result
     else if rp_Kind p = ''fail'' then applyFail m (rp_Now p) result
     else raise (MsgE (''store: unknown checkin kind '' @ go_quote (rp_Kind p)))))"

definition RecordCheckin ::
  "schedlib \<Rightarrow> extlib \<Rightarrow> RecordCheckinParams \<Rightarrow> RecordCheckinResult dbm" where
  "RecordCheckin lib x p = withTx (checkinBody lib x p)"

section \<open>Every body is strict, grows the sequences and keeps the schema\<close>

lemma record_rules [tx_rules]:
  "strict (recordEventMeta i ty msg meta)" "grows (recordEventMeta i ty msg meta)"
  "keeps_all wf_db (recordEventMeta i ty msg meta)"
  "strict (recordEvent i ty msg)" "grows (recordEvent i ty msg)" "keeps_all wf_db (recordEvent i ty msg)"
  unfolding recordEventMeta_def recordEvent_def by (intro tx_rules)+

lemma recordTransition_rules [tx_rules]:
  "strict (recordTransition i ty msg)" "grows (recordTransition i ty msg)"
  "keeps_all wf_db (recordTransition i ty msg)"
  unfolding recordTransition_def by (intro tx_rules)+

lemma apply_rules [tx_rules]:
  "strict (applySuccess lib m t r)" "grows (applySuccess lib m t r)"
  "keeps_all wf_db (applySuccess lib m t r)"
  "strict (applyFail m t r)" "grows (applyFail m t r)" "keeps_all wf_db (applyFail m t r)"
  unfolding applySuccess_def applyFail_def Let_def
  by (auto intro!: tx_rules split: sum.split)

lemma checkinBody_rules [tx_rules]:
  "strict (checkinBody lib x p)" "grows (checkinBody lib x p)" "keeps_all wf_db (checkinBody lib x p)"
  unfolding checkinBody_def Let_def by (auto intro!: tx_rules)

section \<open>What a check-in does\<close>

text \<open>An event together with its pending outbox row, and an event alone.\<close>

definition with_event :: "uuid \<Rightarrow> string \<Rightarrow> string \<Rightarrow> event_meta \<Rightarrow> gotime \<Rightarrow> db \<Rightarrow> db" where
  "with_event mid ty msg meta now d = (bump_events d)\<lparr>events := events d @
     [\<lparr>e_id = seq_events (seqs d), e_monitor_id = mid, e_type = ty, e_message = msg,
       e_meta = meta, e_created_at = now\<rparr>]\<rparr>"

definition with_alert :: "uuid \<Rightarrow> int \<Rightarrow> gotime \<Rightarrow> db \<Rightarrow> db" where
  "with_alert mid ev now d = (bump_alerts d)\<lparr>alerts := alerts d @
     [new_alert (seq_alerts (seqs d)) mid ev ''default'' False now]\<rparr>"

definition with_transition :: "uuid \<Rightarrow> string \<Rightarrow> string \<Rightarrow> event_meta \<Rightarrow> gotime \<Rightarrow> db \<Rightarrow> db" where
  "with_transition mid ty msg meta now d =
     with_alert mid (seq_events (seqs d)) now (with_event mid ty msg meta now d)"

lemma with_tables [simp]:
  "monitors (with_event i ty msg me now d) = monitors d" "users (with_event i ty msg me now d) = users d"
  "checkins (with_event i ty msg me now d) = checkins d" "alerts (with_event i ty msg me now d) = alerts d"
  "probe_results (with_event i ty msg me now d) = probe_results d"
  "monitors (with_alert i ev now d) = monitors d" "users (with_alert i ev now d) = users d"
  "checkins (with_alert i ev now d) = checkins d" "events (with_alert i ev now d) = events d"
  "probe_results (with_alert i ev now d) = probe_results d"
  "monitors (with_transition i ty msg me now d) = monitors d"
  "users (with_transition i ty msg me now d) = users d"
  "checkins (with_transition i ty msg me now d) = checkins d"
  "probe_results (with_transition i ty msg me now d) = probe_results d"
  by (simp_all add: with_event_def with_alert_def with_transition_def bump_defs)

lemma recordEventMeta_quiet:
  "has_monitor d mid \<Longrightarrow> recordEventMeta mid ty msg meta (quiet d now) =
     (Inr \<lparr>e_id = seq_events (seqs d), e_monitor_id = mid, e_type = ty, e_message = msg,
           e_meta = coalesce_nn meta MetaEmpty, e_created_at = now\<rparr>,
      quiet (with_event mid ty msg (coalesce_nn meta MetaEmpty) now d) now)"
  by (simp add: recordEventMeta_def tx_unfold q_InsertEvent_def with_event_def Let_def)

lemma InsertAlert_quiet:
  "has_monitor d mid \<Longrightarrow> has_event d ev \<Longrightarrow>
   query (q_InsertAlert mid ev alertChannelDefault) (quiet d now) =
     (Inr (new_alert (seq_alerts (seqs d)) mid ev ''default'' False now), quiet (with_alert mid ev now d) now)"
  by (simp add: tx_unfold q_InsertAlert_def with_alert_def Let_def alertChannelDefault_def)

lemma with_event_has [simp]:
  "has_event (with_event mid ty msg meta now d) (seq_events (seqs d))"
  "has_monitor (with_event mid ty msg meta now d) i \<longleftrightarrow> has_monitor d i"
  by (simp_all add: with_event_def bump_defs has_event_def has_monitor_def)

lemma recordTransition_quiet:
  "has_monitor d mid \<Longrightarrow> recordTransition mid ty msg (quiet d now) =
     (Inr (), quiet (with_transition mid ty msg MetaEmpty now d) now)"
  by (simp add: recordTransition_def recordEvent_def recordEventMeta_quiet InsertAlert_quiet
      bind_def map_err_def ret_def with_transition_def)

text \<open>The transition a ping causes, the new monitor row, and the whole effect.\<close>

definition checkin_transition :: "string \<Rightarrow> string \<Rightarrow> (string \<times> string) option" where
  "checkin_transition kind st =
    (if kind = ''success'' \<and> st = ''down'' then Some (''up'', ''Monitor recovered'')
     else if kind = ''fail'' \<and> st \<noteq> ''down'' then Some (''down'', ''Monitor reported failure'')
     else None)"

definition checked_in ::
  "string \<Rightarrow> gotime option \<Rightarrow> gotime \<Rightarrow> gotime \<Rightarrow> monitor_row \<Rightarrow> monitor_row" where
  "checked_in kind dl t now m =
    (if kind = ''start'' then m
     else m\<lparr>m_state := (if kind = ''success'' then ''up'' else ''down''), m_last_checkin_at := Some t,
            m_next_deadline := (if kind = ''success'' then dl else None),
            m_fail_streak := (if kind = ''success'' then 0 else wrap32 (m_fail_streak m + 1)),
            m_paused_at := (if m_auto_resume m then None else m_paused_at m), m_updated_at := now\<rparr>)"

definition with_optional_transition :: "uuid \<Rightarrow> (string \<times> string) option \<Rightarrow> gotime \<Rightarrow> db \<Rightarrow> db" where
  "with_optional_transition mid tr now d =
    (case tr of None \<Rightarrow> d | Some (ty, msg) \<Rightarrow> with_transition mid ty msg MetaEmpty now d)"

definition checkin_effect ::
  "extlib \<Rightarrow> RecordCheckinParams \<Rightarrow> gotime option \<Rightarrow> monitor_row \<Rightarrow> gotime \<Rightarrow> db \<Rightarrow> db" where
  "checkin_effect x p dl m now d =
     with_optional_transition (m_id m) (checkin_transition (rp_Kind p) (m_state m)) now
       ((bump_checkins d)\<lparr>
          checkins := checkins d @ [\<lparr>c_id = seq_checkins (seqs d), c_monitor_id = m_id m,
             c_kind = rp_Kind p, c_source_ip = parseSourceIP x (rp_SourceIP p),
             c_user_agent = textOrNull (rp_UserAgent p), c_body = textOrNull (rp_Body p),
             c_created_at = now\<rparr>],
          monitors := update_where (\<lambda>r. m_id r = m_id m) (checked_in (rp_Kind p) dl (rp_Now p) now)
                        (monitors d)\<rparr>)"

definition checkin_result ::
  "extlib \<Rightarrow> string \<Rightarrow> gotime option \<Rightarrow> monitor_row \<Rightarrow> RecordCheckinResult" where
  "checkin_result x kind dl m =
    \<lparr>rr_MonitorID = uuidString x (m_id m),
     rr_State = m_state (checked_in kind dl 0 0 m),
     rr_Transition = (case checkin_transition kind (m_state m) of None \<Rightarrow> '''' | Some (ty, _) \<Rightarrow> ty),
     rr_NextDeadline = (if kind = ''success'' then dl else None)\<rparr>"

lemma UpdateMonitorOnCheckin_quiet:
  assumes "wf_db d" and "st \<in> {''up'', ''down''}" and "int32_range n"
    and "monitors d' = monitors d"
  shows "query (q_UpdateMonitorOnCheckin st t dl n i) (quiet d' now) =
    (Inr (), quiet (d'\<lparr>monitors := update_where (\<lambda>r. m_id r = i)
      (\<lambda>r. r\<lparr>m_state := st, m_last_checkin_at := t, m_next_deadline := dl, m_fail_streak := n,
             m_paused_at := (if m_auto_resume r then None else m_paused_at r), m_updated_at := now\<rparr>)
      (monitors d)\<rparr>) now)"
  unfolding assms(4) [symmetric]
proof (rule query_exec_update, rule q_UpdateMonitorOnCheckin_def)
  fix r assume "r \<in> set (monitors d')"
  with assms(1,4) have "monitor_checks r" using wf_db_monitor by auto
  with assms(2,3) show "monitor_checks (r\<lparr>m_state := st, m_last_checkin_at := t,
      m_next_deadline := dl, m_fail_streak := n,
      m_paused_at := (if m_auto_resume r then None else m_paused_at r), m_updated_at := now\<rparr>) \<and>
    int32_range (m_fail_streak (r\<lparr>m_state := st, m_last_checkin_at := t,
      m_next_deadline := dl, m_fail_streak := n,
      m_paused_at := (if m_auto_resume r then None else m_paused_at r), m_updated_at := now\<rparr>))"
    by (auto simp: monitor_checks_def)
qed

lemma update_where_cong:
  "(\<And>r. r \<in> set rows \<Longrightarrow> sel r \<Longrightarrow> f r = g r) \<Longrightarrow> update_where sel f rows = update_where sel g rows"
  by (simp add: update_where_def)

lemma update_where_same [simp]: "update_where sel (\<lambda>r. r) rows = rows"
  by (simp add: update_where_def)

lemma checked_in_keys [simp]: "keeps_keys (checked_in kind dl t now)"
  by (simp add: keeps_keys_def checked_in_def)

lemma checkinBody_quiet:
  assumes wf: "wf_db d" and row: "the_row (\<lambda>m. m_slug m = rp_Slug p) (monitors d) = Some m"
    and kind: "rp_Kind p \<in> {''success'', ''start'', ''fail''}"
    and dl: "nextDeadlineFor lib m (rp_Now p) = Inr dl"
  shows "checkinBody lib x p (quiet d now) =
    (Inr (checkin_result x (rp_Kind p) dl m), quiet (checkin_effect x p dl m now d) now)"
proof -
  from row have m: "m \<in> set (monitors d)" by (blast dest: the_row_SomeD)
  then have has: "has_monitor d (m_id m)" by (simp add: has_monitor_def)
  define d1 where "d1 = (bump_checkins d)\<lparr>checkins := checkins d @ [\<lparr>c_id = seq_checkins (seqs d),
      c_monitor_id = m_id m, c_kind = rp_Kind p, c_source_ip = parseSourceIP x (rp_SourceIP p),
      c_user_agent = textOrNull (rp_UserAgent p), c_body = textOrNull (rp_Body p), c_created_at = now\<rparr>]\<rparr>"
  have look: "query (q_GetMonitorBySlugForUpdate (rp_Slug p)) (quiet d now) = (Inr m, quiet d now)"
    by (simp add: tx_unfold q_GetMonitorBySlugForUpdate_def first_row_filter row)
  have ins: "query (q_InsertCheckin (m_id m) (rp_Kind p) (parseSourceIP x (rp_SourceIP p))
      (textOrNull (rp_UserAgent p)) (textOrNull (rp_Body p))) (quiet d now) =
      (Inr (last (checkins d1)), quiet d1 now)"
    using kind has by (auto simp: tx_unfold q_InsertCheckin_def Let_def d1_def)
  have mons: "monitors d1 = monitors d" by (simp add: bump_defs d1_def)
  have hasU: "has_monitor (d1\<lparr>monitors := update_where sel f (monitors d)\<rparr>) (m_id m)"
    if "keeps_keys f" for sel f
    using has by (simp add: has_monitor_def update_where_ids that)
  have only: "r = m" if "r \<in> set (monitors d)" "m_id r = m_id m" for r
    using wf_db_monitor_unique [OF wf] m that by blast
  have eff: "checkin_effect x p dl m now d = with_optional_transition (m_id m)
      (checkin_transition (rp_Kind p) (m_state m)) now (d1\<lparr>monitors := update_where
         (\<lambda>r. m_id r = m_id m) (checked_in (rp_Kind p) dl (rp_Now p) now) (monitors d)\<rparr>)"
    by (simp add: checkin_effect_def d1_def)
  have body: "checkinBody lib x p (quiet d now) =
      (let result = \<lparr>rr_MonitorID = uuidString x (m_id m), rr_State = m_state m,
                     rr_Transition = '''', rr_NextDeadline = None\<rparr> in
       if rp_Kind p = ''start'' then ret result
       else if rp_Kind p = ''success'' then applySuccess lib m (rp_Now p) result
       else if rp_Kind p = ''fail'' then applyFail m (rp_Now p) result
       else raise (MsgE (''store: unknown checkin kind '' @ go_quote (rp_Kind p)))) (quiet d1 now)"
    by (simp add: checkinBody_def bind_def map_err_def look ins Let_def)
  note effects = body checkin_result_def eff checkin_transition_def
    with_optional_transition_def bind_def map_err_def ret_def Let_def
    UpdateMonitorOnCheckin_quiet [OF wf _ _ mons] recordTransition_quiet hasU keeps_keys_def
  consider "rp_Kind p = ''start''" | "rp_Kind p = ''success''" | "rp_Kind p = ''fail''"
    using kind by blast
  then show ?thesis
  proof cases
    case 1
    then show ?thesis by (simp add: effects checked_in_def [abs_def] mons [symmetric])
  next
    case 2
    then show ?thesis by (simp add: effects checked_in_def [abs_def] applySuccess_def dl)
  next
    case 3
    have "update_where (\<lambda>r. m_id r = m_id m) (\<lambda>r. r\<lparr>m_state := ''down'', m_last_checkin_at := Some (rp_Now p),
          m_next_deadline := None, m_fail_streak := wrap32 (m_fail_streak m + 1),
          m_paused_at := (if m_auto_resume r then None else m_paused_at r), m_updated_at := now\<rparr>) (monitors d)
      = update_where (\<lambda>r. m_id r = m_id m) (checked_in ''fail'' dl (rp_Now p) now) (monitors d)"
      by (rule update_where_cong) (auto simp: checked_in_def dest: only)
    with 3 show ?thesis
      by (simp add: effects applyFail_def wrap32_range
          hasU [OF checked_in_keys] checked_in_def [of "''fail''" dl 0 0 m])
  qed
qed

section \<open>Properties\<close>

definition demo_ext :: extlib where
  "demo_ext = \<lparr>scanUUID = (\<lambda>s. map_option nat (ParseInt64 s)), uuidString = (\<lambda>u. show_int (int u)),
     ParseAddr = (\<lambda>s. Some s)\<rparr>"

definition demo_user :: user_row where
  "demo_user = \<lparr>u_id = 1, u_email = ''a@b'', u_password_hash = ''h'', u_created_at = 1, u_updated_at = 1\<rparr>"

definition demo_monitor :: monitor_row where
  "demo_monitor = \<lparr>m_id = 7, m_user_id = 1, m_kind = ''heartbeat'', m_slug = ''s'', m_name = ''n'',
     m_schedule_kind = Some ''period'', m_period_s = Some 60, m_cron_expr = None, m_tz = ''UTC'',
     m_grace_s = Some 60, m_url = None, m_method = None, m_interval_s = None, m_timeout_s = None,
     m_fail_threshold = None, m_http_config = ''{}'', m_state = ''up'', m_fail_streak = 0,
     m_last_checkin_at = None, m_next_deadline = Some 5, m_next_probe_at = None,
     m_alerts_muted = False, m_paused_at = None, m_created_at = 1, m_updated_at = 1,
     m_auto_resume = True, m_reminder_every_s = 86400, m_tls_warned_expires_at = None\<rparr>"

definition demo_db :: db where
  "demo_db = empty_db\<lparr>users := [demo_user], monitors := [demo_monitor]\<rparr>"

definition demo_ping :: RecordCheckinParams where
  "demo_ping = \<lparr>rp_Slug = ''s'', rp_Kind = ''fail'', rp_SourceIP = '''', rp_UserAgent = '''',
     rp_Body = '''', rp_Now = 100\<rparr>"

lemma demo_db_wf: "wf_db demo_db"
  by (simp add: wf_db_def wf_table_defs demo_db_def empty_db_def demo_user_def demo_monitor_def
      monitor_checks_def int32_range_def)

lemma demo_row:
  "the_row (\<lambda>m. m_slug m = rp_Slug demo_ping) (monitors demo_db) = Some demo_monitor"
  by (simp add: demo_db_def demo_ping_def demo_monitor_def)

lemma demo_deadline: "nextDeadlineFor demo_lib demo_monitor 100 = Inr (Some (100 + Minute))"
proof -
  have "valid_config demo_lib (scheduleConfig demo_monitor)"
    by (simp add: valid_config_def demo_lib_def demo_monitor_def scheduleConfig_def text_value_def
        KindPeriod_def schedule_bounds seconds_of_def int64_range_def)
  then show ?thesis
    by (simp add: nextDeadlineFor_def NextOccurrence_valid)
       (simp add: demo_monitor_def scheduleConfig_def text_value_def KindPeriod_def seconds_of_def
         int64_range_def duration_units)
qed

lemma RecordCheckin_quiet:
  assumes "wf_db d" and "the_row (\<lambda>m. m_slug m = rp_Slug p) (monitors d) = Some m"
    and "rp_Kind p \<in> {''success'', ''start'', ''fail''}" and "nextDeadlineFor lib m (rp_Now p) = Inr dl"
  shows "run_res (RecordCheckin lib x p) now [] d = Inr (checkin_result x (rp_Kind p) dl m)"
    "run_db (RecordCheckin lib x p) now [] d = checkin_effect x p dl m now d"
  using checkinBody_quiet [OF assms]
  by (simp_all add: run_res_def run_db_def RecordCheckin_def withTx_unfold)

text \<open>
  C3. A ping on a known slug, when the connection holds, records exactly one check-in row,
  rewrites exactly the pinged monitor (state, last check-in, deadline, fail streak, auto-resume),
  and appends one timeline event with one pending outbox row when, and only when, the monitor
  crosses between down and not-down; nothing else in the database changes.
\<close>

theorem RecordCheckin_effect:
  assumes "wf_db d" and "the_row (\<lambda>m. m_slug m = rp_Slug p) (monitors d) = Some m"
    and "rp_Kind p \<in> {''success'', ''start'', ''fail''}" and "nextDeadlineFor lib m (rp_Now p) = Inr dl"
  shows "RecordCheckin lib x p (quiet d now) =
    (Inr (checkin_result x (rp_Kind p) dl m), quiet (checkin_effect x p dl m now d) now)"
  by (simp add: RecordCheckin_def withTx_unfold checkinBody_quiet [OF assms])

theorem RecordCheckin_effect_witness:
  "map e_type (events (run_db (RecordCheckin demo_lib demo_ext demo_ping) 200 [] demo_db)) = [''down'']"
proof -
  have "RecordCheckin demo_lib demo_ext demo_ping (quiet demo_db 200) =
      (Inr (checkin_result demo_ext (rp_Kind demo_ping) (Some (100 + Minute)) demo_monitor),
       quiet (checkin_effect demo_ext demo_ping (Some (100 + Minute)) demo_monitor 200 demo_db) 200)"
    by (rule RecordCheckin_effect [OF demo_db_wf demo_row]) (simp_all add: demo_ping_def demo_deadline)
  then show ?thesis
    by (simp add: run_db_def checkin_effect_def demo_ping_def checkin_transition_def demo_monitor_def
        with_optional_transition_def with_transition_def with_event_def bump_defs demo_db_def empty_db_def)
qed

text \<open>
  C5. Whatever the connection does while a ping is recorded (a statement or the commit refused,
  an answer lost, the process killed), the tables are afterwards either exactly as before, with
  an error reported, or show the complete effect of the ping: state, event and outbox row are
  never committed apart from each other.
\<close>

theorem RecordCheckin_atomic:
  assumes "wf_db d" and "the_row (\<lambda>m. m_slug m = rp_Slug p) (monitors d) = Some m"
    and "rp_Kind p \<in> {''success'', ''start'', ''fail''}" and "nextDeadlineFor lib m (rp_Now p) = Inr dl"
  shows "tables_kept d (run_db (RecordCheckin lib x p) now os d) \<and>
           (\<exists>e. run_res (RecordCheckin lib x p) now os d = Inl e) \<or>
         run_db (RecordCheckin lib x p) now os d = checkin_effect x p dl m now d"
  using withTx_atomic [OF checkinBody_rules(1,2), of lib x p now os d] RecordCheckin_quiet [OF assms]
  by (auto simp: RecordCheckin_def)

theorem RecordCheckin_atomic_witness:
  "events (run_db (RecordCheckin demo_lib demo_ext demo_ping) 200
      [Succeeds, Succeeds, Succeeds, Succeeds, Succeeds, FailsBefore] demo_db) = []"
proof -
  define d' where "d' = run_db (RecordCheckin demo_lib demo_ext demo_ping) 200
      [Succeeds, Succeeds, Succeeds, Succeeds, Succeeds, FailsBefore] demo_db"
  define eff where "eff = checkin_effect demo_ext demo_ping (Some (100 + Minute)) demo_monitor 200 demo_db"
  have "tables_kept demo_db d' \<or> d' = eff"
    using RecordCheckin_atomic [OF demo_db_wf demo_row, of demo_lib "Some (100 + Minute)" demo_ext 200
        "[Succeeds, Succeeds, Succeeds, Succeeds, Succeeds, FailsBefore]"]
    by (auto simp: d'_def eff_def demo_ping_def demo_deadline)
  moreover have "alerts d' = []" unfolding d'_def by code_simp
  moreover have "alerts eff \<noteq> []"
    by (simp add: eff_def checkin_effect_def demo_ping_def checkin_transition_def demo_monitor_def
        with_optional_transition_def with_transition_def with_alert_def)
  moreover have "events demo_db = []" by (simp add: demo_db_def empty_db_def)
  ultimately have "events d' = []" using tables_kept_simps(7) [of demo_db d'] by auto
  then show ?thesis by (simp add: d'_def)
qed

text \<open>
  A ping on an unknown slug changes no table and is answered with the bare ErrNotFound;
  a success ping on a monitor whose stored schedule no longer validates changes no table
  either, the check-in row included.
\<close>

theorem RecordCheckin_rejects:
  assumes "the_row (\<lambda>m. m_slug m = rp_Slug p) (monitors d) = None \<and> err = SentinelE ErrNotFound \<or>
    (\<exists>m. the_row (\<lambda>m. m_slug m = rp_Slug p) (monitors d) = Some m \<and> rp_Kind p = ''success'' \<and>
         nextDeadlineFor lib m (rp_Now p) = Inl err)"
  shows "run_res (RecordCheckin lib x p) now [] d = Inl err \<and>
    tables_kept d (run_db (RecordCheckin lib x p) now os d)"
proof -
  have "run_res (RecordCheckin lib x p) now [] d = Inl err"
    using assms
  proof (elim disjE conjE exE)
    assume "the_row (\<lambda>m. m_slug m = rp_Slug p) (monitors d) = None" "err = SentinelE ErrNotFound"
    then show ?thesis
      by (simp add: run_res_def RecordCheckin_def tx_unfold checkinBody_def
          q_GetMonitorBySlugForUpdate_def first_row_filter)
  next
    fix m assume row: "the_row (\<lambda>m. m_slug m = rp_Slug p) (monitors d) = Some m"
      and "rp_Kind p = ''success''" "nextDeadlineFor lib m (rp_Now p) = Inl err"
    moreover have "has_monitor d (m_id m)"
      using the_row_SomeD [OF row] by (simp add: has_monitor_def)
    ultimately show ?thesis
      by (simp add: run_res_def RecordCheckin_def tx_unfold checkinBody_def Let_def applySuccess_def
          q_GetMonitorBySlugForUpdate_def q_InsertCheckin_def first_row_filter)
  qed
  with withTx_atomic [OF checkinBody_rules(1,2), of lib x p now os d] show ?thesis
    by (auto simp: RecordCheckin_def)
qed

theorem RecordCheckin_rejects_witness:
  "run_res (RecordCheckin demo_lib demo_ext demo_ping) 200 [] empty_db = Inl (SentinelE ErrNotFound)"
  using RecordCheckin_rejects [of demo_ping empty_db "SentinelE ErrNotFound" demo_lib demo_ext 200 "[]"]
  by (simp add: empty_db_def)

end
