(* ===== verification/Monitor_Store.thy ===== *)
theory Monitor_Store
  imports Checkin
begin

text \<open>
  Managing monitors: src/backend/store/monitor.go, src/backend/store/slug.go and the pause,
  resume, mute and unmute operations of src/backend/store/events.go. Identifiers cross this
  interface as text; a mutation carries the caller's user id and touches only rows that user
  owns.
\<close>

section \<open>The domain type\<close>

record Monitor =
  mo_ID :: string
  mo_UserID :: string
  mo_Kind :: string
  mo_Slug :: string
  mo_Name :: string
  mo_ScheduleKind :: string
  mo_PeriodS :: "int option"
  mo_CronExpr :: string
  mo_TZ :: string
  mo_GraceS :: "int option"
  mo_URL :: string
  mo_Method :: string
  mo_IntervalS :: "int option"
  mo_TimeoutS :: "int option"
  mo_FailThreshold :: "int option"
  mo_HTTPConfig :: string
  mo_State :: string
  mo_DisplayState :: string
  mo_FailStreak :: int
  mo_LastCheckinAt :: "gotime option"
  mo_NextDeadline :: "gotime option"
  mo_NextProbeAt :: "gotime option"
  mo_AlertsMuted :: bool
  mo_AutoResume :: bool
  mo_PausedAt :: "gotime option"
  mo_TLSWarnedExpiresAt :: "gotime option"
  mo_CreatedAt :: gotime
  mo_UpdatedAt :: gotime

definition toMonitor :: "extlib \<Rightarrow> monitor_row \<Rightarrow> Monitor" where
  "toMonitor x row =
    \<lparr>mo_ID = uuidString x (m_id row), mo_UserID = uuidString x (m_user_id row), mo_Kind = m_kind row,
     mo_Slug = m_slug row, mo_Name = m_name row, mo_ScheduleKind = text_value (m_schedule_kind row),
     mo_PeriodS = m_period_s row, mo_CronExpr = text_value (m_cron_expr row), mo_TZ = m_tz row,
     mo_GraceS = m_grace_s row, mo_URL = text_value (m_url row), mo_Method = text_value (m_method row),
     mo_IntervalS = m_interval_s row, mo_TimeoutS = m_timeout_s row,
     mo_FailThreshold = m_fail_threshold row, mo_HTTPConfig = m_http_config row, mo_State = m_state row,
     mo_DisplayState = (if m_paused_at row \<noteq> None then ''paused'' else m_state row),
     mo_FailStreak = m_fail_streak row, mo_LastCheckinAt = m_last_checkin_at row,
     mo_NextDeadline = m_next_deadline row, mo_NextProbeAt = m_next_probe_at row,
     mo_AlertsMuted = m_alerts_muted row, mo_AutoResume = m_auto_resume row,
     mo_PausedAt = m_paused_at row, mo_TLSWarnedExpiresAt = m_tls_warned_expires_at row,
     mo_CreatedAt = m_created_at row, mo_UpdatedAt = m_updated_at row\<rparr>"

section \<open>Identifiers\<close>

definition lift_err :: "gerror + 'a \<Rightarrow> 'a dbm" where
  "lift_err r = (case r of Inl e \<Rightarrow> raise e | Inr v \<Rightarrow> ret v)"

definition not_found :: gerror where
  "not_found = newHTTPError ErrNotFound 404"

text \<open>\<^verbatim>\<open>errors.Is(err, pgx.ErrNoRows)\<close> becomes ErrNotFound, anything else is wrapped.\<close>

definition no_rows_404 :: "string \<Rightarrow> gerror \<Rightarrow> gerror" where
  "no_rows_404 msg err = (if is_no_rows err then not_found else WrapE msg err)"

definition uuid_or_404 :: "extlib \<Rightarrow> string \<Rightarrow> uuid dbm" where
  "uuid_or_404 x s = (case pgUUID x s of Inl _ \<Rightarrow> raise not_found | Inr u \<Rightarrow> ret u)"

text \<open>pgtype formats a UUID so that scanning the text gives it back.\<close>

definition uuid_roundtrip :: "extlib \<Rightarrow> bool" where
  "uuid_roundtrip x \<longleftrightarrow> (\<forall>u. scanUUID x (uuidString x u) = Some u)"

lemma demo_uuids: "uuid_roundtrip (demo_ext\<lparr>scanUUID := \<lambda>s. Some (length s), uuidString := \<lambda>u. replicate u (CHR ''x'')\<rparr>)"
  by (simp add: uuid_roundtrip_def)

definition parseMonitorIDs :: "extlib \<Rightarrow> string \<Rightarrow> string \<Rightarrow> (uuid \<times> uuid) dbm" where
  "parseMonitorIDs x i user =
     bind (uuid_or_404 x i) (\<lambda>iu. bind (uuid_or_404 x user) (\<lambda>uu. ret (iu, uu)))"

section \<open>Slugs\<close>

definition base32_char :: "nat \<Rightarrow> char" where
  "base32_char n = (if n < 26 then char_of (65 + n) else char_of (24 + n))"

text \<open>Eight base32 characters for each five bytes; the ten random bytes leave no remainder.\<close>

fun base32_encode :: "nat list \<Rightarrow> string" where
  "base32_encode (a # b # c # e # f # rest) =
     (let v = (((a * 256 + b) * 256 + c) * 256 + e) * 256 + f in
      map (\<lambda>k. base32_char (v div 32 ^ (7 - k) mod 32)) [0..<8] @ base32_encode rest)"
| "base32_encode _ = []"

definition slugLen :: nat where
  "slugLen = 16"

definition generateSlug :: "nat list option \<Rightarrow> gerror + string" where
  "generateSlug rand = (case rand of
      None \<Rightarrow> Inl (MsgE ''store: generate slug'')
    | Some buf \<Rightarrow> Inr (map lower_char (take slugLen (base32_encode buf))))"

section \<open>Create, read, update, delete\<close>

definition maxSlugRetries :: nat where
  "maxSlugRetries = 5"

record CreateParams =
  cp_UserID :: string
  cp_Kind :: string
  cp_Name :: string
  cp_ScheduleKind :: string
  cp_PeriodS :: "int option"
  cp_CronExpr :: string
  cp_TZ :: string
  cp_GraceS :: "int option"
  cp_URL :: string
  cp_Method :: string
  cp_IntervalS :: "int option"
  cp_TimeoutS :: "int option"
  cp_FailThreshold :: "int option"
  cp_HTTPConfig :: "string option"
  cp_AutoResume :: "bool option"

definition create_row_params :: "uuid \<Rightarrow> CreateParams \<Rightarrow> string \<Rightarrow> CreateMonitorParams" where
  "create_row_params user p slug =
    \<lparr>cm_user_id = user, cm_kind = cp_Kind p, cm_slug = slug, cm_name = cp_Name p,
     cm_schedule_kind = textOrNull (cp_ScheduleKind p), cm_period_s = cp_PeriodS p,
     cm_cron_expr = textOrNull (cp_CronExpr p), cm_tz = cp_TZ p, cm_grace_s = cp_GraceS p,
     cm_url = textOrNull (cp_URL p), cm_method = textOrNull (cp_Method p),
     cm_interval_s = cp_IntervalS p, cm_timeout_s = cp_TimeoutS p,
     cm_fail_threshold = cp_FailThreshold p, cm_http_config = cp_HTTPConfig p,
     cm_auto_resume = cp_AutoResume p\<rparr>"

text \<open>
  The retry loop: attempt k reads \<open>rands k\<close> from crypto/rand and the server draws the row id
  \<open>ids k\<close>. The first argument counts the attempts left.
\<close>

fun createLoop :: "nat \<Rightarrow> extlib \<Rightarrow> uuid \<Rightarrow> CreateParams \<Rightarrow> (nat \<Rightarrow> nat list option) \<Rightarrow> (nat \<Rightarrow> uuid) \<Rightarrow> Monitor dbm"
where
  "createLoop 0 x user p rands ids =
     raise (MsgE ''store: create monitor: exhausted 5 slug retries'')"
| "createLoop (Suc n) x user p rands ids =
     bind (lift_err (generateSlug (rands n))) (\<lambda>slug.
     catch (bind (query (q_CreateMonitor (ids n) (create_row_params user p slug))) (\<lambda>row. ret (toMonitor x row)))
       (\<lambda>err. if isUniqueViolation err then createLoop n x user p rands ids
              else raise (WrapE ''store: create monitor'' err)))"

definition CreateMonitor ::
  "extlib \<Rightarrow> CreateParams \<Rightarrow> (nat \<Rightarrow> nat list option) \<Rightarrow> (nat \<Rightarrow> uuid) \<Rightarrow> Monitor dbm" where
  "CreateMonitor x p rands ids =
     bind (lift_err (pgUUID x (cp_UserID p))) (\<lambda>user. createLoop maxSlugRetries x user p rands ids)"

definition GetMonitor :: "extlib \<Rightarrow> string \<Rightarrow> string \<Rightarrow> Monitor dbm" where
  "GetMonitor x i caller =
     bind (uuid_or_404 x i) (\<lambda>iu.
     bind (map_err (no_rows_404 ''store: get monitor'') (query (q_GetMonitorByID iu))) (\<lambda>row.
     if uuidString x (m_user_id row) \<noteq> caller then raise (newHTTPError ErrForbidden 403)
     else ret (toMonitor x row)))"

record UpdateParams =
  up_Name :: string
  up_ScheduleKind :: string
  up_PeriodS :: "int option"
  up_CronExpr :: string
  up_TZ :: string
  up_GraceS :: "int option"
  up_URL :: string
  up_Method :: string
  up_IntervalS :: "int option"
  up_TimeoutS :: "int option"
  up_FailThreshold :: "int option"
  up_HTTPConfig :: "string option"
  up_AutoResume :: "bool option"

definition update_row_params :: "UpdateParams \<Rightarrow> UpdateMonitorParams" where
  "update_row_params p =
    \<lparr>um_name = textOrNull (up_Name p), um_schedule_kind = textOrNull (up_ScheduleKind p),
     um_period_s = up_PeriodS p, um_cron_expr = textOrNull (up_CronExpr p),
     um_tz = textOrNull (up_TZ p), um_grace_s = up_GraceS p, um_url = textOrNull (up_URL p),
     um_method = textOrNull (up_Method p), um_interval_s = up_IntervalS p,
     um_timeout_s = up_TimeoutS p, um_fail_threshold = up_FailThreshold p,
     um_http_config = up_HTTPConfig p, um_auto_resume = up_AutoResume p\<rparr>"

definition changedFields :: "UpdateParams \<Rightarrow> string list" where
  "changedFields p = map fst (filter snd
    [(''name'', up_Name p \<noteq> ''''), (''schedule_kind'', up_ScheduleKind p \<noteq> ''''),
     (''period_s'', up_PeriodS p \<noteq> None), (''cron_expr'', up_CronExpr p \<noteq> ''''),
     (''tz'', up_TZ p \<noteq> ''''), (''grace_s'', up_GraceS p \<noteq> None), (''url'', up_URL p \<noteq> ''''),
     (''method'', up_Method p \<noteq> ''''), (''interval_s'', up_IntervalS p \<noteq> None),
     (''timeout_s'', up_TimeoutS p \<noteq> None), (''fail_threshold'', up_FailThreshold p \<noteq> None),
     (''http_config'', text_value (up_HTTPConfig p) \<noteq> ''''), (''auto_resume'', up_AutoResume p \<noteq> None)])"

definition changedFieldsMeta :: "UpdateParams \<Rightarrow> event_meta option" where
  "changedFieldsMeta p = (if changedFields p = [] then None else Some (MetaFields (changedFields p)))"

definition updateBody :: "extlib \<Rightarrow> uuid \<Rightarrow> uuid \<Rightarrow> UpdateParams \<Rightarrow> Monitor dbm" where
  "updateBody x iu uu p =
     bind (map_err (no_rows_404 ''store: update monitor'')
            (query (q_UpdateMonitor (update_row_params p) iu uu))) (\<lambda>row.
     bind (case changedFieldsMeta p of
             Some meta \<Rightarrow> bind (recordEventMeta (m_id row) ''config_change'' ''Configuration updated'' (Some meta))
                            (\<lambda>_. ret ())
           | None \<Rightarrow> ret ()) (\<lambda>_.
     ret (toMonitor x row)))"

definition UpdateMonitor :: "extlib \<Rightarrow> string \<Rightarrow> string \<Rightarrow> UpdateParams \<Rightarrow> Monitor dbm" where
  "UpdateMonitor x i caller p =
     bind (parseMonitorIDs x i caller) (\<lambda>(iu, uu). withTx (updateBody x iu uu p))"

definition DeleteMonitor :: "extlib \<Rightarrow> string \<Rightarrow> string \<Rightarrow> unit dbm" where
  "DeleteMonitor x i caller =
     bind (parseMonitorIDs x i caller) (\<lambda>(iu, uu).
     bind (map_err (WrapE ''store: delete monitor'') (query (q_DeleteMonitor iu uu))) (\<lambda>n.
     if n = 0 then raise not_found else ret ()))"

section \<open>Pause, resume, mute\<close>

definition flagBody :: "extlib \<Rightarrow> monitor_row stmt \<Rightarrow> string \<Rightarrow> string \<Rightarrow> Monitor dbm" where
  "flagBody x update eventType message =
     bind (map_err (no_rows_404 (''store: flag monitor ('' @ eventType @ '')'')) (query update)) (\<lambda>row.
     bind (recordEvent (m_id row) eventType message) (\<lambda>_.
     ret (toMonitor x row)))"

definition flagMonitor ::
  "extlib \<Rightarrow> string \<Rightarrow> string \<Rightarrow> (uuid \<Rightarrow> uuid \<Rightarrow> monitor_row stmt) \<Rightarrow> string \<Rightarrow> string \<Rightarrow> Monitor dbm" where
  "flagMonitor x i caller update eventType message =
     bind (parseMonitorIDs x i caller) (\<lambda>(iu, uu). withTx (flagBody x (update iu uu) eventType message))"

definition PauseMonitor :: "extlib \<Rightarrow> string \<Rightarrow> string \<Rightarrow> Monitor dbm" where
  "PauseMonitor x i caller = flagMonitor x i caller q_PauseMonitor ''pause'' ''Monitor paused''"

definition MuteMonitor :: "extlib \<Rightarrow> string \<Rightarrow> string \<Rightarrow> Monitor dbm" where
  "MuteMonitor x i caller = flagMonitor x i caller q_MuteMonitor ''mute'' ''Alerts muted''"

definition UnmuteMonitor :: "extlib \<Rightarrow> string \<Rightarrow> string \<Rightarrow> Monitor dbm" where
  "UnmuteMonitor x i caller = flagMonitor x i caller q_UnmuteMonitor ''unmute'' ''Alerts unmuted''"

definition resumeBody :: "schedlib \<Rightarrow> extlib \<Rightarrow> uuid \<Rightarrow> uuid \<Rightarrow> gotime \<Rightarrow> Monitor dbm" where
  "resumeBody lib x iu uu t =
     bind (map_err (no_rows_404 ''store: resume: load monitor'') (query (q_GetMonitorByID iu))) (\<lambda>m.
     bind (lift_err (nextDeadlineFor lib m t)) (\<lambda>nextDeadline.
     bind (map_err (no_rows_404 ''store: resume monitor'') (query (q_ResumeMonitor nextDeadline iu uu))) (\<lambda>row.
     bind (recordEvent (m_id row) ''resume'' ''Monitor resumed'') (\<lambda>_.
     ret (toMonitor x row)))))"

definition ResumeMonitor :: "schedlib \<Rightarrow> extlib \<Rightarrow> string \<Rightarrow> string \<Rightarrow> gotime \<Rightarrow> Monitor dbm" where
  "ResumeMonitor lib x i caller t =
     bind (parseMonitorIDs x i caller) (\<lambda>(iu, uu). withTx (resumeBody lib x iu uu t))"

section \<open>Every operation keeps the schema\<close>

lemma lift_rules [tx_rules]:
  "strict (lift_err r)" "grows (lift_err r)" "keeps_all I (lift_err r)"
  "strict (uuid_or_404 x s)" "grows (uuid_or_404 x s)" "keeps_all I (uuid_or_404 x s)"
  by (auto simp: lift_err_def uuid_or_404_def intro!: tx_rules split: sum.split)

lemma parseMonitorIDs_rules [tx_rules]: "keeps_all I (parseMonitorIDs x i u)"
  unfolding parseMonitorIDs_def by (intro tx_rules)

lemma createLoop_wf [tx_rules]: "keeps_all wf_db (createLoop n x u p rands ids)"
  by (induction n) (auto intro!: tx_rules)

lemma updateBody_rules [tx_rules]:
  "strict (updateBody x iu uu p)" "grows (updateBody x iu uu p)" "keeps_all wf_db (updateBody x iu uu p)"
  unfolding updateBody_def by (auto intro!: tx_rules split: option.split)

lemma resumeBody_rules [tx_rules]:
  "strict (resumeBody lib x iu uu t)" "grows (resumeBody lib x iu uu t)"
  "keeps_all wf_db (resumeBody lib x iu uu t)"
  unfolding resumeBody_def by (auto intro!: tx_rules)

lemma flagBody_rules [tx_rules]:
  "strict (flagBody x q ty msg)" "stmt_grows q \<Longrightarrow> grows (flagBody x q ty msg)"
  "stmt_keeps wf_db q \<Longrightarrow> keeps_all wf_db (flagBody x q ty msg)"
  unfolding flagBody_def by (auto intro!: tx_rules)

lemma monitor_store_wf [tx_rules]:
  "keeps_all wf_db (CreateMonitor x cp rands ids)" "keeps_all wf_db (GetMonitor x i c)"
  "keeps_all wf_db (UpdateMonitor x i c p)" "keeps_all wf_db (DeleteMonitor x i c)"
  "keeps_all wf_db (PauseMonitor x i c)" "keeps_all wf_db (MuteMonitor x i c)"
  "keeps_all wf_db (UnmuteMonitor x i c)" "keeps_all wf_db (ResumeMonitor lib x i c t)"
  unfolding CreateMonitor_def GetMonitor_def UpdateMonitor_def DeleteMonitor_def PauseMonitor_def
    MuteMonitor_def UnmuteMonitor_def ResumeMonitor_def flagMonitor_def
  by (auto intro!: tx_rules keeps_all_withTx)

section \<open>Isolation between users\<close>

datatype mutation = Update UpdateParams | Delete | Pause | Resume gotime | Mute | Unmute

definition discard :: "'a dbm \<Rightarrow> unit dbm" where
  "discard m = bind m (\<lambda>_. ret ())"

fun mutate :: "schedlib \<Rightarrow> extlib \<Rightarrow> string \<Rightarrow> string \<Rightarrow> mutation \<Rightarrow> unit dbm" where
  "mutate lib x i caller (Update p) = discard (UpdateMonitor x i caller p)"
| "mutate lib x i caller Delete = DeleteMonitor x i caller"
| "mutate lib x i caller Pause = discard (PauseMonitor x i caller)"
| "mutate lib x i caller (Resume t) = discard (ResumeMonitor lib x i caller t)"
| "mutate lib x i caller Mute = discard (MuteMonitor x i caller)"
| "mutate lib x i caller Unmute = discard (UnmuteMonitor x i caller)"

text \<open>The rows of every user but one, with the log rows of their monitors.\<close>

definition foreign_ids :: "uuid \<Rightarrow> db \<Rightarrow> uuid set" where
  "foreign_ids u d = m_id ` {m \<in> set (monitors d). m_user_id m \<noteq> u}"

definition foreign :: "uuid \<Rightarrow> db \<Rightarrow>
  monitor_row list \<times> event_row list \<times> alert_row list \<times> checkin_row list \<times> probe_result_row list" where
  "foreign u d =
    (filter (\<lambda>m. m_user_id m \<noteq> u) (monitors d),
     filter (\<lambda>e. e_monitor_id e \<in> foreign_ids u d) (events d),
     filter (\<lambda>a. a_monitor_id a \<in> foreign_ids u d) (alerts d),
     filter (\<lambda>c. c_monitor_id c \<in> foreign_ids u d) (checkins d),
     filter (\<lambda>p. p_monitor_id p \<in> foreign_ids u d) (probe_results d))"

text \<open>An outbox row belongs to the monitor of its event.\<close>

definition alerts_match :: "db \<Rightarrow> bool" where
  "alerts_match d \<longleftrightarrow> (\<forall>a \<in> set (alerts d). \<forall>e \<in> set (events d).
     e_id e = a_event_id a \<longrightarrow> e_monitor_id e = a_monitor_id a)"

lemma foreign_ids_filter: "foreign_ids u d = m_id ` set (filter (\<lambda>m. m_user_id m \<noteq> u) (monitors d))"
  by (simp add: foreign_ids_def)

lemma filter_update_where:
  assumes "\<And>m. sel m \<Longrightarrow> m_user_id m = u" and "keeps_keys f"
  shows "filter (\<lambda>m. m_user_id m \<noteq> u) (update_where sel f ms) = filter (\<lambda>m. m_user_id m \<noteq> u) ms"
  using assms by (induction ms) (auto simp: keeps_keys_def)

lemma own_id_not_foreign:
  assumes "wf_db d" and "m \<in> set (monitors d)" and "m_user_id m = u"
  shows "m_id m \<notin> foreign_ids u d"
  using assms wf_db_monitor_unique [OF assms(1,2)] by (auto simp: foreign_ids_def)

lemma foreign_update:
  assumes "wf_db d" and "\<And>m. sel m \<Longrightarrow> m_user_id m = u" and "keeps_keys f"
  shows "foreign u (d\<lparr>monitors := update_where sel f (monitors d)\<rparr>) = foreign u d"
  by (simp add: foreign_def foreign_ids_filter filter_update_where [OF assms(2,3)])

lemma foreign_with_event:
  assumes "mid \<notin> foreign_ids u d"
  shows "foreign u (with_event mid ty msg me now d) = foreign u d"
  using assms by (simp add: foreign_def foreign_ids_def with_event_def bump_defs)

lemma foreign_tables_kept: "tables_kept d d' \<Longrightarrow> foreign u d' = foreign u d"
  by (simp add: foreign_def foreign_ids_def tables_kept_simps)

lemma foreign_ids_update:
  "(\<And>m. sel m \<Longrightarrow> m_user_id m = u) \<Longrightarrow> keeps_keys f \<Longrightarrow>
   foreign_ids u (d\<lparr>monitors := update_where sel f (monitors d)\<rparr>) = foreign_ids u d"
  by (simp add: foreign_ids_filter filter_update_where)

lemma foreign_tx:
  assumes "strict fn" and "grows fn"
    and "\<And>v d'. fn (quiet d now) = (Inr v, quiet d' now) \<Longrightarrow> foreign u d' = foreign u d"
  shows "foreign u (run_db (withTx fn) now os d) = foreign u d"
proof -
  consider (kept) "tables_kept d (run_db (withTx fn) now os d)"
    | (ran) v where "run_res (withTx fn) now [] d = Inr v" "run_db (withTx fn) now os d = run_db (withTx fn) now [] d"
    using withTx_atomic [OF assms(1,2), of now os d] by blast
  then show ?thesis
  proof cases
    case kept
    then show ?thesis by (rule foreign_tables_kept)
  next
    case (ran v)
    obtain r s' where fn: "fn (quiet d now) = (r, s')" by force
    with ran(1) have r: "r = Inr v"
      by (auto simp: run_res_def withTx_unfold split: sum.splits outcome.splits)
    with assms(1) fn have s': "s' = quiet (sdb s') now" unfolding strict_def by fastforce
    then have "run_db (withTx fn) now [] d = sdb s'"
      using fn r by (metis (no_types, lifting) old.sum.simps(6) run_db_def sess.select_convs(1) snd_conv withTx_quiet)
    moreover have "foreign u (sdb s') = foreign u d" using assms(3) fn r s' by metis
    ultimately show ?thesis using ran(2) by simp
  qed
qed

lemma owned_update_quiet:
  assumes wf: "wf_db d" and q: "q now = sql_one (update_monitors (\<lambda>m. m_id m = i \<and> m_user_id m = u) f) now"
    and keys: "keeps_keys f" and run: "query q (quiet d now) = (Inr row, quiet d' now)"
  shows "foreign u d' = foreign u d" and "foreign_ids u d' = foreign_ids u d" and "m_id row \<notin> foreign_ids u d'"
    and "has_monitor d' (m_id row)"
proof -
  let ?sel = "\<lambda>m. m_id m = i \<and> m_user_id m = u"
  have chk: "list_all (\<lambda>m. int32_range (m_fail_streak m)) (map f (filter ?sel (monitors d)))"
    "list_all monitor_checks (map f (filter ?sel (monitors d)))"
    and d': "d' = d\<lparr>monitors := update_where ?sel f (monitors d)\<rparr>"
    and row: "first_row (map f (filter ?sel (monitors d))) = Inr row"
    using run by (auto simp: tx_unfold q sql_one_def update_monitors_def Let_def
        split: if_splits sum.splits prod.splits)
  obtain m ms where fm: "filter ?sel (monitors d) = m # ms" "row = f m"
    using row by (cases "filter ?sel (monitors d)") (simp_all add: first_row_def)
  have "m \<in> set (filter ?sel (monitors d))" unfolding fm(1) by simp
  with fm(2) have m: "m \<in> set (monitors d)" "m_user_id m = u" "row = f m" by simp_all
  show "foreign u d' = foreign u d" unfolding d' by (rule foreign_update [OF wf _ keys]) simp
  show F: "foreign_ids u d' = foreign_ids u d" unfolding d' by (rule foreign_ids_update [OF _ keys]) simp
  have k: "m_id row = m_id m" using keys m(3) by (simp add: keeps_keys_def)
  show "m_id row \<notin> foreign_ids u d'"
    unfolding F k using own_id_not_foreign [OF wf m(1,2)] .
  show "has_monitor d' (m_id row)"
    using m(1) k keys by (simp add: has_monitor_def d' update_where_ids)
qed

lemma bind_quiet_Inr:
  assumes "bind m f (quiet d now) = (Inr v, quiet d' now)" and "strict m"
  obtains y d1 where "m (quiet d now) = (Inr y, quiet d1 now)" and "f y (quiet d1 now) = (Inr v, quiet d' now)"
proof -
  obtain y s where y: "m (quiet d now) = (Inr y, s)" "f y s = (Inr v, quiet d' now)"
    using assms(1) by (auto simp: bind_def split: prod.splits sum.splits)
  with assms(2) have "s = quiet (sdb s) now" unfolding strict_def by fastforce
  with y that show ?thesis by metis
qed

lemma map_err_Inr: "map_err g m s = (Inr v, s') \<longleftrightarrow> m s = (Inr v, s')"
  by (auto simp: map_err_def split: prod.splits sum.splits)

lemma recordEventMeta_foreign:
  assumes "recordEventMeta mid ty msg me (quiet d now) = (Inr v, quiet d' now)"
    and "has_monitor d mid" and "mid \<notin> foreign_ids u d"
  shows "foreign u d' = foreign u d"
  using assms(1) recordEventMeta_quiet [OF assms(2)] foreign_with_event [OF assms(3)] by auto

lemma flagBody_foreign:
  assumes "wf_db d" and "q now = sql_one (update_monitors (\<lambda>m. m_id m = i \<and> m_user_id m = u) f) now"
    and "keeps_keys f" and "flagBody x q ty msg (quiet d now) = (Inr v, quiet d' now)"
  shows "foreign u d' = foreign u d"
proof -
  obtain row d1 e where row: "query q (quiet d now) = (Inr row, quiet d1 now)"
    and "recordEvent (m_id row) ty msg (quiet d1 now) = (Inr e, quiet d' now)"
    using assms(4) unfolding flagBody_def
    by (elim bind_quiet_Inr) (auto intro!: tx_rules simp: map_err_Inr ret_def)
  with owned_update_quiet [OF assms(1-3) row] show ?thesis
    by (metis recordEventMeta_foreign recordEvent_def)
qed

lemma updateBody_foreign:
  assumes "wf_db d" and "updateBody x i u p (quiet d now) = (Inr v, quiet d' now)"
  shows "foreign u d' = foreign u d"
proof -
  obtain row d1 where row: "query (q_UpdateMonitor (update_row_params p) i u) (quiet d now) = (Inr row, quiet d1 now)"
    and rest: "(case changedFieldsMeta p of
             Some meta \<Rightarrow> bind (recordEventMeta (m_id row) ''config_change'' ''Configuration updated'' (Some meta))
                            (\<lambda>_. ret ())
           | None \<Rightarrow> ret ()) (quiet d1 now) = (Inr (), quiet d' now)"
    using assms(2) unfolding updateBody_def
    by (elim bind_quiet_Inr) (auto intro!: tx_rules simp: map_err_Inr ret_def split: option.split)
  have keys: "keeps_keys (apply_update (update_row_params p) now)"
    by (simp add: keeps_keys_def apply_update_def)
  have q: "q_UpdateMonitor (update_row_params p) i u now = sql_one (update_monitors
      (\<lambda>m. m_id m = i \<and> m_user_id m = u) (apply_update (update_row_params p) now)) now"
    by (simp add: q_UpdateMonitor_def)
  note owned = owned_update_quiet [OF assms(1) q keys row]
  show ?thesis
  proof (cases "changedFieldsMeta p")
    case None
    with rest owned show ?thesis by (simp add: ret_def)
  next
    case (Some me)
    with rest obtain e where
      "recordEventMeta (m_id row) ''config_change'' ''Configuration updated'' (Some me) (quiet d1 now) = (Inr e, quiet d' now)"
      by (auto simp: ret_def intro!: tx_rules elim!: bind_quiet_Inr)
    with owned show ?thesis by (metis recordEventMeta_foreign)
  qed
qed

lemma resumeBody_foreign:
  assumes "wf_db d" and "resumeBody lib x i u t (quiet d now) = (Inr v, quiet d' now)"
  shows "foreign u d' = foreign u d"
proof -
  obtain m dl row d1 e where "query (q_GetMonitorByID i) (quiet d now) = (Inr m, quiet d now)"
    and row: "query (q_ResumeMonitor dl i u) (quiet d now) = (Inr row, quiet d1 now)"
    and ev: "recordEvent (m_id row) ''resume'' ''Monitor resumed'' (quiet d1 now) = (Inr e, quiet d' now)"
    using assms(2) unfolding resumeBody_def
    by (elim bind_quiet_Inr)
       (auto intro!: tx_rules simp: map_err_Inr ret_def raise_def lift_err_def tx_unfold q_GetMonitorByID_def
         split: sum.splits prod.splits)
  have q: "q_ResumeMonitor dl i u now = sql_one (update_monitors (\<lambda>m. m_id m = i \<and> m_user_id m = u)
    (\<lambda>m. m\<lparr>m_paused_at := None, m_state := ''up'', m_next_deadline := dl, m_updated_at := now\<rparr>)) now"
    by (simp add: q_ResumeMonitor_def)
  have "keeps_keys (\<lambda>m. m\<lparr>m_paused_at := None, m_state := ''up'', m_next_deadline := dl, m_updated_at := now\<rparr>)"
    by (simp add: keeps_keys_def)
  from owned_update_quiet [OF assms(1) q this row] ev show ?thesis
    by (metis recordEventMeta_foreign recordEvent_def)
qed

lemma foreign_cascade:
  assumes "i \<notin> foreign_ids u d" and "alerts_match d"
  shows "foreign u (cascade_monitor i d) = foreign u d"
proof -
  have ms: "filter (\<lambda>m. m_user_id m \<noteq> u) (filter (\<lambda>m. m_id m \<noteq> i) (monitors d)) =
      filter (\<lambda>m. m_user_id m \<noteq> u) (monitors d)"
    using assms(1) by (auto simp: foreign_ids_def intro!: filter_cong)
  have ids: "foreign_ids u (cascade_monitor i d) = foreign_ids u d"
    using ms by (simp add: foreign_ids_filter cascade_monitor_def)
  have "a_event_id a \<notin> e_id ` {e \<in> set (events d). e_monitor_id e = i}"
    if "a \<in> set (alerts d)" "a_monitor_id a \<in> foreign_ids u d" for a
    using that assms by (auto simp: alerts_match_def)
  then have al: "filter (\<lambda>a. a_monitor_id a \<in> foreign_ids u d) (filter (\<lambda>a. a_monitor_id a \<noteq> i \<and>
        a_event_id a \<notin> e_id ` set (filter (\<lambda>e. e_monitor_id e = i) (events d))) (alerts d)) =
      filter (\<lambda>a. a_monitor_id a \<in> foreign_ids u d) (alerts d)"
    using assms(1) by (auto intro!: filter_cong)
  have k: "filter (\<lambda>r. key r \<in> foreign_ids u d) (filter (\<lambda>r. key r \<noteq> i) rows) =
      filter (\<lambda>r. key r \<in> foreign_ids u d) rows" for key :: "'r \<Rightarrow> uuid" and rows
    using assms(1) by (auto intro!: filter_cong)
  show ?thesis
    unfolding foreign_def ids using ms al by (simp add: cascade_monitor_def k del: filter_filter)
qed

lemma discard_run [simp]: "run_db (discard m) now os d = run_db m now os d"
  by (auto simp: discard_def run_db_def bind_def ret_def split: prod.split sum.split)

lemma parse_run:
  "run_db (bind (parseMonitorIDs x i caller) (\<lambda>(iu, uu). M iu uu)) now os d =
    (case scanUUID x i of None \<Rightarrow> d | Some iu \<Rightarrow>
     (case scanUUID x caller of None \<Rightarrow> d | Some uu \<Rightarrow> run_db (M iu uu) now os d))"
  by (simp add: run_db_def parseMonitorIDs_def uuid_or_404_def pgUUID_def bind_def ret_def raise_def split: option.split)

lemma delete_foreign:
  assumes "wf_db d" and "alerts_match d"
  shows "foreign u (run_db (bind (map_err (WrapE msg) (query (q_DeleteMonitor i u)))
     (\<lambda>n. if n = 0 then raise not_found else ret ())) now os d) = foreign u d"
proof -
  let ?m = "bind (map_err (WrapE msg) (query (q_DeleteMonitor i u))) (\<lambda>n. if n = 0 then raise not_found else ret ())"
  have "run_db ?m now os d = d \<or> run_db ?m now os d = snd (q_DeleteMonitor i u now d)"
    by (auto simp: run_db_def bind_def map_err_def query_def raise_def ret_def
        split: outcome.split prod.split sum.split)
  moreover have "foreign u (snd (q_DeleteMonitor i u now d)) = foreign u d"
  proof (cases "filter (\<lambda>m. m_id m = i \<and> m_user_id m = u) (monitors d)")
    case (Cons m ms)
    then have "m \<in> set (filter (\<lambda>m. m_id m = i \<and> m_user_id m = u) (monitors d))" by simp
    then have "i \<notin> foreign_ids u d" using own_id_not_foreign [OF assms(1)] by auto
    then show ?thesis by (simp add: q_DeleteMonitor_def Let_def foreign_cascade assms(2))
  qed (simp add: q_DeleteMonitor_def)
  ultimately show ?thesis by auto
qed

text \<open>
  C17. No update, delete, pause, resume, mute or unmute a user asks for, on any monitor id and
  whatever the connection does, changes a monitor of another user or any event, alert, check-in
  or probe row of one.
\<close>

theorem mutation_isolated:
  assumes "wf_db d" and "alerts_match d" and "scanUUID x caller = Some u"
  shows "foreign u (run_db (mutate lib x i caller op) now os d) = foreign u d"
proof (cases "scanUUID x i")
  case None
  then show ?thesis
    by (cases op) (simp_all add: UpdateMonitor_def DeleteMonitor_def PauseMonitor_def MuteMonitor_def
        UnmuteMonitor_def ResumeMonitor_def flagMonitor_def parse_run)
next
  case (Some iu)
  have flag: "foreign u (run_db (withTx (flagBody x q ty msg)) now os d) = foreign u d"
    if "q now = sql_one (update_monitors (\<lambda>m. m_id m = iu \<and> m_user_id m = u) f) now" "keeps_keys f" "stmt_grows q"
    for q f ty msg
    using that flagBody_foreign [OF assms(1), of q now iu u f x ty msg] by (intro foreign_tx tx_rules) auto
  show ?thesis
  proof (cases op)
    case (Update p)
    have "foreign u (run_db (withTx (updateBody x iu u p)) now os d) = foreign u d"
      using updateBody_foreign [OF assms(1)] by (intro foreign_tx tx_rules) auto
    then show ?thesis by (simp add: Update UpdateMonitor_def parse_run Some assms(3))
  next
    case (Resume t)
    have "foreign u (run_db (withTx (resumeBody lib x iu u t)) now os d) = foreign u d"
      using resumeBody_foreign [OF assms(1)] by (intro foreign_tx tx_rules) auto
    then show ?thesis by (simp add: Resume ResumeMonitor_def parse_run Some assms(3))
  next
    case Delete
    then show ?thesis by (simp add: DeleteMonitor_def parse_run Some assms(3) delete_foreign [OF assms(1,2)])
  next
    case Pause
    have "foreign u (run_db (withTx (flagBody x (q_PauseMonitor iu u) ''pause'' ''Monitor paused'')) now os d) = foreign u d"
      by (rule flag, rule q_PauseMonitor_def) (simp_all add: keeps_keys_def tx_rules)
    then show ?thesis by (simp add: Pause PauseMonitor_def flagMonitor_def parse_run Some assms(3))
  next
    case Mute
    have "foreign u (run_db (withTx (flagBody x (q_MuteMonitor iu u) ''mute'' ''Alerts muted'')) now os d) = foreign u d"
      by (rule flag, rule q_MuteMonitor_def) (simp_all add: keeps_keys_def tx_rules)
    then show ?thesis by (simp add: Mute MuteMonitor_def flagMonitor_def parse_run Some assms(3))
  next
    case Unmute
    have "foreign u (run_db (withTx (flagBody x (q_UnmuteMonitor iu u) ''unmute'' ''Alerts unmuted'')) now os d) = foreign u d"
      by (rule flag, rule q_UnmuteMonitor_def) (simp_all add: keeps_keys_def tx_rules)
    then show ?thesis by (simp add: Unmute UnmuteMonitor_def flagMonitor_def parse_run Some assms(3))
  qed
qed

theorem mutation_isolated_witness:
  "foreign 2 (run_db (mutate demo_lib demo_ext (show_int 7) (show_int 2) Delete) 0 [] demo_db) = foreign 2 demo_db"
proof -
  have "scanUUID demo_ext (show_int 2) = Some 2"
    using ParseInt64_show_int [of 2] by (simp add: demo_ext_def int64_range_def)
  moreover have "alerts_match demo_db" by (simp add: alerts_match_def demo_db_def empty_db_def)
  ultimately show ?thesis by (intro mutation_isolated demo_db_wf)
qed

section \<open>Slugs are unguessable\<close>

lemma digits_inject:
  fixes a a' b :: nat
  assumes "a < b ^ n" and "a' < b ^ n" and "\<And>k. k < n \<Longrightarrow> a div b ^ k mod b = a' div b ^ k mod b"
  shows "a = a'"
  using assms
proof (induction n arbitrary: a a')
  case (Suc n)
  have low: "a mod b = a' mod b" using Suc.prems(3) [of 0] by simp
  have "a div b = a' div b"
  proof (rule Suc.IH)
    show "a div b < b ^ n" "a' div b < b ^ n"
      using Suc.prems(1,2) by (simp_all add: less_mult_imp_div_less mult.commute)
    show "a div b div b ^ k mod b = a' div b div b ^ k mod b" if "k < n" for k
      using Suc.prems(3) [of "Suc k"] that by (simp add: div_mult2_eq)
  qed
  with low show ?case by (metis div_mult_mod_eq)
qed simp

definition slug_char :: "nat \<Rightarrow> char" where
  "slug_char n = lower_char (base32_char n)"

text \<open>Lower-case letters and the digits 2 to 7.\<close>

definition slug_alphabet :: "char set" where
  "slug_alphabet = {c. 97 \<le> byte c \<and> byte c \<le> 122 \<or> 50 \<le> byte c \<and> byte c \<le> 55}"

lemma byte_slug_char: "n < 32 \<Longrightarrow> byte (slug_char n) = (if n < 26 then 97 + n else 24 + n)"
  by (auto simp: slug_char_def lower_char_def base32_char_def byte_def)

lemma slug_char_inject:
  assumes "n < 32" and "m < 32" and "slug_char n = slug_char m" shows "n = m"
  using arg_cong [OF assms(3), of byte] assms(1,2) by (auto simp: byte_slug_char split: if_splits)

lemma slug_char_alphabet: "n < 32 \<Longrightarrow> slug_char n \<in> slug_alphabet"
  by (auto simp: slug_alphabet_def byte_slug_char)

definition group_value :: "nat \<Rightarrow> nat \<Rightarrow> nat \<Rightarrow> nat \<Rightarrow> nat \<Rightarrow> nat" where
  "group_value a b c e f = (((a * 256 + b) * 256 + c) * 256 + e) * 256 + f"

lemma bytes_inject:
  "b < (256::nat) \<Longrightarrow> b' < 256 \<Longrightarrow> a * 256 + b = a' * 256 + b' \<Longrightarrow> a = a' \<and> b = b'"
proof -
  assume "b < (256::nat)" "b' < 256" and eq: "a * 256 + b = a' * 256 + b'"
  then have "(a * 256 + b) div 256 = a" "(a' * 256 + b') div 256 = a'" by simp_all
  with eq show ?thesis by simp
qed

lemma group_value_inject:
  assumes "{a, b, c, e, f, a', b', c', e', f'} \<subseteq> {..<256}" and "group_value a b c e f = group_value a' b' c' e' f'"
  shows "a = a' \<and> b = b' \<and> c = c' \<and> e = e' \<and> f = f'"
proof -
  have lt: "b < 256" "c < 256" "e < 256" "f < 256" "b' < 256" "c' < 256" "e' < 256" "f' < 256"
    using assms(1) by auto
  note eq = assms(2) [unfolded group_value_def]
  note 1 = bytes_inject [OF lt(4,8) eq]
  note 2 = bytes_inject [OF lt(3,7) conjunct1 [OF 1]]
  note 3 = bytes_inject [OF lt(2,6) conjunct1 [OF 2]]
  note 4 = bytes_inject [OF lt(1,5) conjunct1 [OF 3]]
  from 1 2 3 4 show ?thesis by blast
qed

lemma group_value_bound: "{a, b, c, e, f} \<subseteq> {..<256} \<Longrightarrow> group_value a b c e f < 32 ^ 8"
  by (auto simp: group_value_def)

definition group_slug :: "nat \<Rightarrow> string" where
  "group_slug v = map (\<lambda>k. slug_char (v div 32 ^ (7 - k) mod 32)) [0..<8]"

lemma group_slug_inject:
  assumes "v < 32 ^ 8" and "v' < 32 ^ 8" and "group_slug v = group_slug v'"
  shows "v = v'"
proof (rule digits_inject [of v 32 8 v', OF assms(1,2)])
  fix k :: nat assume "k < 8"
  moreover have "[0..<8] ! (7 - k) = 7 - k" by (subst nth_upt) auto
  ultimately have "slug_char (v div 32 ^ k mod 32) = slug_char (v' div 32 ^ k mod 32)"
    using arg_cong [OF assms(3), of "\<lambda>s. s ! (7 - k)"] by (simp add: group_slug_def)
  then show "v div 32 ^ k mod 32 = v' div 32 ^ k mod 32" by (rule slug_char_inject [rotated 2]) simp_all
qed

definition group_chars :: "nat \<Rightarrow> string" where
  "group_chars v = map (\<lambda>k. base32_char (v div 32 ^ (7 - k) mod 32)) [0..<8]"

lemma base32_group: "base32_encode (a # b # c # e # f # rest) = group_chars (group_value a b c e f) @ base32_encode rest"
  by (simp only: base32_encode.simps Let_def group_chars_def group_value_def)

lemma group_chars_simps [simp]: "length (group_chars v) = 8" "map lower_char (group_chars v) = group_slug v"
  by (simp_all add: group_chars_def group_slug_def slug_char_def)

lemma slug_of_ten:
  "generateSlug (Some [a, b, c, e, f, g, h, i, j, k]) =
     Inr (group_slug (group_value a b c e f) @ group_slug (group_value g h i j k))"
  by (simp add: generateSlug_def slugLen_def base32_group del: base32_encode.simps(1))

lemma ten_bytes: "length buf = 10 \<Longrightarrow> \<exists>a b c e f g h i j k. buf = [a, b, c, e, f, g, h, i, j, k]"
  by (auto simp: numeral_eq_Suc length_Suc_conv)

text \<open>
  A slug made from ten random bytes has sixteen characters of the lower-case base32
  alphabet, and different random bytes give different slugs: all 80 bits of entropy survive.
\<close>

lemma generateSlug_entropy:
  assumes "length buf = 10" and "length buf' = 10" and "set buf \<subseteq> {..<256}" and "set buf' \<subseteq> {..<256}"
    and "generateSlug (Some buf) = Inr s" and "generateSlug (Some buf') = Inr s'"
  shows "length s = 16 \<and> set s \<subseteq> slug_alphabet \<and> (s = s' \<longleftrightarrow> buf = buf')"
proof -
  obtain a b c e f g h i j k where b1: "buf = [a, b, c, e, f, g, h, i, j, k]" using ten_bytes [OF assms(1)] by blast
  obtain a' b' c' e' f' g' h' i' j' k' where b2: "buf' = [a', b', c', e', f', g', h', i', j', k']"
    using ten_bytes [OF assms(2)] by blast
  have s: "s = group_slug (group_value a b c e f) @ group_slug (group_value g h i j k)"
    "s' = group_slug (group_value a' b' c' e' f') @ group_slug (group_value g' h' i' j' k')"
    using assms(5,6) by (simp_all add: b1 b2 slug_of_ten)
  have len: "length (group_slug v) = 8" for v by (simp add: group_slug_def)
  have "set (group_slug v) \<subseteq> slug_alphabet" for v by (auto simp: group_slug_def intro!: slug_char_alphabet)
  moreover have "buf = buf'" if "s = s'"
  proof -
    have "group_slug (group_value a b c e f) = group_slug (group_value a' b' c' e' f')"
      "group_slug (group_value g h i j k) = group_slug (group_value g' h' i' j' k')"
      using that len by (simp_all add: s)
    then have "group_value a b c e f = group_value a' b' c' e' f'" "group_value g h i j k = group_value g' h' i' j' k'"
      using assms(3,4) by (auto intro!: group_slug_inject group_value_bound simp: b1 b2)
    then show ?thesis using assms(3,4) by (auto dest!: group_value_inject [rotated] simp: b1 b2)
  qed
  ultimately show ?thesis using len assms(5,6) by (auto simp: s)
qed

lemma generateSlug_entropy_witness:
  "\<exists>s. generateSlug (Some (replicate 10 255)) = Inr s \<and> length s = 16"
proof -
  obtain s where s: "generateSlug (Some (replicate 10 255)) = Inr s" by (simp add: generateSlug_def)
  with generateSlug_entropy [of "replicate 10 255" "replicate 10 255", OF _ _ _ _ s s] show ?thesis by auto
qed

end
