(* ===== verification/Http.thy ===== *)
theory Http
  imports Monitor_Store
begin

text \<open>
  The HTTP layer's shared parts: responses and the mapping of store errors to status codes
  (src/backend/server/response.go), the fixed-window rate limiter (src/backend/store/ratelimit.go),
  the client address and the 429 answer (src/backend/server/auth.go), and the health endpoint
  (src/backend/server/health.go). A handler runs on the database session and the state of the
  Redis server; it always ends in a response.
\<close>

section \<open>Responses\<close>

text \<open>
  \<open>NoBody\<close> is \<^verbatim>\<open>writeJSON(w, status, nil)\<close>, \<open>Text\<close> the plain-text answer of the ping endpoint,
  \<open>Payload\<close> the JSON encoding of a response struct.
\<close>

datatype 'b payload = NoBody | Text string | ErrorBody string | FieldErrorBody string string | Payload 'b

record cookie =
  ck_Name :: string
  ck_Value :: string
  ck_Path :: string
  ck_Expires :: "gotime option"
  ck_MaxAge :: int
  ck_HttpOnly :: bool
  ck_Secure :: bool
  ck_SameSiteLax :: bool

record 'b response =
  rs_status :: nat
  rs_body :: "'b payload"
  rs_retry_after :: "string option"
  rs_cookie :: "cookie option"

type_synonym ('r, 'b) handler = "sess \<times> 'r \<Rightarrow> 'b response \<times> sess \<times> 'r"

definition writeJSON :: "nat \<Rightarrow> 'b payload \<Rightarrow> 'b response" where
  "writeJSON status v = \<lparr>rs_status = status, rs_body = v, rs_retry_after = None, rs_cookie = None\<rparr>"

definition errorResponse :: "nat \<Rightarrow> string \<Rightarrow> 'b response" where
  "errorResponse status msg = writeJSON status (ErrorBody msg)"

text \<open>The texts of the store's sentinel errors.\<close>

fun sentinel_text :: "sentinel \<Rightarrow> string" where
  "sentinel_text ErrEmailTaken = ''email already registered''"
| "sentinel_text ErrRegistrationClosed = ''registration is closed''"
| "sentinel_text ErrInvalidCredentials = ''invalid email or password''"
| "sentinel_text ErrInvalidRefreshToken = ''invalid or expired refresh token''"
| "sentinel_text ErrRefreshReuse = ''refresh token reuse detected''"
| "sentinel_text ErrNotFound = ''resource not found''"
| "sentinel_text ErrForbidden = ''forbidden''"
| "sentinel_text (ErrText s) = s"

text \<open>\<^verbatim>\<open>errors.AsType[storeError]\<close>: the first error of the chain that carries a status.\<close>

fun as_storeError :: "gerror \<Rightarrow> (nat \<times> string) option" where
  "as_storeError (HttpE e status) = Some (status, sentinel_text e)"
| "as_storeError (WrapE _ e) = as_storeError e"
| "as_storeError _ = None"

definition writeError :: "gerror \<Rightarrow> 'b response" where
  "writeError err = (case as_storeError err of
      Some (status, message) \<Rightarrow> errorResponse status message
    | None \<Rightarrow> errorResponse 500 ''internal server error'')"

text \<open>
  \<open>call m k\<close> is a store call followed by \<^verbatim>\<open>if err != nil { writeError(w, r, err); return }\<close> and
  the rest of the handler; \<open>reply\<close> writes the answer.
\<close>

definition call :: "'a dbm \<Rightarrow> ('a \<Rightarrow> ('r, 'b) handler) \<Rightarrow> ('r, 'b) handler" where
  "call m k w = (case m (fst w) of
      (Inl e, s) \<Rightarrow> (writeError e, s, snd w) | (Inr v, s) \<Rightarrow> k v (s, snd w))"

definition reply :: "'b response \<Rightarrow> ('r, 'b) handler" where
  "reply rsp w = (rsp, w)"

section \<open>Rate limiting\<close>

text \<open>
  The Redis client is third-party code: three commands on a server state. An error is its
  text.
\<close>

record 'r redis =
  Incr :: "string \<Rightarrow> 'r \<Rightarrow> (string + int) \<times> 'r"
  Expire :: "string \<Rightarrow> duration \<Rightarrow> 'r \<Rightarrow> string option \<times> 'r"
  TTL :: "string \<Rightarrow> 'r \<Rightarrow> (string + duration) \<times> 'r"

text \<open>The result: allowed, retryAfter and the error (None for nil).\<close>

definition Allow ::
  "'r redis option \<Rightarrow> string \<Rightarrow> int \<Rightarrow> duration \<Rightarrow> 'r \<Rightarrow> (bool \<times> duration \<times> gerror option) \<times> 'r" where
  "Allow redis key limit window r =
    (case redis of
       None \<Rightarrow> ((True, 0, None), r)
     | Some c \<Rightarrow>
         (case Incr c key r of
            (Inl e, r1) \<Rightarrow> ((True, 0, Some (WrapE ''store: rate limit incr'' (MsgE e))), r1)
          | (Inr count, r1) \<Rightarrow>
              (case (if count = 1 then Expire c key window r1 else (None, r1)) of
                 (Some e, r2) \<Rightarrow> ((True, 0, Some (WrapE ''store: rate limit expire'' (MsgE e))), r2)
               | (None, r2) \<Rightarrow>
                   if count > limit
                   then (case TTL c key r2 of
                           (Inl _, r3) \<Rightarrow> ((False, window, None), r3)
                         | (Inr ttl, r3) \<Rightarrow> ((False, if ttl < 0 then window else ttl, None), r3))
                   else ((True, 0, None), r2))))"

text \<open>\<^verbatim>\<open>strconv.Itoa(int(retryAfter.Seconds()))\<close>: whole seconds, towards zero.\<close>

definition writeRateLimited :: "duration \<Rightarrow> 'b response" where
  "writeRateLimited retryAfter =
    (errorResponse 429 ''too many attempts, try again later'')
      \<lparr>rs_retry_after := Some (show_int (retryAfter sdiv Second))\<rparr>"

text \<open>A limiter error is logged; only a refusal ends the request.\<close>

definition limited ::
  "'r redis option \<Rightarrow> string \<Rightarrow> int \<Rightarrow> duration \<Rightarrow> ('r, 'b) handler \<Rightarrow> ('r, 'b) handler" where
  "limited redis key limit window k w =
    (case Allow redis key limit window (snd w) of
       ((allowed, retryAfter, _), r) \<Rightarrow>
         if allowed then k (fst w, r) else (writeRateLimited retryAfter, fst w, r))"

subsection \<open>The client address\<close>

definition index_of :: "char \<Rightarrow> string \<Rightarrow> nat option" where
  "index_of c s = (if c \<in> set s then Some (length (takeWhile (\<lambda>d. d \<noteq> c) s)) else None)"

definition last_index_of :: "char \<Rightarrow> string \<Rightarrow> nat option" where
  "last_index_of c s = map_option (\<lambda>i. length s - 1 - i) (index_of c (rev s))"

text \<open>\<^verbatim>\<open>net.SplitHostPort\<close>: the host part, or None for an error.\<close>

definition SplitHostPort :: "string \<Rightarrow> (string \<times> string) option" where
  "SplitHostPort s =
    (case last_index_of (CHR '':'') s of
       None \<Rightarrow> None
     | Some i \<Rightarrow>
         (let bracketed = (hd s = CHR ''['') in
          if bracketed then
            (case index_of (CHR '']'') s of
               None \<Rightarrow> None
             | Some e \<Rightarrow> if e + 1 \<noteq> i then None
                         else if CHR ''['' \<in> set (drop 1 s) \<or> CHR '']'' \<in> set (drop (e + 1) s) then None
                         else Some (take (e - 1) (drop 1 s), drop (i + 1) s))
          else if CHR '':'' \<in> set (take i s) then None
          else if CHR ''['' \<in> set s \<or> CHR '']'' \<in> set s then None
          else Some (take i s, drop (i + 1) s)))"

definition clientIP :: "string \<Rightarrow> string" where
  "clientIP remoteAddr = (case SplitHostPort remoteAddr of None \<Rightarrow> remoteAddr | Some (host, _) \<Rightarrow> host)"

section \<open>Health\<close>

definition heartbeatStaleAfter :: duration where
  "heartbeatStaleAfter = 60 * Second"

record componentStatus =
  cs_Status :: string
  cs_Error :: string

record healthResponse =
  hr_Status :: string
  hr_Components :: "(string \<times> componentStatus) list"

text \<open>What \<^verbatim>\<open>GET worker:heartbeat:<role>\<close> answers.\<close>

datatype heartbeat = HbNil | HbError string | HbValue string

text \<open>\<^verbatim>\<open>time.Unix(ts, 0)\<close>; the shift to Go's epoch wraps at 64 bits.\<close>

definition time_Unix :: "int \<Rightarrow> gotime" where
  "time_Unix ts = wrap64 (ts + 62135596800) * Second"

text \<open>\<^verbatim>\<open>Duration.String\<close> of a whole number of seconds, 60 or more.\<close>

definition duration_text :: "duration \<Rightarrow> string" where
  "duration_text a = (let s = a div Second in
     (if s \<ge> 3600 then show_int (s div 3600) @ ''h'' else '''') @
     show_int (s mod 3600 div 60) @ ''m'' @ show_int (s mod 60) @ ''s'')"

definition workerHeartbeatStatus :: "gotime \<Rightarrow> heartbeat \<Rightarrow> componentStatus \<times> bool" where
  "workerHeartbeatStatus now hb =
    (case hb of
       HbNil \<Rightarrow> (\<lparr>cs_Status = ''unknown'', cs_Error = ''''\<rparr>, True)
     | HbError e \<Rightarrow> (\<lparr>cs_Status = ''unknown'', cs_Error = e\<rparr>, True)
     | HbValue raw \<Rightarrow>
         (case ParseInt64 raw of
            None \<Rightarrow> (\<lparr>cs_Status = ''unknown'', cs_Error = ''invalid heartbeat value''\<rparr>, True)
          | Some ts \<Rightarrow>
              (let age = time_Sub now (time_Unix ts) in
               if age > heartbeatStaleAfter
               then (\<lparr>cs_Status = ''down'', cs_Error = ''last tick '' @ duration_text (time_Truncate age Second) @ '' ago''\<rparr>, False)
               else (\<lparr>cs_Status = ''up'', cs_Error = ''''\<rparr>, True))))"

definition ping_status :: "string option \<Rightarrow> componentStatus" where
  "ping_status err = (case err of None \<Rightarrow> \<lparr>cs_Status = ''up'', cs_Error = ''''\<rparr>
     | Some e \<Rightarrow> \<lparr>cs_Status = ''down'', cs_Error = e\<rparr>)"

definition health_roles :: "string list" where
  "health_roles = [''scheduler'', ''prober'', ''alerter'']"

text \<open>
  \<open>db\<close> and \<open>rd\<close> are None when the dependency is nil, else the error of its ping (None when it
  answers); \<open>beats\<close> is what Redis holds for each role.
\<close>

definition healthHandler ::
  "string option option \<Rightarrow> string option option \<Rightarrow> (string \<Rightarrow> heartbeat) \<Rightarrow> gotime \<Rightarrow> healthResponse response" where
  "healthHandler db rd beats now =
    (let postgres = (case db of None \<Rightarrow> [] | Some e \<Rightarrow> [(''postgres'', ping_status e)]);
         rds = (case rd of None \<Rightarrow> [] | Some e \<Rightarrow> [(''redis'', ping_status e)]);
         roles = (if rd = Some None then map (\<lambda>role. (role, workerHeartbeatStatus now (beats role))) health_roles else []);
         overallOK = ((case db of Some (Some _) \<Rightarrow> False | _ \<Rightarrow> True) \<and> list_all (\<lambda>(_, _, healthy). healthy) roles);
         components = postgres @ rds @ map (\<lambda>(role, cs, _). (role, cs)) roles in
     if overallOK then writeJSON 200 (Payload \<lparr>hr_Status = ''ok'', hr_Components = components\<rparr>)
     else writeJSON 503 (Payload \<lparr>hr_Status = ''degraded'', hr_Components = components\<rparr>))"

section \<open>Errors never leak internals\<close>

lemma call_Inl: "m (fst w) = (Inl e, s) \<Longrightarrow> call m k w = (writeError e, s, snd w)"
  by (simp add: call_def)

lemma call_Inr: "m (fst w) = (Inr v, s) \<Longrightarrow> call m k w = k v (s, snd w)"
  by (simp add: call_def)

lemma writeError_status:
  "rs_status (writeError err) = (case as_storeError err of Some (status, _) \<Rightarrow> status | None \<Rightarrow> 500)"
  by (simp add: writeError_def errorResponse_def writeJSON_def split: option.split prod.split)

lemma writeError_plain [simp]:
  "as_storeError err = None \<Longrightarrow> writeError err = errorResponse 500 ''internal server error''"
  by (simp add: writeError_def)

section \<open>The limiter counts a window\<close>

text \<open>
  INCR within one window: it adds one to the key's counter and answers the new value; EXPIRE
  and TTL do not change the counter.
\<close>

definition counting :: "'r redis \<Rightarrow> string \<Rightarrow> ('r \<Rightarrow> int) \<Rightarrow> bool" where
  "counting c key n \<longleftrightarrow> (\<forall>r. fst (Incr c key r) = Inr (n r + 1) \<and> n (snd (Incr c key r)) = n r + 1 \<and>
     (\<forall>w. n (snd (Expire c key w r)) = n r) \<and> n (snd (TTL c key r)) = n r)"

text \<open>The verdicts of k calls in a row.\<close>

fun verdicts :: "'r redis option \<Rightarrow> string \<Rightarrow> int \<Rightarrow> duration \<Rightarrow> nat \<Rightarrow> 'r \<Rightarrow> bool list" where
  "verdicts c key limit window 0 r = []"
| "verdicts c key limit window (Suc k) r =
     (let ((allowed, _, _), r') = Allow c key limit window r in allowed # verdicts c key limit window k r')"

lemma Allow_step:
  assumes "counting c key n" and "1 \<le> limit"
  shows "fst (fst (Allow (Some c) key limit window r)) \<longleftrightarrow> n r < limit"
    and "n (snd (Allow (Some c) key limit window r)) = n r + 1"
proof -
  obtain r1 where i: "Incr c key r = (Inr (n r + 1), r1)" "n r1 = n r + 1"
    using assms(1) by (metis counting_def prod.collapse)
  have e: "n (snd (Expire c key window r1)) = n r1" "\<And>r2. n (snd (TTL c key r2)) = n r2"
    using assms(1) by (simp_all add: counting_def)
  show "fst (fst (Allow (Some c) key limit window r)) \<longleftrightarrow> n r < limit"
    using assms(2) i by (auto simp: Allow_def split: prod.split sum.split option.split)
  show "n (snd (Allow (Some c) key limit window r)) = n r + 1"
    using i e by (auto simp: Allow_def split: prod.splits sum.splits option.splits)
      (metis snd_conv)+
qed

lemma verdicts_from:
  assumes "counting c key n" and "1 \<le> limit"
  shows "verdicts (Some c) key limit window k r = map (\<lambda>i. n r + int i < limit) [0..<k]"
proof (induction k arbitrary: r)
  case (Suc k)
  obtain a t e r' where A: "Allow (Some c) key limit window r = ((a, t, e), r')" by (metis prod.collapse)
  have "a \<longleftrightarrow> n r < limit" "n r' = n r + 1" using Allow_step [OF assms, of window r] A by simp_all
  with Suc [of r'] A show ?case
    by (simp add: upt_conv_Cons map_Suc_upt [symmetric] add.assoc del: upt_Suc)
qed simp

text \<open>
  C13. The rate limiter admits exactly the first \<open>limit\<close> calls of a window, whatever EXPIRE and
  TTL answer. Only the very first call of a window sends EXPIRE: from the second call on the
  verdict, the retry delay and the server state do not depend on that command, so when the
  first EXPIRE is lost nothing sets the expiry later and the counter keeps refusing.
\<close>

theorem rate_limit_window:
  assumes "counting c key n" and "1 \<le> limit"
  shows "(n r = 0 \<longrightarrow> verdicts (Some c) key limit window k r = map (\<lambda>i. int i < limit) [0..<k]) \<and>
    (1 \<le> n r \<longrightarrow> Allow (Some (c\<lparr>Expire := f\<rparr>)) key limit window r = Allow (Some c) key limit window r)"
proof (intro conjI impI)
  show "verdicts (Some c) key limit window k r = map (\<lambda>i. int i < limit) [0..<k]" if "n r = 0"
    using verdicts_from [OF assms, of window k r] that by simp
  assume "1 \<le> n r"
  moreover obtain r1 where "Incr c key r = (Inr (n r + 1), r1)"
    using assms(1) by (metis counting_def prod.collapse)
  ultimately show "Allow (Some (c\<lparr>Expire := f\<rparr>)) key limit window r = Allow (Some c) key limit window r"
    by (simp add: Allow_def)
qed

definition demo_redis :: "int redis" where
  "demo_redis = \<lparr>Incr = \<lambda>_ r. (Inr (r + 1), r + 1), Expire = \<lambda>_ _ r. (Some ''EOF'', r), TTL = \<lambda>_ r. (Inr (-1), r)\<rparr>"

lemma demo_counting: "counting demo_redis key (\<lambda>r. r)"
  by (simp add: counting_def demo_redis_def)

theorem rate_limit_window_witness:
  "verdicts (Some demo_redis) ''rate:login:1.2.3.4'' 2 Minute 4 0 = [True, True, False, False]"
  using rate_limit_window [OF demo_counting [of "''rate:login:1.2.3.4''"], of 2 0 Minute 4]
  by (simp add: numeral_eq_Suc)

section \<open>When health fails\<close>

text \<open>A worker is wedged when its heartbeat can be read and lies more than a minute back.\<close>

definition wedged :: "gotime \<Rightarrow> heartbeat \<Rightarrow> bool" where
  "wedged now hb \<longleftrightarrow> (\<exists>raw ts. hb = HbValue raw \<and> ParseInt64 raw = Some ts \<and> time_Unix ts < now - 60 * Second)"

lemma healthy_iff: "snd (workerHeartbeatStatus now hb) \<longleftrightarrow> \<not> wedged now hb"
proof (cases hb)
  case (HbValue raw)
  have "heartbeatStaleAfter < time_Sub now t \<longleftrightarrow> t < now - 60 * Second" for t
    by (auto simp: heartbeatStaleAfter_def time_Sub_def Second_def min_int64_def max_int64_def)
  with HbValue show ?thesis
    by (auto simp: workerHeartbeatStatus_def wedged_def Let_def split: option.split)
qed (simp_all add: workerHeartbeatStatus_def wedged_def)

lemma health_answer:
  "rs_status (healthHandler db rd beats now) =
    (if (\<exists>e. db = Some (Some e)) \<or>
        rd = Some None \<and> (wedged now (beats ''scheduler'') \<or> wedged now (beats ''prober'') \<or> wedged now (beats ''alerter''))
     then 503 else 200)"
  by (auto simp: healthHandler_def Let_def writeJSON_def health_roles_def case_prod_unfold healthy_iff
      split: option.split)

end
