(* ===== verification/Calendar.thy ===== *)
theory Calendar
  imports Schedule
begin

text \<open>
  Calendar dates of package time: the proleptic Gregorian date of an instant in UTC and its
  RFC 3339 text, used by the certificate warning (src/backend/store/prober.go) and by the day
  arithmetic of the rollup (src/backend/worker/rollup/rollup.go). Day 0 is 1 January of year 1,
  the day of Go's zero time.
\<close>

section \<open>Dates\<close>

definition is_leap :: "int \<Rightarrow> bool" where
  "is_leap y \<longleftrightarrow> y mod 4 = 0 \<and> (y mod 100 \<noteq> 0 \<or> y mod 400 = 0)"

definition days_before_year :: "int \<Rightarrow> int" where
  "days_before_year y = (y - 1) * 365 + (y - 1) div 4 - (y - 1) div 100 + (y - 1) div 400"

definition month_lengths :: "int \<Rightarrow> int list" where
  "month_lengths y = [31, if is_leap y then 29 else 28, 31, 30, 31, 30, 31, 31, 30, 31, 30, 31]"

fun month_of_yday :: "int list \<Rightarrow> int \<Rightarrow> int \<Rightarrow> int \<times> int" where
  "month_of_yday (l # ls) m yday =
     (if yday < l \<or> ls = [] then (m, yday + 1) else month_of_yday ls (m + 1) (yday - l))"
| "month_of_yday [] m yday = (m, yday + 1)"

definition year_of_days :: "int \<Rightarrow> int \<times> int" where
  "year_of_days n =
    (let n400 = n div 146097; r400 = n mod 146097;
         n100 = min 3 (r400 div 36524); r100 = r400 - n100 * 36524;
         n4 = r100 div 1461; r4 = r100 mod 1461;
         n1 = min 3 (r4 div 365); yday = r4 - n1 * 365 in
     (n400 * 400 + n100 * 100 + n4 * 4 + n1 + 1, yday))"

definition date_of_days :: "int \<Rightarrow> int \<times> int \<times> int" where
  "date_of_days n = (let (y, yday) = year_of_days n; (m, dd) = month_of_yday (month_lengths y) 1 yday in
     (y, m, dd))"

definition days_of_date :: "int \<Rightarrow> int \<Rightarrow> int \<Rightarrow> int" where
  "days_of_date y m dd = days_before_year y + sum_list (take (nat (m - 1)) (month_lengths y)) + dd - 1"

section \<open>RFC 3339\<close>

definition pad_left :: "nat \<Rightarrow> string \<Rightarrow> string" where
  "pad_left w s = replicate (w - length s) (CHR ''0'') @ s"

definition show_padded :: "nat \<Rightarrow> int \<Rightarrow> string" where
  "show_padded w i = (if i < 0 then CHR ''-'' # pad_left w (show_int (- i)) else pad_left w (show_int i))"

definition format_RFC3339 :: "gotime \<Rightarrow> string" where
  "format_RFC3339 t =
    (let (y, m, dd) = date_of_days (t div Day); s = t mod Day div Second in
     show_padded 4 y @ ''-'' @ show_padded 2 m @ ''-'' @ show_padded 2 dd @ ''T'' @
     show_padded 2 (s div 3600) @ '':'' @ show_padded 2 (s mod 3600 div 60) @ '':'' @
     show_padded 2 (s mod 60) @ ''Z'')"

section \<open>The date determines the day\<close>

lemma min_quotient:
  fixes r k m :: int
  assumes "0 < k"
  shows "0 \<le> r - min m (r div k) * k" and "r < (m + 1) * k + 1 \<Longrightarrow> r - min m (r div k) * k \<le> k"
proof -
  have d: "r = r div k * k + r mod k" "0 \<le> r mod k" "r mod k < k" using assms by simp_all
  have l: "min m (r div k) * k \<le> r div k * k" using assms by simp
  with d show "0 \<le> r - min m (r div k) * k" by linarith
  assume r: "r < (m + 1) * k + 1"
  show "r - min m (r div k) * k \<le> k"
  proof (cases "r div k \<le> m")
    case True
    then have "min m (r div k) = r div k" by simp
    then show ?thesis using d by (metis add_diff_cancel_left' less_imp_le)
  next
    case False
    then have "min m (r div k) = m" by simp
    with r show ?thesis by (simp add: algebra_simps)
  qed
qed

lemma year_of_days_correct:
  assumes "year_of_days n = (y, yday)"
  shows "days_before_year y + yday = n" and "0 \<le> yday" and "yday < 366"
proof -
  define a where "a = n div 146097"
  define r where "r = n mod 146097"
  define b where "b = min 3 (r div 36524)"
  define q where "q = r - b * 36524"
  define c where "c = q div 1461"
  define p where "p = q mod 1461"
  define e where "e = min 3 (p div 365)"
  have n: "n = a * 146097 + r" "0 \<le> r" "r < 146097" by (simp_all add: a_def r_def)
  have b: "0 \<le> b" "b \<le> 3" using n(2) by (auto simp: b_def pos_imp_zdiv_nonneg_iff)
  have q: "0 \<le> q" "q \<le> 36524"
    using min_quotient [of r 36524 3] n(2,3) by (simp_all add: q_def b_def)
  have c: "q = c * 1461 + p" "0 \<le> p" "p < 1461" "0 \<le> c" "c \<le> 24"
    using q by (auto simp: c_def p_def pos_imp_zdiv_nonneg_iff)
  have e: "0 \<le> e" "e \<le> 3" using c(2) by (auto simp: e_def pos_imp_zdiv_nonneg_iff)
  have y: "y - 1 = 400 * a + 100 * b + 4 * c + e" and yd: "yday = p - e * 365"
    using assms unfolding year_of_days_def Let_def a_def [symmetric] r_def [symmetric] b_def [symmetric]
      q_def [symmetric] c_def [symmetric] p_def [symmetric] e_def [symmetric] by simp_all
  have d4: "(y - 1) div 4 = 100 * a + 25 * b + c" by (rule int_div_pos_eq [of _ _ _ e]) (use y e in auto)
  have d100: "(y - 1) div 100 = 4 * a + b" by (rule int_div_pos_eq [of _ _ _ "4 * c + e"]) (use y e c in auto)
  have d400: "(y - 1) div 400 = a" by (rule int_div_pos_eq [of _ _ _ "100 * b + 4 * c + e"]) (use y e c b in auto)
  show "days_before_year y + yday = n"
    unfolding days_before_year_def d4 d100 d400 using y yd n(1) c(1) by (simp add: q_def)
  show "0 \<le> yday" and "yday < 366"
    using min_quotient [of p 365 3] c(2,3) yd by (simp_all add: e_def)
qed

lemma month_of_yday_correct:
  assumes "month_of_yday ls m0 yday = (m, dd)" and "ls \<noteq> []"
  shows "m0 \<le> m \<and> m < m0 + int (length ls) \<and> sum_list (take (nat (m - m0)) ls) + dd - 1 = yday"
  using assms
proof (induction ls m0 yday rule: month_of_yday.induct)
  case (1 l ls m0 yday)
  show ?case
  proof (cases "yday < l \<or> ls = []")
    case False
    with 1 have IH: "m0 + 1 \<le> m \<and> m < m0 + 1 + int (length ls) \<and>
        sum_list (take (nat (m - (m0 + 1))) ls) + dd - 1 = yday - l" by auto
    moreover from IH have "nat (m - m0) = Suc (nat (m - (m0 + 1)))" by auto
    ultimately show ?thesis by simp
  qed (use 1 in auto)
qed simp

text \<open>
  The calendar date computed for a day number is the date of that day: reading it back
  gives the day number again, so two instants on different UTC days never print the same date.
\<close>

lemma days_of_date_of_days:
  "(case date_of_days n of (y, m, dd) \<Rightarrow> days_of_date y m dd) = n"
proof -
  obtain y yday where y: "year_of_days n = (y, yday)" by force
  obtain m dd where m: "month_of_yday (month_lengths y) 1 yday = (m, dd)" by force
  from month_of_yday_correct [OF m] year_of_days_correct(1) [OF y] show ?thesis
    by (simp add: date_of_days_def y m days_of_date_def month_lengths_def)
qed

end
