(* ===== verification/Prober.thy ===== *)
theory Prober
  imports Monitor_Store Calendar
begin

text \<open>
  HTTP probes: src/backend/store/prober.go and the probe pass of
  src/backend/worker/prober/prober.go. A probe works on the monitor as the claim saw it; its
  outcome carries the prior state, streak and certificate warning, and \<open>RecordProbeResult\<close>
  applies the confirmation threshold to those in one transaction.
\<close>

section \<open>Model\<close>

definition store_ClaimDueProbes :: "extlib \<Rightarrow> (uuid \<Rightarrow> bool) \<Rightarrow> gotime \<Rightarrow> int \<Rightarrow> Monitor list dbm" where
  "store_ClaimDueProbes x locked t limit =
     bind (map_err (WrapE ''store: claim due probes'') (query (q_ClaimDueProbes locked t limit)))
       (\<lambda>rows. ret (map (toMonitor x) rows))"

record ProbeOutcome =
  po_MonitorID :: string
  po_OK :: bool
  po_HTTPStatus :: "int option"
  po_LatencyMS :: "int option"
  po_Error :: string
  po_TLSExpiresAt :: "gotime option"
  po_FailThreshold :: int
  po_PriorState :: string
  po_PriorFailStreak :: int
  po_PriorTLSWarnedExpiresAt :: "gotime option"
  po_NextProbeAt :: gotime
  po_Now :: gotime

definition tlsWarningWindow :: duration where
  "tlsWarningWindow = 14 * 24 * Hour"

record RecordProbeResultResult =
  pr_State :: string
  pr_Transition :: string

definition nextProbeState :: "ProbeOutcome \<Rightarrow> string \<times> int" where
  "nextProbeState po =
    (if po_OK po then (''up'', 0)
     else let failStreak = wrap32 (po_PriorFailStreak po + 1);
              threshold = (if po_FailThreshold po \<le> 0 then 2 else po_FailThreshold po) in
       if failStreak \<ge> threshold then (''down'', failStreak)
       else if po_PriorState po = '''' then (''up'', failStreak)
       else (po_PriorState po, failStreak))"

definition probeFailureMessage :: "ProbeOutcome \<Rightarrow> string" where
  "probeFailureMessage po = (if po_Error po = '''' then ''Monitor failed its probe''
     else ''Monitor failed its probe: '' @ po_Error po)"

text \<open>The clock is only read when the outcome has no instant of its own.\<close>

definition maybeWarnTLSExpiry :: "gotime \<Rightarrow> uuid \<Rightarrow> ProbeOutcome \<Rightarrow> unit dbm" where
  "maybeWarnTLSExpiry wallclock mid po =
    (case po_TLSExpiresAt po of
       None \<Rightarrow> ret ()
     | Some expires \<Rightarrow>
        (let now = (if time_IsZero (po_Now po) then wallclock else po_Now po) in
         if time_Sub expires now > tlsWarningWindow then ret ()
         else if (case po_PriorTLSWarnedExpiresAt po of None \<Rightarrow> False
                  | Some w \<Rightarrow> time_Truncate w Second = time_Truncate expires Second) then ret ()
         else
           bind (recordEventMeta mid ''tls_expiry'' (''TLS certificate expires '' @ format_RFC3339 expires)
                  (Some (MetaTLS expires))) (\<lambda>event.
           bind (map_err (WrapE ''store: insert tls_expiry alert'')
                  (query (q_InsertAlert mid (e_id event) alertChannelDefault))) (\<lambda>_.
           bind (map_err (WrapE ''store: set tls warned expiry'')
                  (query (q_SetTLSWarnedExpiry (Some expires) mid))) (\<lambda>_.
           ret ())))))"

definition probe_transition :: "ProbeOutcome \<Rightarrow> (string \<times> string) option" where
  "probe_transition po = (let newState = fst (nextProbeState po) in
     if newState = ''down'' \<and> po_PriorState po \<noteq> ''down'' then Some (''down'', probeFailureMessage po)
     else if newState = ''up'' \<and> po_PriorState po = ''down'' then Some (''up'', ''Monitor recovered'')
     else None)"

definition recordBody :: "extlib \<Rightarrow> gotime \<Rightarrow> ProbeOutcome \<Rightarrow> RecordProbeResultResult dbm" where
  "recordBody x wallclock po =
     bind (lift_err (pgUUID x (po_MonitorID po))) (\<lambda>mid.
     bind (map_err (WrapE ''store: insert probe result'')
            (query (q_InsertProbeResult mid (po_OK po) (po_HTTPStatus po) (po_LatencyMS po)
                      (textOrNull (po_Error po)) (po_TLSExpiresAt po)))) (\<lambda>_.
     let (newState, newFailStreak) = nextProbeState po in
     bind (map_err (WrapE ''store: update monitor on probe'')
            (query (q_UpdateMonitorOnProbe newState newFailStreak (Some (po_NextProbeAt po)) mid))) (\<lambda>_.
     bind (case probe_transition po of
             None \<Rightarrow> ret ''''
           | Some (ty, msg) \<Rightarrow> bind (recordTransition mid ty msg) (\<lambda>_. ret ty)) (\<lambda>transition.
     bind (maybeWarnTLSExpiry wallclock mid po) (\<lambda>_.
     ret \<lparr>pr_State = newState, pr_Transition = transition\<rparr>)))))"

definition RecordProbeResult :: "extlib \<Rightarrow> gotime \<Rightarrow> ProbeOutcome \<Rightarrow> RecordProbeResultResult dbm" where
  "RecordProbeResult x wallclock po = withTx (recordBody x wallclock po)"

subsection \<open>The probe pass\<close>

definition prober_claimLimit :: int where
  "prober_claimLimit = 500"

definition defaultFailThreshold :: int where
  "defaultFailThreshold = 2"

definition int32Or :: "int option \<Rightarrow> int \<Rightarrow> int" where
  "int32Or v def = (case v of None \<Rightarrow> def | Some i \<Rightarrow> i)"

text \<open>What \<^verbatim>\<open>runProbe\<close> observed: the HTTP client and the network are arguments here.\<close>

record probeResult =
  ob_OK :: bool
  ob_HTTPStatus :: "int option"
  ob_LatencyMS :: int
  ob_Error :: string
  ob_TLSExpiresAt :: "gotime option"

definition probe_outcome :: "Monitor \<Rightarrow> probeResult \<Rightarrow> gotime \<Rightarrow> ProbeOutcome" where
  "probe_outcome m result now =
    \<lparr>po_MonitorID = mo_ID m, po_OK = ob_OK result, po_HTTPStatus = ob_HTTPStatus result,
     po_LatencyMS = Some (ob_LatencyMS result), po_Error = ob_Error result,
     po_TLSExpiresAt = ob_TLSExpiresAt result,
     po_FailThreshold = int32Or (mo_FailThreshold m) defaultFailThreshold,
     po_PriorState = mo_State m, po_PriorFailStreak = mo_FailStreak m,
     po_PriorTLSWarnedExpiresAt = mo_TLSWarnedExpiresAt m,
     po_NextProbeAt = now + seconds_of (int32Or (mo_IntervalS m) 60), po_Now = now\<rparr>"

text \<open>
  \<open>probeOne\<close>: a monitor whose http_config does not decode is skipped (\<open>None\<close>); otherwise the
  observation is recorded and an error of the store is only logged.
\<close>

definition probeOne :: "extlib \<Rightarrow> Monitor \<Rightarrow> (probeResult \<times> gotime) option \<Rightarrow> unit dbm" where
  "probeOne x m observed =
    (case observed of
       None \<Rightarrow> ret ()
     | Some (result, now) \<Rightarrow>
         catch (bind (RecordProbeResult x now (probe_outcome m result now)) (\<lambda>_. ret ())) (\<lambda>_. ret ()))"

text \<open>
  The probes of one pass run concurrently; they touch different monitors, and the model runs
  them in the order of the claim.
\<close>

fun probeAll :: "extlib \<Rightarrow> (Monitor \<Rightarrow> (probeResult \<times> gotime) option) \<Rightarrow> Monitor list \<Rightarrow> unit dbm" where
  "probeAll x observe [] = ret ()"
| "probeAll x observe (m # ms) = bind (probeOne x m (observe m)) (\<lambda>_. probeAll x observe ms)"

definition prober_tick ::
  "extlib \<Rightarrow> (uuid \<Rightarrow> bool) \<Rightarrow> gotime \<Rightarrow> (Monitor \<Rightarrow> (probeResult \<times> gotime) option) \<Rightarrow> unit dbm" where
  "prober_tick x locked t observe =
     bind (store_ClaimDueProbes x locked t prober_claimLimit) (probeAll x observe)"

section \<open>Every body is strict, grows the sequences and keeps the schema\<close>

lemma maybeWarnTLSExpiry_rules [tx_rules]:
  "strict (maybeWarnTLSExpiry w i po)" "grows (maybeWarnTLSExpiry w i po)"
  "keeps_all wf_db (maybeWarnTLSExpiry w i po)"
  unfolding maybeWarnTLSExpiry_def Let_def by (auto intro!: tx_rules split: option.split)

lemma recordBody_rules [tx_rules]:
  "strict (recordBody x w po)" "grows (recordBody x w po)" "keeps_all wf_db (recordBody x w po)"
  unfolding recordBody_def Let_def
  by (auto intro!: tx_rules split: option.split prod.split)

lemma RecordProbeResult_wf [tx_rules]: "keeps_all wf_db (RecordProbeResult x w po)"
  unfolding RecordProbeResult_def by (intro keeps_all_withTx tx_rules)

lemma probeOne_wf [tx_rules]: "keeps_all wf_db (probeOne x m ob)"
  unfolding probeOne_def by (auto intro!: tx_rules split: option.split)

lemma probeAll_wf [tx_rules]: "keeps_all wf_db (probeAll x observe ms)"
  by (induction ms) (auto intro!: tx_rules)

section \<open>The confirmation threshold\<close>

text \<open>
  A monitor probed by one worker: each outcome is computed from the state and streak the
  previous one stored.
\<close>

definition probe_step :: "int \<Rightarrow> string \<times> int \<Rightarrow> bool \<Rightarrow> string \<times> int" where
  "probe_step thr prior ok = nextProbeState
     \<lparr>po_MonitorID = '''', po_OK = ok, po_HTTPStatus = None, po_LatencyMS = None, po_Error = '''',
      po_TLSExpiresAt = None, po_FailThreshold = thr, po_PriorState = fst prior,
      po_PriorFailStreak = snd prior, po_PriorTLSWarnedExpiresAt = None, po_NextProbeAt = 0, po_Now = 0\<rparr>"

definition trailing_failures :: "bool list \<Rightarrow> nat" where
  "trailing_failures oks = length (takeWhile Not (rev oks))"

lemma trailing_failures_simps [simp]:
  "trailing_failures [] = 0" "trailing_failures (oks @ [True]) = 0"
  "trailing_failures (oks @ [False]) = Suc (trailing_failures oks)"
  by (simp_all add: trailing_failures_def)

lemma trailing_failures_le: "trailing_failures oks \<le> length oks"
  by (metis length_rev length_takeWhile_le trailing_failures_def)

text \<open>
  C9. A monitor that is not down goes down exactly when the last \<open>thr\<close> probes all failed, and
  comes back with the first success: after any sequence of probes (fewer than 2^31) the streak
  is the number of failures since the last success, the state is down when the streak has
  reached the threshold, and otherwise up, or the initial state when nothing succeeded yet.
\<close>

theorem probe_confirmation:
  assumes "0 < thr" and "s \<notin> {''down'', ''''}" and "length oks < 2 ^ 31"
  shows "foldl (probe_step thr) (s, 0) oks =
    (if thr \<le> int (trailing_failures oks) then ''down'' else if True \<in> set oks then ''up'' else s,
     int (trailing_failures oks))"
  using assms(3)
proof (induction oks rule: rev_induct)
  case (snoc ok oks)
  have "int (trailing_failures oks) + 1 < 2 ^ 31"
    using snoc.prems trailing_failures_le [of oks] by simp
  then have "wrap32 (int (trailing_failures oks) + 1) = int (trailing_failures oks) + 1"
    by (intro wrap32_id) (simp add: int32_range_def)
  with snoc assms(1,2) show ?case
    by (cases ok) (auto simp: probe_step_def nextProbeState_def Let_def add.commute)
qed (use assms in simp)

theorem probe_confirmation_witness:
  "foldl (probe_step 2) (''new'', 0) [False, True, False, False] = (''down'', 2)"
  using probe_confirmation [of 2 "''new''" "[False, True, False, False]"]
  by (simp add: trailing_failures_def)

section \<open>What recording a probe does\<close>

definition probed_row :: "ProbeOutcome \<Rightarrow> gotime \<Rightarrow> monitor_row \<Rightarrow> monitor_row" where
  "probed_row po now m = m\<lparr>m_state := fst (nextProbeState po), m_fail_streak := snd (nextProbeState po),
     m_next_probe_at := Some (po_NextProbeAt po), m_updated_at := now\<rparr>"

definition probe_warns :: "gotime \<Rightarrow> ProbeOutcome \<Rightarrow> gotime option" where
  "probe_warns wallclock po = (case po_TLSExpiresAt po of None \<Rightarrow> None
     | Some expires \<Rightarrow>
       if time_Sub expires (if time_IsZero (po_Now po) then wallclock else po_Now po) > tlsWarningWindow
          \<or> (\<exists>w. po_PriorTLSWarnedExpiresAt po = Some w \<and>
                 time_Truncate w Second = time_Truncate expires Second)
       then None else Some expires)"

definition with_tls_warning :: "uuid \<Rightarrow> gotime option \<Rightarrow> gotime \<Rightarrow> db \<Rightarrow> db" where
  "with_tls_warning mid warn now d = (case warn of None \<Rightarrow> d
     | Some expires \<Rightarrow>
       (let d1 = with_transition mid ''tls_expiry'' (''TLS certificate expires '' @ format_RFC3339 expires)
                   (MetaTLS expires) now d in
        d1\<lparr>monitors := update_where (\<lambda>r. m_id r = mid) (\<lambda>r. r\<lparr>m_tls_warned_expires_at := Some expires\<rparr>)
                         (monitors d1)\<rparr>))"

definition probe_effect :: "uuid \<Rightarrow> gotime \<Rightarrow> ProbeOutcome \<Rightarrow> gotime \<Rightarrow> db \<Rightarrow> db" where
  "probe_effect mid wallclock po now d =
     with_tls_warning mid (probe_warns wallclock po) now
      (with_optional_transition mid (probe_transition po) now
        ((bump_probe_results d)\<lparr>
          probe_results := probe_results d @ [\<lparr>p_id = seq_probe_results (seqs d), p_monitor_id = mid,
             p_ok = po_OK po, p_http_status = po_HTTPStatus po, p_latency_ms = po_LatencyMS po,
             p_error = textOrNull (po_Error po), p_tls_expires_at = po_TLSExpiresAt po,
             p_created_at = now\<rparr>],
          monitors := update_where (\<lambda>r. m_id r = mid) (probed_row po now) (monitors d)\<rparr>))"

definition outcome_ok :: "ProbeOutcome \<Rightarrow> bool" where
  "outcome_ok po \<longleftrightarrow> po_PriorState po \<in> {''new'', ''up'', ''late'', ''down''}"

lemma nextProbeState_range:
  assumes "outcome_ok po"
  shows "fst (nextProbeState po) \<in> {''new'', ''up'', ''late'', ''down''}"
    "int32_range (snd (nextProbeState po))"
  using assms by (auto simp: nextProbeState_def Let_def outcome_ok_def wrap32_range)

lemma with_transition_has [simp]:
  "has_monitor (with_transition mid ty msg me now d) i \<longleftrightarrow> has_monitor d i"
  "has_monitor (with_optional_transition mid tr now d) i \<longleftrightarrow> has_monitor d i"
  by (simp_all add: has_monitor_def with_optional_transition_def split: option.split)

lemma monitor_updates_ok:
  assumes "\<And>r. r \<in> set (monitors d) \<Longrightarrow> monitor_checks r \<and> int32_range (m_fail_streak r)"
  shows "query (q_SetTLSWarnedExpiry t mid) (quiet d now) = (Inr (), quiet (d\<lparr>monitors :=
      update_where (\<lambda>r. m_id r = mid) (\<lambda>r. r\<lparr>m_tls_warned_expires_at := t\<rparr>) (monitors d)\<rparr>) now)"
proof (rule query_exec_update, rule q_SetTLSWarnedExpiry_def)
  fix r assume "r \<in> set (monitors d)"
  with assms show "monitor_checks (r\<lparr>m_tls_warned_expires_at := t\<rparr>) \<and>
      int32_range (m_fail_streak (r\<lparr>m_tls_warned_expires_at := t\<rparr>))"
    by (simp add: monitor_checks_def)
qed

lemma maybeWarnTLSExpiry_quiet:
  assumes "has_monitor d mid"
    and "\<And>r. r \<in> set (monitors d) \<Longrightarrow> monitor_checks r \<and> int32_range (m_fail_streak r)"
  shows "maybeWarnTLSExpiry wallclock mid po (quiet d now) =
    (Inr (), quiet (with_tls_warning mid (probe_warns wallclock po) now d) now)"
proof (cases "probe_warns wallclock po")
  case None
  then show ?thesis
    by (auto simp: maybeWarnTLSExpiry_def probe_warns_def with_tls_warning_def ret_def Let_def
        split: option.splits if_splits)
next
  case (Some expires)
  then have w: "po_TLSExpiresAt po = Some expires"
    "\<not> time_Sub expires (if time_IsZero (po_Now po) then wallclock else po_Now po) > tlsWarningWindow"
    "\<not> (case po_PriorTLSWarnedExpiresAt po of None \<Rightarrow> False
        | Some w \<Rightarrow> time_Truncate w Second = time_Truncate expires Second)"
    by (auto simp: probe_warns_def split: option.splits if_splits)
  have m: "monitors (with_transition mid ty msg me now d) = monitors d" for ty msg me by simp
  show ?thesis
    using assms w monitor_updates_ok [of "with_transition mid _ _ _ now d"]
    by (simp add: maybeWarnTLSExpiry_def Let_def bind_def map_err_def ret_def recordEventMeta_quiet
        InsertAlert_quiet with_transition_def [symmetric] Some with_tls_warning_def)
qed

lemma UpdateMonitorOnProbe_quiet:
  assumes "wf_db d" and "outcome_ok po" and "monitors d' = monitors d"
  shows "query (q_UpdateMonitorOnProbe (fst (nextProbeState po)) (snd (nextProbeState po))
      (Some (po_NextProbeAt po)) mid) (quiet d' now) =
    (Inr (), quiet (d'\<lparr>monitors := update_where (\<lambda>r. m_id r = mid) (probed_row po now) (monitors d')\<rparr>) now)"
proof (rule query_exec_update)
  show "q_UpdateMonitorOnProbe (fst (nextProbeState po)) (snd (nextProbeState po))
      (Some (po_NextProbeAt po)) mid now =
    sql_exec (update_monitors (\<lambda>r. m_id r = mid) (probed_row po now)) now"
    by (simp add: q_UpdateMonitorOnProbe_def probed_row_def [abs_def])
next
  fix r assume "r \<in> set (monitors d')"
  with assms(1,3) have "monitor_checks r" using wf_db_monitor by auto
  with nextProbeState_range [OF assms(2)]
  show "monitor_checks (probed_row po now r) \<and> int32_range (m_fail_streak (probed_row po now r))"
    by (auto simp: monitor_checks_def probed_row_def)
qed

lemma probed_row_keys [simp]: "keeps_keys (probed_row po now)"
  by (simp add: keeps_keys_def probed_row_def)

lemma probed_rows_checked:
  assumes "wf_db d" and "outcome_ok po"
    and "r \<in> set (update_where (\<lambda>r. m_id r = mid) (probed_row po now) (monitors d))"
  shows "monitor_checks r \<and> int32_range (m_fail_streak r)"
proof -
  from assms(3) obtain r0 where r0: "r0 \<in> set (monitors d)"
    and r: "r = (if m_id r0 = mid then probed_row po now r0 else r0)"
    by (blast dest: update_where_member)
  have chk: "monitor_checks r0" "int32_range (m_fail_streak r0)"
    using wf_db_monitor [OF assms(1) r0] by auto
  moreover have "monitor_checks (probed_row po now r0)"
    using chk(1) nextProbeState_range(1) [OF assms(2)] by (simp add: monitor_checks_def probed_row_def)
  moreover have "int32_range (m_fail_streak (probed_row po now r0))"
    using nextProbeState_range(2) [OF assms(2)] by (simp add: probed_row_def)
  ultimately show ?thesis by (simp add: r)
qed

lemma recordBody_quiet:
  assumes wf: "wf_db d" and id: "scanUUID x (po_MonitorID po) = Some mid" and has: "has_monitor d mid"
    and ok: "outcome_ok po"
  shows "recordBody x wallclock po (quiet d now) =
    (Inr \<lparr>pr_State = fst (nextProbeState po),
          pr_Transition = (case probe_transition po of None \<Rightarrow> '''' | Some (ty, _) \<Rightarrow> ty)\<rparr>,
     quiet (probe_effect mid wallclock po now d) now)"
proof -
  define d1 where "d1 = (bump_probe_results d)\<lparr>probe_results := probe_results d @
      [\<lparr>p_id = seq_probe_results (seqs d), p_monitor_id = mid, p_ok = po_OK po,
        p_http_status = po_HTTPStatus po, p_latency_ms = po_LatencyMS po,
        p_error = textOrNull (po_Error po), p_tls_expires_at = po_TLSExpiresAt po, p_created_at = now\<rparr>]\<rparr>"
  define d2 where "d2 = d1\<lparr>monitors := update_where (\<lambda>r. m_id r = mid) (probed_row po now) (monitors d)\<rparr>"
  have m1: "monitors d1 = monitors d" by (simp add: d1_def bump_defs)
  have ins: "query (q_InsertProbeResult mid (po_OK po) (po_HTTPStatus po) (po_LatencyMS po)
      (textOrNull (po_Error po)) (po_TLSExpiresAt po)) (quiet d now) =
      (Inr (last (probe_results d1)), quiet d1 now)"
    using has by (simp add: tx_unfold q_InsertProbeResult_def Let_def d1_def)
  have upd: "query (q_UpdateMonitorOnProbe (fst (nextProbeState po)) (snd (nextProbeState po))
      (Some (po_NextProbeAt po)) mid) (quiet d1 now) = (Inr (), quiet d2 now)"
    using UpdateMonitorOnProbe_quiet [OF wf ok m1] by (simp add: d2_def m1)
  have has2: "has_monitor d2 mid" using has by (simp add: has_monitor_def d2_def update_where_ids)
  have rows: "monitor_checks r \<and> int32_range (m_fail_streak r)"
    if "r \<in> set (monitors (with_optional_transition mid tr now d2))" for r tr
    using probed_rows_checked [OF wf ok] that
    by (auto simp: with_optional_transition_def d2_def split: option.splits)
  define tm where "tm = (case probe_transition po of None \<Rightarrow> ret ''''
      | Some (ty, msg) \<Rightarrow> bind (recordTransition mid ty msg) (\<lambda>_. ret ty))"
  have tr: "tm (quiet d2 now) =
      (Inr (case probe_transition po of None \<Rightarrow> '''' | Some (ty, _) \<Rightarrow> ty),
       quiet (with_optional_transition mid (probe_transition po) now d2) now)"
    by (auto simp: tm_def with_optional_transition_def recordTransition_quiet [OF has2] bind_def ret_def
        split: option.split)
  have warn: "maybeWarnTLSExpiry wallclock mid po
      (quiet (with_optional_transition mid (probe_transition po) now d2) now) =
      (Inr (), quiet (with_tls_warning mid (probe_warns wallclock po) now
         (with_optional_transition mid (probe_transition po) now d2)) now)"
    using has2 rows by (intro maybeWarnTLSExpiry_quiet) auto
  have "probe_effect mid wallclock po now d = with_tls_warning mid (probe_warns wallclock po) now
      (with_optional_transition mid (probe_transition po) now d2)"
    by (simp add: probe_effect_def d2_def d1_def)
  moreover have "recordBody x wallclock po (quiet d now) = bind tm (\<lambda>transition.
      bind (maybeWarnTLSExpiry wallclock mid po) (\<lambda>_.
      ret \<lparr>pr_State = fst (nextProbeState po), pr_Transition = transition\<rparr>)) (quiet d2 now)"
    using ins upd unfolding recordBody_def tm_def
    by (cases "nextProbeState po") (simp add: lift_err_def pgUUID_def id bind_def ret_def map_err_def Let_def)
  ultimately show ?thesis by (simp add: bind_def tr warn ret_def)
qed

section \<open>What recording a probe should do\<close>

text \<open>
  The effect of a probe, said from the outside: a success brings the monitor up and clears the
  streak; a failure lengthens the streak (an int32) and takes the monitor down once the streak
  reaches the threshold (two when none is set), else it changes no state. The change is announced
  exactly when the monitor crosses between down and not down. A certificate is warned about when it
  expires within 14 days and the last warning was not for the same second of expiry.
\<close>

definition streak_after :: "ProbeOutcome \<Rightarrow> int" where
  "streak_after po = (if po_OK po then 0 else wrap32 (po_PriorFailStreak po + 1))"

definition state_after :: "ProbeOutcome \<Rightarrow> string" where
  "state_after po = (if po_OK po then ''up''
     else if (if 0 < po_FailThreshold po then po_FailThreshold po else 2) \<le> streak_after po then ''down''
     else po_PriorState po)"

definition crossing :: "ProbeOutcome \<Rightarrow> (string \<times> string) option" where
  "crossing po = (case (po_PriorState po = ''down'', state_after po = ''down'') of
      (False, True) \<Rightarrow> Some (''down'', ''Monitor failed its probe'' @ (if po_Error po = '''' then '''' else '': '' @ po_Error po))
    | (True, False) \<Rightarrow> Some (''up'', ''Monitor recovered'')
    | _ \<Rightarrow> None)"

definition expiring_soon :: "gotime option \<Rightarrow> gotime \<Rightarrow> gotime option \<Rightarrow> gotime option" where
  "expiring_soon warned t cert = (case cert of None \<Rightarrow> None
     | Some e \<Rightarrow> if e - t \<le> 14 * 24 * Hour \<and> map_option (\<lambda>w. w div Second) warned \<noteq> Some (e div Second) then Some e else None)"

definition recorded :: "uuid \<Rightarrow> gotime \<Rightarrow> ProbeOutcome \<Rightarrow> gotime \<Rightarrow> db \<Rightarrow> db" where
  "recorded mid wallclock po now d =
     with_tls_warning mid
       (expiring_soon (po_PriorTLSWarnedExpiresAt po) (if po_Now po = 0 then wallclock else po_Now po) (po_TLSExpiresAt po)) now
      (with_optional_transition mid (crossing po) now
        ((bump_probe_results d)\<lparr>
          probe_results := probe_results d @ [\<lparr>p_id = seq_probe_results (seqs d), p_monitor_id = mid,
             p_ok = po_OK po, p_http_status = po_HTTPStatus po, p_latency_ms = po_LatencyMS po,
             p_error = (if po_Error po = '''' then None else Some (po_Error po)),
             p_tls_expires_at = po_TLSExpiresAt po, p_created_at = now\<rparr>],
          monitors := update_where (\<lambda>r. m_id r = mid)
            (\<lambda>r. r\<lparr>m_state := state_after po, m_fail_streak := streak_after po,
               m_next_probe_at := Some (po_NextProbeAt po), m_updated_at := now\<rparr>) (monitors d)\<rparr>))"

lemma nextProbeState_after:
  assumes "outcome_ok po"
  shows "nextProbeState po = (state_after po, streak_after po)"
  using assms by (auto simp: nextProbeState_def state_after_def streak_after_def Let_def outcome_ok_def)

lemma probe_transition_crossing:
  assumes "outcome_ok po"
  shows "probe_transition po = crossing po"
proof -
  have "state_after po \<noteq> ''down'' \<longrightarrow> po_PriorState po = ''down'' \<longrightarrow> state_after po = ''up''"
    by (auto simp: state_after_def)
  then show ?thesis
    by (cases "po_PriorState po = ''down''"; cases "state_after po = ''down''")
      (simp_all add: probe_transition_def crossing_def nextProbeState_after [OF assms] probeFailureMessage_def Let_def)
qed

lemma same_second: "time_Truncate w Second = time_Truncate e Second \<longleftrightarrow> w div Second = e div Second"
  by (simp add: time_Truncate_def minus_mod_eq_div_mult Second_def)

lemma probe_warns_soon:
  "probe_warns wallclock po =
     expiring_soon (po_PriorTLSWarnedExpiresAt po) (if po_Now po = 0 then wallclock else po_Now po) (po_TLSExpiresAt po)"
proof -
  have "time_Sub e t > tlsWarningWindow \<longleftrightarrow> \<not> e - t \<le> 14 * 24 * Hour" for e t
    by (auto simp: time_Sub_def tlsWarningWindow_def duration_units min_int64_def max_int64_def)
  then show ?thesis
    by (auto simp: probe_warns_def expiring_soon_def time_IsZero_def same_second split: option.split)
qed

lemma probe_effect_recorded:
  assumes "outcome_ok po"
  shows "probe_effect mid wallclock po now d = recorded mid wallclock po now d"
proof -
  have row: "probed_row po now = (\<lambda>r. r\<lparr>m_state := state_after po, m_fail_streak := streak_after po,
      m_next_probe_at := Some (po_NextProbeAt po), m_updated_at := now\<rparr>)"
    by (simp add: probed_row_def [abs_def] nextProbeState_after [OF assms])
  show ?thesis
    by (simp add: probe_effect_def recorded_def row probe_warns_soon probe_transition_crossing [OF assms] textOrNull_def)
qed

section \<open>Properties\<close>

definition demo_http :: monitor_row where
  "demo_http = demo_monitor\<lparr>m_kind := ''http'', m_schedule_kind := None, m_period_s := None, m_grace_s := None,
     m_fail_threshold := Some 1, m_next_deadline := None, m_next_probe_at := Some 5\<rparr>"

definition demo_http_db :: db where
  "demo_http_db = demo_db\<lparr>monitors := [demo_http]\<rparr>"

definition demo_failure :: probeResult where
  "demo_failure = \<lparr>ob_OK = False, ob_HTTPStatus = Some 500, ob_LatencyMS = 12, ob_Error = ''status'',
     ob_TLSExpiresAt = Some (100 + Day)\<rparr>"

lemma demo_http_wf: "wf_db demo_http_db"
  by (simp add: wf_db_def wf_table_defs demo_http_db_def demo_db_def empty_db_def demo_user_def
      demo_http_def demo_monitor_def monitor_checks_def int32_range_def)

lemma demo_uuid: "scanUUID demo_ext (uuidString demo_ext 7) = Some 7"
proof -
  have "ParseInt64 (show_int 7) = Some 7" by (rule ParseInt64_show_int) (simp add: int64_range_def)
  then show ?thesis by (simp add: demo_ext_def)
qed

lemma demo_outcome:
  "scanUUID demo_ext (po_MonitorID (probe_outcome (toMonitor demo_ext demo_http) demo_failure 100)) = Some 7"
  "outcome_ok (probe_outcome (toMonitor demo_ext demo_http) demo_failure 100)"
  "has_monitor demo_http_db 7"
  using demo_uuid
  by (simp_all add: probe_outcome_def toMonitor_def demo_http_def demo_monitor_def outcome_ok_def
      has_monitor_def demo_http_db_def)

text \<open>
  C6. Recording a probe is all or nothing whatever the connection does: either no table changes
  and an error is reported, or the database is exactly the one specified (one probe row, the new
  state, streak and next probe on exactly the probed monitor, one event with one pending outbox row
  when the monitor crosses between down and not down and none otherwise, and one more such pair for
  a certificate warning that is due). With a connection that holds, the latter is the case, and the
  new state and the announced transition are returned.
\<close>

theorem RecordProbeResult_atomic:
  assumes "wf_db d" and "scanUUID x (po_MonitorID po) = Some mid" and "has_monitor d mid" and "outcome_ok po"
    and "result = \<lparr>pr_State = state_after po, pr_Transition = (case crossing po of None \<Rightarrow> '''' | Some (ty, _) \<Rightarrow> ty)\<rparr>"
  shows "(tables_kept d (run_db (RecordProbeResult x wallclock po) now os d) \<and>
           (\<exists>e. run_res (RecordProbeResult x wallclock po) now os d = Inl e) \<or>
         run_db (RecordProbeResult x wallclock po) now os d = recorded mid wallclock po now d \<and>
           (run_res (RecordProbeResult x wallclock po) now os d = Inr result \<or>
            (\<exists>e. run_res (RecordProbeResult x wallclock po) now os d = Inl e))) \<and>
    run_db (RecordProbeResult x wallclock po) now [] d = recorded mid wallclock po now d \<and>
    run_res (RecordProbeResult x wallclock po) now [] d = Inr result"
proof -
  have "run_db (RecordProbeResult x wallclock po) now [] d = recorded mid wallclock po now d"
    "run_res (RecordProbeResult x wallclock po) now [] d = Inr result"
    by (simp_all add: run_db_def run_res_def RecordProbeResult_def withTx_unfold recordBody_quiet [OF assms(1-4)]
        probe_effect_recorded [OF assms(4)] nextProbeState_after [OF assms(4)] probe_transition_crossing [OF assms(4)] assms(5))
  with withTx_atomic [OF recordBody_rules(1,2), of x wallclock po now os d] show ?thesis
    unfolding RecordProbeResult_def by auto
qed

theorem RecordProbeResult_atomic_witness:
  "monitors (run_db (RecordProbeResult demo_ext 0
      (probe_outcome (toMonitor demo_ext demo_http) demo_failure 100)) 200 [FailsAfter] demo_http_db) = [demo_http] \<and>
   map m_state (monitors (run_db (RecordProbeResult demo_ext 0
      (probe_outcome (toMonitor demo_ext demo_http) demo_failure 100)) 200 [] demo_http_db)) = [''down'']"
proof -
  define po where "po = probe_outcome (toMonitor demo_ext demo_http) demo_failure 100"
  define d' where "d' = run_db (RecordProbeResult demo_ext 0 po) 200 [FailsAfter] demo_http_db"
  have "tables_kept demo_http_db d' \<or> d' = recorded 7 0 po 200 demo_http_db"
    and eff: "run_db (RecordProbeResult demo_ext 0 po) 200 [] demo_http_db = recorded 7 0 po 200 demo_http_db"
    using RecordProbeResult_atomic [OF demo_http_wf demo_outcome(1,3,2) refl, of 0 200 "[FailsAfter]"]
    by (auto simp: d'_def po_def)
  moreover have "probe_results d' = []" unfolding d'_def po_def by code_simp
  moreover have "probe_results (recorded 7 0 po 200 demo_http_db) \<noteq> []"
    by (simp add: recorded_def with_tls_warning_def with_optional_transition_def Let_def split: option.split)
  moreover have "map m_state (monitors (recorded 7 0 po 200 demo_http_db)) = [''down'']"
    unfolding po_def by code_simp
  ultimately show ?thesis
    using tables_kept_simps(4) [of demo_http_db d'] by (auto simp: d'_def po_def demo_http_db_def)
qed

section \<open>A certificate is warned about once\<close>

lemma with_optional_transition_monitors [simp]:
  "monitors (with_optional_transition mid tr now d) = monitors d"
  by (simp add: with_optional_transition_def split: option.split)







lemma update_where_in: "r \<in> set rows \<Longrightarrow> p r \<Longrightarrow> f r \<in> set (update_where p f rows)"
  by (force simp: update_where_def)

lemma update_where_id [simp]: "update_where p (\<lambda>r. r) rows = rows"
  by (simp add: update_where_def)




section \<open>Two workers probing one monitor\<close>

lemma store_ClaimDueProbes_quiet:
  "store_ClaimDueProbes x locked t prober_claimLimit (quiet d now) = (Inr (map (toMonitor x) (take 500
     (filter (\<lambda>m. \<not> locked (m_id m)) (sort_key (\<lambda>m. the (m_next_probe_at m))
       (filter (\<lambda>m. null_less (m_next_probe_at m) t \<and> m_kind m = ''http'' \<and> m_paused_at m = None) (monitors d)))))),
    quiet d now)"
  by (simp add: store_ClaimDueProbes_def tx_unfold q_ClaimDueProbes_def reading_def sql_limit_def prober_claimLimit_def)

lemma claimed_when_due:
  assumes "m \<in> set (monitors d)" and "length (monitors d) \<le> 500" and "null_less (m_next_probe_at m) t"
    and "m_kind m = ''http''" and "m_paused_at m = None" and "\<not> locked (m_id m)"
  shows "\<exists>ms. run_res (store_ClaimDueProbes x locked t prober_claimLimit) now [] d = Inr ms \<and> toMonitor x m \<in> set ms"
proof -
  have "length (filter P (sort_key k (filter Q (monitors d)))) \<le> 500" for P k Q
    using length_filter_le [of Q "monitors d"] length_filter_le [of P "sort_key k (filter Q (monitors d))"] assms(2)
    by (simp del: length_filter_le)
  note all = take_all [OF this]
  show ?thesis using assms by (simp add: run_res_def store_ClaimDueProbes_quiet all)
qed

definition outage_pair :: "uuid \<Rightarrow> event_row \<Rightarrow> alert_row \<Rightarrow> bool" where
  "outage_pair mid e a \<longleftrightarrow> e_monitor_id e = mid \<and> e_type e = ''down'' \<and> a_monitor_id a = mid \<and>
     a_event_id a = e_id e \<and> a_status a = ''pending''"

lemma failing_probe_announces:
  assumes "wf_db d" and "has_monitor d (m_id m)" and "scanUUID x (uuidString x (m_id m)) = Some (m_id m)"
    and "monitor_checks m" and "m_state m \<noteq> ''down''" and "0 \<le> m_fail_streak m" and "m_fail_streak m + 1 < 2 ^ 31"
    and "0 < int32Or (m_fail_threshold m) 2" and "int32Or (m_fail_threshold m) 2 \<le> m_fail_streak m + 1"
    and "\<not> ob_OK result" and "ob_TLSExpiresAt result = None"
    and "d' = run_db (probeOne x (toMonitor x m) (Some (result, t))) now [] d"
  shows "\<exists>e a. events d' = events d @ [e] \<and> alerts d' = alerts d @ [a] \<and> outage_pair (m_id m) e a \<and>
    wf_db d' \<and> has_monitor d' (m_id m)"
proof -
  define po where "po = probe_outcome (toMonitor x m) result t"
  have ok: "outcome_ok po" using assms(4) by (simp add: po_def outcome_ok_def probe_outcome_def toMonitor_def monitor_checks_def)
  have id: "scanUUID x (po_MonitorID po) = Some (m_id m)" using assms(3) by (simp add: po_def probe_outcome_def toMonitor_def)
  have "wrap32 (m_fail_streak m + 1) = m_fail_streak m + 1"
    using assms(6,7) by (intro wrap32_id) (simp add: int32_range_def)
  then have "state_after po = ''down''"
    using assms(8-10) by (simp add: state_after_def streak_after_def po_def probe_outcome_def toMonitor_def defaultFailThreshold_def)
  then obtain msg where tr: "crossing po = Some (''down'', msg)"
    using assms(5) by (auto simp: crossing_def po_def probe_outcome_def toMonitor_def)
  have calm: "po_TLSExpiresAt po = None" using assms(11) by (simp add: po_def probe_outcome_def)
  have d': "d' = recorded (m_id m) t po now d"
    by (simp add: assms(12) run_db_def probeOne_def po_def [symmetric] catch_def bind_def ret_def
        RecordProbeResult_def withTx_unfold recordBody_quiet [OF assms(1) id assms(2) ok] probe_effect_recorded [OF ok])
  have "wf_db d'" unfolding assms(12) by (rule keeps_all_run [OF probeOne_wf assms(1)])
  moreover have "has_monitor d' (m_id m)"
  proof -
    obtain r where "r \<in> set (monitors d)" "m_id r = m_id m" using assms(2) by (auto simp: has_monitor_def)
    then have "r\<lparr>m_state := state_after po, m_fail_streak := streak_after po, m_next_probe_at := Some (po_NextProbeAt po),
        m_updated_at := now\<rparr> \<in> set (monitors d')"
      using update_where_in [of r "monitors d" "\<lambda>r. m_id r = m_id m" "\<lambda>r. r\<lparr>m_state := state_after po,
          m_fail_streak := streak_after po, m_next_probe_at := Some (po_NextProbeAt po), m_updated_at := now\<rparr>"]
      by (simp add: d' recorded_def calm expiring_soon_def with_tls_warning_def)
    from imageI [OF this, of m_id] \<open>m_id r = m_id m\<close> show ?thesis by (simp add: has_monitor_def)
  qed
  ultimately show ?thesis
    by (simp add: d' recorded_def calm expiring_soon_def with_tls_warning_def tr with_optional_transition_def
        with_transition_def with_event_def with_alert_def bump_defs outage_pair_def new_alert_def)
qed

text \<open>
  C16. Two workers can announce one outage twice. Take any due http monitor that is not down and
  whose next failure is its threshold's last, with at most 500 monitors. The claim of one worker
  changes nothing, so a second worker whose claim runs before the first has recorded claims the
  monitor too. When both probes fail (over plain http), two down events and two pending outbox rows
  are written, where one failure would have been enough.
\<close>

theorem probe_race_double_alert:
  assumes "wf_db d" and "m \<in> set (monitors d)" and "length (monitors d) \<le> 500"
    and "scanUUID x (uuidString x (m_id m)) = Some (m_id m)"
    and "m_kind m = ''http''" and "m_paused_at m = None" and "null_less (m_next_probe_at m) t1" and "null_less (m_next_probe_at m) t2"
    and "\<not> lockedA (m_id m)" and "\<not> lockedB (m_id m)"
    and "m_state m \<noteq> ''down''" and "0 \<le> m_fail_streak m" and "m_fail_streak m + 1 < 2 ^ 31"
    and "0 < int32Or (m_fail_threshold m) 2" and "int32Or (m_fail_threshold m) 2 \<le> m_fail_streak m + 1"
    and "\<not> ob_OK r1" and "ob_TLSExpiresAt r1 = None" and "\<not> ob_OK r2" and "ob_TLSExpiresAt r2 = None"
    and "dA = run_db (store_ClaimDueProbes x lockedA t1 prober_claimLimit) now1 [] d"
    and "d1 = run_db (probeOne x (toMonitor x m) (Some (r1, t1'))) now1' [] dA"
    and "d2 = run_db (probeOne x (toMonitor x m) (Some (r2, t2'))) now2' [] d1"
  shows "(\<exists>ms. run_res (store_ClaimDueProbes x lockedA t1 prober_claimLimit) now1 [] d = Inr ms \<and> toMonitor x m \<in> set ms) \<and>
    (\<exists>ms. run_res (store_ClaimDueProbes x lockedB t2 prober_claimLimit) now2 [] dA = Inr ms \<and> toMonitor x m \<in> set ms) \<and>
    (\<exists>e1 e2 a1 a2. events d2 = events d @ [e1, e2] \<and> alerts d2 = alerts d @ [a1, a2] \<and>
       outage_pair (m_id m) e1 a1 \<and> outage_pair (m_id m) e2 a2)"
proof -
  have dA: "dA = d" by (simp add: assms(20) run_db_def store_ClaimDueProbes_quiet)
  have chk: "monitor_checks m" using wf_db_monitor [OF assms(1,2)] by auto
  have has: "has_monitor d (m_id m)" using assms(2) by (auto simp: has_monitor_def)
  note fails = failing_probe_announces [OF _ _ assms(4) chk assms(11-15)]
  obtain e1 a1 where 1: "events d1 = events d @ [e1]" "alerts d1 = alerts d @ [a1]" "outage_pair (m_id m) e1 a1"
    "wf_db d1" "has_monitor d1 (m_id m)"
    using fails [OF assms(1) has assms(16,17) assms(21) [unfolded dA]] by blast
  obtain e2 a2 where 2: "events d2 = events d1 @ [e2]" "alerts d2 = alerts d1 @ [a2]" "outage_pair (m_id m) e2 a2"
    using fails [OF 1(4,5) assms(18,19,22)] by blast
  from 1 2 have "\<exists>e1 e2 a1 a2. events d2 = events d @ [e1, e2] \<and> alerts d2 = alerts d @ [a1, a2] \<and>
      outage_pair (m_id m) e1 a1 \<and> outage_pair (m_id m) e2 a2" by auto
  moreover note claimed_when_due [where t = t1 and locked = lockedA and x = x and now = now1, OF assms(2,3,7,5,6,9)]
    claimed_when_due [where t = t2 and locked = lockedB and x = x and now = now2, OF assms(2,3,8,5,6,10)]
  ultimately show ?thesis unfolding dA by simp
qed

theorem probe_race_double_alert_witness:
  "\<exists>e1 e2 a1 a2. let probe = probeOne demo_ext (toMonitor demo_ext demo_http) (Some (demo_failure\<lparr>ob_TLSExpiresAt := None\<rparr>, 100));
      claim = store_ClaimDueProbes demo_ext (\<lambda>_. False) 100 prober_claimLimit;
      d2 = run_db probe 202 [] (run_db probe 201 [] (run_db claim 200 [] demo_http_db)) in
    events d2 = [e1, e2] \<and> alerts d2 = [a1, a2] \<and> outage_pair 7 e1 a1 \<and> outage_pair 7 e2 a2"
proof -
  have m: "m_id demo_http = 7" "events demo_http_db = []" "alerts demo_http_db = []" "demo_http \<in> set (monitors demo_http_db)"
    "length (monitors demo_http_db) \<le> 500" "m_kind demo_http = ''http''" "m_paused_at demo_http = None"
    "null_less (m_next_probe_at demo_http) 100" "m_state demo_http \<noteq> ''down''" "m_fail_streak demo_http = 0"
    "int32Or (m_fail_threshold demo_http) 2 = 1"
    by (simp_all add: demo_http_def demo_monitor_def demo_http_db_def demo_db_def empty_db_def int32Or_def null_less_def)
  have f: "\<not> ob_OK (demo_failure\<lparr>ob_TLSExpiresAt := None\<rparr>)" "ob_TLSExpiresAt (demo_failure\<lparr>ob_TLSExpiresAt := None\<rparr>) = None"
    by (simp_all add: demo_failure_def)
  have u: "scanUUID demo_ext (uuidString demo_ext (m_id demo_http)) = Some (m_id demo_http)" by (simp add: m(1) demo_uuid)
  have n: "\<not> (\<lambda>_. False) (m_id demo_http)" by simp
  show ?thesis
    using probe_race_double_alert [OF demo_http_wf m(4,5) u m(6-8,8) n n m(9) _ _ _ _ f f refl refl refl]
    by (simp add: m(1-3,10,11) Let_def)
qed

end
