(* ===== verification/Pages.thy ===== *)
theory Pages
  imports Prober Monitor_Store
begin

text \<open>
  Cursor-paginated lists: the opaque cursors and feed operations of src/backend/store/events.go,
  checkin.go and prober.go, and the monitor list of src/backend/store/monitor.go. A page that
  is full carries the cursor of its last row, and a client reads until a page has none.
\<close>

section \<open>Unpadded URL-safe base64\<close>

definition b64_char :: "nat \<Rightarrow> char" where
  "b64_char n = (if n < 26 then char_of (65 + n) else if n < 52 then char_of (71 + n)
     else if n < 62 then char_of (n - 4) else if n = 62 then CHR ''-'' else CHR ''_'')"

definition b64_val :: "char \<Rightarrow> nat option" where
  "b64_val c = (let b = byte c in
     if 65 \<le> b \<and> b \<le> 90 then Some (b - 65) else if 97 \<le> b \<and> b \<le> 122 then Some (b - 71)
     else if 48 \<le> b \<and> b \<le> 57 then Some (b + 4) else if c = CHR ''-'' then Some 62
     else if c = CHR ''_'' then Some 63 else None)"

fun b64_groups :: "nat list \<Rightarrow> nat list" where
  "b64_groups (a # b # c # rest) =
     a div 4 # (a mod 4 * 16 + b div 16) # (b mod 16 * 4 + c div 64) # c mod 64 # b64_groups rest"
| "b64_groups [a, b] = [a div 4, a mod 4 * 16 + b div 16, b mod 16 * 4]"
| "b64_groups [a] = [a div 4, a mod 4 * 16]"
| "b64_groups [] = []"

text \<open>Spare low bits of the last digit are ignored, as the decoder is not strict.\<close>

fun b64_bytes :: "nat list \<Rightarrow> nat list option" where
  "b64_bytes (w # x # y # z # rest) = map_option
     ((@) [w * 4 + x div 16, x mod 16 * 16 + y div 4, y mod 4 * 64 + z]) (b64_bytes rest)"
| "b64_bytes [w, x, y] = Some [w * 4 + x div 16, x mod 16 * 16 + y div 4]"
| "b64_bytes [w, x] = Some [w * 4 + x div 16]"
| "b64_bytes [w] = None"
| "b64_bytes [] = Some []"

definition EncodeToString :: "string \<Rightarrow> string" where
  "EncodeToString s = map b64_char (b64_groups (map byte s))"

text \<open>Carriage returns and line feeds in the input are skipped.\<close>

definition DecodeString :: "string \<Rightarrow> string option" where
  "DecodeString s =
    (let vals = map b64_val (filter (\<lambda>c. byte c \<noteq> 10 \<and> byte c \<noteq> 13) s) in
     if None \<in> set vals then None else map_option (map char_of) (b64_bytes (map the vals)))"

section \<open>Cursors on a row id\<close>

definition encodeIDCursor :: "int \<Rightarrow> string" where
  "encodeIDCursor i = EncodeToString (show_int i)"

definition decodeIDCursor :: "string \<Rightarrow> gerror + int option" where
  "decodeIDCursor cursor =
    (if cursor = '''' then Inr None
     else case DecodeString cursor of
       None \<Rightarrow> Inl (MsgE ''illegal base64 data'')
     | Some raw \<Rightarrow> (case ParseInt64 raw of None \<Rightarrow> Inl (MsgE ''strconv.ParseInt'') | Some i \<Rightarrow> Inr (Some i)))"

definition invalid_cursor :: gerror where
  "invalid_cursor = newHTTPError (ErrText ''invalid cursor'') 400"

definition cursor_or_400 :: "(gerror + 'c) \<Rightarrow> 'c dbm" where
  "cursor_or_400 r = (case r of Inl _ \<Rightarrow> raise invalid_cursor | Inr v \<Rightarrow> ret v)"

text \<open>
  \<open>full_page\<close> is the test \<^verbatim>\<open>len(rows) == int(limit)\<close> with the cursor of the last row; for a
  zero limit it reads before the first row, which panics.
\<close>

definition full_page :: "('r \<Rightarrow> string) \<Rightarrow> 'r list \<Rightarrow> int \<Rightarrow> gerror + string" where
  "full_page cur rows limit =
    (if int (length rows) = limit
     then (if rows = [] then Inl (MsgE ''panic: index out of range [-1]'') else Inr (cur (last rows)))
     else Inr '''')"

section \<open>Feeds\<close>

record Event =
  ev_ID :: int
  ev_MonitorID :: string
  ev_Type :: string
  ev_Message :: string
  ev_Meta :: event_meta
  ev_CreatedAt :: gotime

record EventPage =
  ep_Events :: "Event list"
  ep_NextCursor :: string

definition to_event :: "extlib \<Rightarrow> event_row \<Rightarrow> Event" where
  "to_event x r = \<lparr>ev_ID = e_id r, ev_MonitorID = uuidString x (e_monitor_id r), ev_Type = e_type r,
     ev_Message = e_message r, ev_Meta = e_meta r, ev_CreatedAt = e_created_at r\<rparr>"

definition toEventPage :: "extlib \<Rightarrow> event_row list \<Rightarrow> int \<Rightarrow> gerror + EventPage" where
  "toEventPage x rows limit = map_sum id
     (\<lambda>cur. \<lparr>ep_Events = map (to_event x) rows, ep_NextCursor = cur\<rparr>)
     (full_page (\<lambda>r. encodeIDCursor (e_id r)) rows limit)"

definition optionalUUID :: "extlib \<Rightarrow> string \<Rightarrow> gerror + uuid option" where
  "optionalUUID x s = (if s = '''' then Inr None else map_sum id Some (pgUUID x s))"

definition ListEventsByUser :: "extlib \<Rightarrow> string \<Rightarrow> string \<Rightarrow> string \<Rightarrow> string \<Rightarrow> int \<Rightarrow> EventPage dbm" where
  "ListEventsByUser x userID monitorID eventType cursor limit =
     bind (uuid_or_404 x userID) (\<lambda>user.
     case optionalUUID x monitorID of
       Inl _ \<Rightarrow> ret \<lparr>ep_Events = [], ep_NextCursor = ''''\<rparr>
     | Inr mid \<Rightarrow>
         bind (cursor_or_400 (decodeIDCursor cursor)) (\<lambda>cid.
         bind (map_err (WrapE ''store: list events by user'')
                (query (q_ListEventsByUserPage user mid (textOrNull eventType) cid limit))) (\<lambda>rows.
         lift_err (toEventPage x rows limit))))"

definition ListEventsByMonitor :: "extlib \<Rightarrow> string \<Rightarrow> string \<Rightarrow> string \<Rightarrow> int \<Rightarrow> EventPage dbm" where
  "ListEventsByMonitor x monitorID eventType cursor limit =
     bind (uuid_or_404 x monitorID) (\<lambda>mid.
     bind (cursor_or_400 (decodeIDCursor cursor)) (\<lambda>cid.
     bind (map_err (WrapE ''store: list events by monitor'')
            (query (q_ListEventsByMonitorPage mid (textOrNull eventType) cid limit))) (\<lambda>rows.
     lift_err (toEventPage x rows limit))))"

text \<open>The INET column holds the canonical text of the address already.\<close>

record Checkin =
  ch_ID :: int
  ch_MonitorID :: string
  ch_Kind :: string
  ch_SourceIP :: "string option"
  ch_UserAgent :: "string option"
  ch_Body :: "string option"
  ch_CreatedAt :: gotime

record CheckinPage =
  cp_Checkins :: "Checkin list"
  cp_NextCursor :: string

definition to_checkin :: "extlib \<Rightarrow> checkin_row \<Rightarrow> Checkin" where
  "to_checkin x r = \<lparr>ch_ID = c_id r, ch_MonitorID = uuidString x (c_monitor_id r), ch_Kind = c_kind r,
     ch_SourceIP = c_source_ip r, ch_UserAgent = c_user_agent r, ch_Body = c_body r,
     ch_CreatedAt = c_created_at r\<rparr>"

definition toCheckinPage :: "extlib \<Rightarrow> checkin_row list \<Rightarrow> int \<Rightarrow> gerror + CheckinPage" where
  "toCheckinPage x rows limit = map_sum id
     (\<lambda>cur. \<lparr>cp_Checkins = map (to_checkin x) rows, cp_NextCursor = cur\<rparr>)
     (full_page (\<lambda>r. encodeIDCursor (c_id r)) rows limit)"

definition ListCheckinsByMonitor :: "extlib \<Rightarrow> string \<Rightarrow> string \<Rightarrow> int \<Rightarrow> CheckinPage dbm" where
  "ListCheckinsByMonitor x monitorID cursor limit =
     bind (uuid_or_404 x monitorID) (\<lambda>mid.
     bind (cursor_or_400 (decodeIDCursor cursor)) (\<lambda>cid.
     bind (map_err (WrapE ''store: list checkins by monitor'')
            (query (q_ListCheckinsByMonitorPage mid cid limit))) (\<lambda>rows.
     lift_err (toCheckinPage x rows limit))))"

record ProbeResult =
  pr_ID :: int
  pr_MonitorID :: string
  pr_OK :: bool
  pr_HTTPStatus :: "int option"
  pr_LatencyMS :: "int option"
  pr_Error :: string
  pr_TLSExpiresAt :: "gotime option"
  pr_CreatedAt :: gotime

record ProbeResultPage =
  pp_Results :: "ProbeResult list"
  pp_NextCursor :: string

definition to_probe_result :: "extlib \<Rightarrow> probe_result_row \<Rightarrow> ProbeResult" where
  "to_probe_result x r = \<lparr>pr_ID = p_id r, pr_MonitorID = uuidString x (p_monitor_id r), pr_OK = p_ok r,
     pr_HTTPStatus = p_http_status r, pr_LatencyMS = p_latency_ms r, pr_Error = text_value (p_error r),
     pr_TLSExpiresAt = p_tls_expires_at r, pr_CreatedAt = p_created_at r\<rparr>"

definition toProbeResultPage :: "extlib \<Rightarrow> probe_result_row list \<Rightarrow> int \<Rightarrow> gerror + ProbeResultPage" where
  "toProbeResultPage x rows limit = map_sum id
     (\<lambda>cur. \<lparr>pp_Results = map (to_probe_result x) rows, pp_NextCursor = cur\<rparr>)
     (full_page (\<lambda>r. encodeIDCursor (p_id r)) rows limit)"

definition outcomeFilter :: "string \<Rightarrow> bool option" where
  "outcomeFilter outc = (if outc = ''success'' then Some True else if outc = ''fail'' then Some False else None)"

definition ListProbeResultsByMonitor :: "extlib \<Rightarrow> string \<Rightarrow> string \<Rightarrow> string \<Rightarrow> int \<Rightarrow> ProbeResultPage dbm" where
  "ListProbeResultsByMonitor x monitorID outc cursor limit =
     bind (uuid_or_404 x monitorID) (\<lambda>mid.
     bind (cursor_or_400 (decodeIDCursor cursor)) (\<lambda>cid.
     bind (map_err (WrapE ''store: list probe results by monitor'')
            (query (q_ListProbeResultsByMonitor mid (outcomeFilter outc) cid limit))) (\<lambda>rows.
     lift_err (toProbeResultPage x rows limit))))"

section \<open>The monitor list\<close>

text \<open>
  The composite cursor holds the creation time in the layout \<^verbatim>\<open>time.RFC3339Nano\<close>; formatting and
  parsing that layout are parameters.
\<close>

record timefmt =
  FormatNano :: "gotime \<Rightarrow> string"
  ParseNano :: "string \<Rightarrow> gotime option"

definition encodeCursor :: "timefmt \<Rightarrow> extlib \<Rightarrow> gotime \<Rightarrow> uuid \<Rightarrow> string" where
  "encodeCursor tf x createdAt i = EncodeToString (FormatNano tf createdAt @ ''|'' @ uuidString x i)"

text \<open>\<^verbatim>\<open>strings.SplitN(s, \"|\", 2)\<close> splits at the first bar.\<close>

definition decodeCursor :: "timefmt \<Rightarrow> extlib \<Rightarrow> string \<Rightarrow> gerror + gotime \<times> uuid" where
  "decodeCursor tf x cursor =
    (case DecodeString cursor of
       None \<Rightarrow> Inl (MsgE ''decode cursor'')
     | Some raw \<Rightarrow>
         (case dropWhile (\<lambda>c. c \<noteq> CHR ''|'') raw of
            [] \<Rightarrow> Inl (MsgE ''malformed cursor'')
          | _ # second \<Rightarrow>
              (case ParseNano tf (takeWhile (\<lambda>c. c \<noteq> CHR ''|'') raw) of
                 None \<Rightarrow> Inl (MsgE ''parse cursor timestamp'')
               | Some createdAt \<Rightarrow>
                   (case pgUUID x second of
                      Inl e \<Rightarrow> Inl (WrapE ''parse cursor id'' e) | Inr i \<Rightarrow> Inr (createdAt, i)))))"

record ListMonitorsFilter =
  lf_Search :: string
  lf_Kind :: string
  lf_DisplayState :: string

record MonitorPage =
  mp_Monitors :: "Monitor list"
  mp_NextCursor :: string

definition list_params :: "uuid \<Rightarrow> (gotime \<times> uuid) option \<Rightarrow> int \<Rightarrow> ListMonitorsFilter \<Rightarrow> ListMonitorsByUserPageParams" where
  "list_params user cur limit flt =
    \<lparr>lm_user_id = user, lm_cursor_created_at = map_option fst cur, lm_cursor_id = map_option snd cur,
     lm_search = textOrNull (lf_Search flt), lm_kind = textOrNull (lf_Kind flt),
     lm_display_state = textOrNull (lf_DisplayState flt), lm_page_limit = limit\<rparr>"

definition ListMonitors ::
  "timefmt \<Rightarrow> extlib \<Rightarrow> string \<Rightarrow> string \<Rightarrow> int \<Rightarrow> ListMonitorsFilter \<Rightarrow> MonitorPage dbm" where
  "ListMonitors tf x userID cursor limit flt =
     bind (lift_err (pgUUID x userID)) (\<lambda>user.
     bind (if cursor = '''' then ret None else bind (cursor_or_400 (decodeCursor tf x cursor)) (\<lambda>c. ret (Some c))) (\<lambda>cur.
     bind (map_err (WrapE ''store: list monitors'')
            (query (q_ListMonitorsByUserPage (list_params user cur limit flt)))) (\<lambda>rows.
     bind (lift_err (full_page (\<lambda>r. encodeCursor tf x (m_created_at r) (m_id r)) rows limit)) (\<lambda>next.
     ret \<lparr>mp_Monitors = map (toMonitor x) rows, mp_NextCursor = next\<rparr>))))"

section \<open>The latency chart\<close>

text \<open>
  The floating-point aggregates of a bucket's latencies are parameters; \<open>'f\<close> stands for
  float64. A bucket without a single latency has NULL aggregates, which do not scan into a
  float64.
\<close>

record 'f aggregates =
  percentile_50 :: "int list \<Rightarrow> 'f"
  percentile_95 :: "int list \<Rightarrow> 'f"
  average :: "int list \<Rightarrow> 'f"

record 'f LatencyBucket =
  lb_BucketStart :: gotime
  lb_P50 :: 'f
  lb_P95 :: 'f
  lb_Avg :: 'f
  lb_SampleCount :: int

text \<open>The start of the bucket of an instant: Unix seconds rounded down to a multiple.\<close>

definition bucket_start :: "int \<Rightarrow> gotime \<Rightarrow> gotime" where
  "bucket_start b t = (let epoch = 62135596800 * Second in (t - epoch) div (b * Second) * (b * Second) + epoch)"

definition q_LatencySeriesByMonitor :: "'f aggregates \<Rightarrow> int \<Rightarrow> uuid \<Rightarrow> gotime \<Rightarrow> 'f LatencyBucket list stmt" where
  "q_LatencySeriesByMonitor agg b i since = reading (\<lambda>d.
    (let rows = filter (\<lambda>r. p_monitor_id r = i \<and> p_ok r \<and> since \<le> p_created_at r) (probe_results d);
         starts = sort (remdups (map (\<lambda>r. bucket_start b (p_created_at r)) rows));
         bucket = (\<lambda>t. filter (\<lambda>r. bucket_start b (p_created_at r) = t) rows);
         latencies = (\<lambda>t. List.map_filter p_latency_ms (bucket t)) in
     if list_ex (\<lambda>t. latencies t = []) starts then Inl ScanError
     else Inr (map (\<lambda>t. \<lparr>lb_BucketStart = t, lb_P50 = percentile_50 agg (latencies t),
            lb_P95 = percentile_95 agg (latencies t), lb_Avg = average agg (latencies t),
            lb_SampleCount = int (length (bucket t))\<rparr>) starts)))"

definition LatencySeriesByMonitor ::
  "'f aggregates \<Rightarrow> extlib \<Rightarrow> string \<Rightarrow> gotime \<Rightarrow> int \<Rightarrow> 'f LatencyBucket list dbm" where
  "LatencySeriesByMonitor agg x monitorID since bucketSeconds =
     bind (uuid_or_404 x monitorID) (\<lambda>i.
     map_err (WrapE ''store: latency series by monitor'') (query (q_LatencySeriesByMonitor agg bucketSeconds i since)))"

section \<open>Decoding inverts encoding\<close>

lemma byte_less [simp]: "byte c < 256"
  by (simp add: byte_def)

lemma char_of_byte [simp]: "char_of (byte c) = c"
  by (simp add: byte_def)

lemma b64_char_cases:
  assumes "n < 64"
  shows "b64_val (b64_char n) = Some n \<and> byte (b64_char n) \<noteq> 10 \<and> byte (b64_char n) \<noteq> 13"
proof -
  consider "n < 26" | "26 \<le> n" "n < 52" | "52 \<le> n" "n < 62" | "n = 62" | "n = 63" using assms by linarith
  then show ?thesis
  proof cases
    case 4 then show ?thesis by (simp add: b64_char_def b64_val_def byte_def)
  next
    case 5 then show ?thesis by (simp add: b64_char_def b64_val_def byte_def)
  qed (simp_all add: b64_char_def b64_val_def Let_def, linarith?)
qed

lemma b64_groups_digits: "list_all (\<lambda>b. b < 256) bs \<Longrightarrow> list_all (\<lambda>n. n < 64) (b64_groups bs)"
  by (induction bs rule: b64_groups.induct) auto

lemma digit_split: "r < k \<Longrightarrow> (m * k + r) div k = m \<and> (m * k + r) mod k = (r::nat)"
  by simp

lemma b64_byte_parts:
  fixes a b c :: nat
  assumes "b < 256" and "c < 256"
  shows "a div 4 * 4 + (a mod 4 * 16 + b div 16) div 16 = a"
    "(a mod 4 * 16 + b div 16) mod 16 * 16 + (b mod 16 * 4 + c div 64) div 4 = b"
    "(b mod 16 * 4 + c div 64) mod 4 * 64 + c mod 64 = c"
proof -
  have "b div 16 < 16" "c div 64 < 4" using assms by simp_all
  then show "a div 4 * 4 + (a mod 4 * 16 + b div 16) div 16 = a"
    "(a mod 4 * 16 + b div 16) mod 16 * 16 + (b mod 16 * 4 + c div 64) div 4 = b"
    "(b mod 16 * 4 + c div 64) mod 4 * 64 + c mod 64 = c"
    by (simp_all only: digit_split div_mult_mod_eq)
qed

lemma b64_bytes_groups: "list_all (\<lambda>b. b < 256) bs \<Longrightarrow> b64_bytes (b64_groups bs) = Some bs"
proof (induction bs rule: b64_groups.induct)
  case (1 a b c rest)
  then show ?case using b64_byte_parts [where b = b and c = c] by simp
next
  case (2 a b)
  then show ?case using b64_byte_parts [where b = b and c = 0] by simp
next
  case (3 a)
  then show ?case using b64_byte_parts [where b = 0 and c = 0] by simp
qed simp

lemma DecodeString_EncodeToString: "DecodeString (EncodeToString s) = Some s"
proof -
  let ?g = "b64_groups (map byte s)"
  have b: "list_all (\<lambda>b. b < 256) (map byte s)" by (simp add: list_all_iff)
  then have g: "\<forall>n \<in> set ?g. n < 64" using b64_groups_digits [OF b] by (simp add: list_all_iff)
  then have f: "filter (\<lambda>c. byte c \<noteq> 10 \<and> byte c \<noteq> 13) (map b64_char ?g) = map b64_char ?g"
    using b64_char_cases by (auto simp: filter_id_conv)
  have v: "map b64_val (map b64_char ?g) = map Some ?g"
    using g b64_char_cases by (auto intro: map_cong)
  have "map (the \<circ> Some) ?g = ?g" by (simp add: comp_def)
  then show ?thesis
    unfolding DecodeString_def EncodeToString_def Let_def f v
    by (simp add: b64_bytes_groups [OF b] comp_def image_iff)
qed

lemma EncodeToString_eq_Nil: "EncodeToString s = [] \<longleftrightarrow> s = []"
  by (cases "map byte s" rule: b64_groups.cases) (auto simp: EncodeToString_def)

lemma show_int_nonempty: "show_int i \<noteq> []"
  by (simp add: show_int_def show_nat_nonempty)

lemma encodeIDCursor_nonempty: "encodeIDCursor i \<noteq> ''''"
  by (simp add: encodeIDCursor_def EncodeToString_eq_Nil show_int_nonempty)

lemma decodeIDCursor_encode: "int64_range i \<Longrightarrow> decodeIDCursor (encodeIDCursor i) = Inr (Some i)"
  by (simp add: decodeIDCursor_def encodeIDCursor_nonempty)
    (simp add: encodeIDCursor_def DecodeString_EncodeToString ParseInt64_show_int)

text \<open>What package time documents of the layout: parsing inverts formatting, and no bar occurs.\<close>

definition timefmt_ok :: "timefmt \<Rightarrow> bool" where
  "timefmt_ok tf \<longleftrightarrow> (\<forall>t. ParseNano tf (FormatNano tf t) = Some t \<and> CHR ''|'' \<notin> set (FormatNano tf t))"

lemma dropWhile_bar: "CHR ''|'' \<notin> set a \<Longrightarrow>
  dropWhile (\<lambda>c. c \<noteq> CHR ''|'') (a @ CHR ''|'' # b) = CHR ''|'' # b \<and>
  takeWhile (\<lambda>c. c \<noteq> CHR ''|'') (a @ CHR ''|'' # b) = a"
  by (induction a) auto

lemma decodeCursor_encode:
  assumes "timefmt_ok tf" and "uuid_roundtrip x"
  shows "decodeCursor tf x (encodeCursor tf x t i) = Inr (t, i)"
proof -
  have "CHR ''|'' \<notin> set (FormatNano tf t)" "ParseNano tf (FormatNano tf t) = Some t"
    "scanUUID x (uuidString x i) = Some i"
    using assms by (auto simp: timefmt_ok_def uuid_roundtrip_def)
  then show ?thesis
    by (simp add: decodeCursor_def encodeCursor_def DecodeString_EncodeToString dropWhile_bar pgUUID_def)
qed

text \<open>
  C26. Cursors round-trip: every id of the bigint columns and every pair of creation time and
  UUID comes back from the cursor made of it, and the cursor of a row is never empty, so it
  cannot be taken for the first page.
\<close>

theorem cursor_roundtrip:
  assumes "int64_range i" and "timefmt_ok tf" and "uuid_roundtrip x"
  shows "decodeIDCursor (encodeIDCursor i) = Inr (Some i) \<and> encodeIDCursor i \<noteq> '''' \<and>
    decodeCursor tf x (encodeCursor tf x t u) = Inr (t, u) \<and> encodeCursor tf x t u \<noteq> ''''"
  using assms by (simp add: decodeIDCursor_encode encodeIDCursor_nonempty decodeCursor_encode)
    (simp add: encodeCursor_def EncodeToString_eq_Nil)

definition demo_timefmt :: timefmt where
  "demo_timefmt = \<lparr>FormatNano = show_int, ParseNano = parse_int\<rparr>"

lemma show_nat_no_bar: "CHR ''|'' \<notin> set (show_nat n)"
  using show_nat_digits [of "CHR ''|''" n] by (auto simp: is_digit_def byte_def)

lemma demo_timefmt_ok: "timefmt_ok demo_timefmt"
proof -
  have "CHR ''|'' \<notin> set (show_int t)" for t by (simp add: show_int_def show_nat_no_bar)
  then show ?thesis by (simp add: timefmt_ok_def demo_timefmt_def parse_int_show_int)
qed

theorem cursor_roundtrip_witness:
  "decodeIDCursor (encodeIDCursor (-42)) = Inr (Some (-42)) \<and>
   decodeCursor demo_timefmt (demo_ext\<lparr>scanUUID := \<lambda>s. Some (length s), uuidString := \<lambda>u. replicate u (CHR ''x'')\<rparr>)
     (encodeCursor demo_timefmt (demo_ext\<lparr>scanUUID := \<lambda>s. Some (length s), uuidString := \<lambda>u. replicate u (CHR ''x'')\<rparr>) 77 3) = Inr (77, 3)"
  using cursor_roundtrip [OF _ demo_timefmt_ok demo_uuids, of "-42" 77 3] by (simp add: int64_range_def)

section \<open>Reading a feed to its end\<close>

text \<open>
  A client asks for pages until one comes without a cursor. \<open>drain\<close> has fuel; None is running
  out of it.
\<close>

fun drain :: "nat \<Rightarrow> (string \<Rightarrow> gerror + 'e list \<times> string) \<Rightarrow> string \<Rightarrow> (gerror + 'e list) option" where
  "drain 0 page cursor = None"
| "drain (Suc n) page cursor = (case page cursor of
      Inl e \<Rightarrow> Some (Inl e)
    | Inr (es, next) \<Rightarrow> if next = '''' then Some (Inr es) else map_option (map_sum id ((@) es)) (drain n page next))"

abbreviation newest :: "('r \<Rightarrow> int) \<Rightarrow> 'r list \<Rightarrow> 'r list" where
  "newest key rows \<equiv> sort_key (\<lambda>r. - key r) rows"

text \<open>The contract of a feed that is keyed on a row id.\<close>

locale id_feed =
  fixes list_op :: "string \<Rightarrow> int \<Rightarrow> 'p dbm"
    and items :: "'p \<Rightarrow> 'e list"
    and next_cursor :: "'p \<Rightarrow> string"
    and conv :: "'r \<Rightarrow> 'e"
    and key :: "'r \<Rightarrow> int"
    and rows :: "db \<Rightarrow> 'r list"
    and ready :: bool
  assumes page_run: "ready \<Longrightarrow> decodeIDCursor cursor = Inr cid \<Longrightarrow> 1 \<le> limit \<Longrightarrow>
      rs = take (nat limit) (newest key (filter (\<lambda>r. id_before cid (key r)) (rows d))) \<Longrightarrow>
      \<exists>p. list_op cursor limit (quiet d now) = (Inr p, quiet d now) \<and> items p = map conv rs \<and>
        next_cursor p = (if length rs = nat limit then encodeIDCursor (key (last rs)) else '''')"
    and keys_distinct: "wf_db d \<Longrightarrow> distinct (map key (rows d))"
begin

definition page :: "int \<Rightarrow> gotime \<Rightarrow> db \<Rightarrow> string \<Rightarrow> gerror + 'e list \<times> string" where
  "page limit now d cursor = map_sum id (\<lambda>p. (items p, next_cursor p)) (run_res (list_op cursor limit) now [] d)"

lemma after_last:
  assumes "sorted_wrt (>) (map key rs)" and "0 < n" and "n \<le> length rs"
  shows "filter (\<lambda>r. key r < key (last (take n rs))) rs = drop n rs"
proof -
  let ?k = "key (last (take n rs))"
  have last: "last (take n rs) = rs ! (n - 1)" using assms(2,3) by (subst last_conv_nth) auto
  have "\<not> key r < ?k" if "r \<in> set (take n rs)" for r
  proof -
    from that obtain i where i: "i < n" "r = rs ! i" using assms(3) by (auto simp: in_set_conv_nth)
    then have "i = n - 1 \<or> key (rs ! i) > key (rs ! (n - 1))"
      using assms(1,3) by (cases "i = n - 1") (auto simp: sorted_wrt_iff_nth_less)
    with i last show ?thesis by auto
  qed
  moreover have "key r < ?k" if "r \<in> set (drop n rs)" for r
  proof -
    from that obtain i where "i < length (drop n rs)" "r = drop n rs ! i" by (metis in_set_conv_nth)
    then have "n + i < length rs" "r = rs ! (n + i)" by simp_all
    with assms(1,2) last show ?thesis by (auto simp: sorted_wrt_iff_nth_less)
  qed
  ultimately have "filter (\<lambda>r. key r < ?k) (take n rs @ drop n rs) = drop n rs"
    unfolding filter_append by (simp add: filter_empty_conv filter_id_conv)
  then show ?thesis by simp
qed

lemma newest_decreasing:
  assumes "distinct (map key rs)"
  shows "sorted_wrt (>) (map key (newest key rs))"
proof -
  have "sorted (map (\<lambda>r. - key r) (newest key rs))" by simp
  moreover have "distinct (map (\<lambda>r. - key r) (newest key rs))"
    using assms by (simp add: distinct_map inj_on_def)
  ultimately have "sorted_wrt (<) (map (\<lambda>r. - key r) (newest key rs))" by (simp add: strict_sorted_iff)
  then show ?thesis by (simp add: sorted_wrt_map)
qed

lemma drain_from:
  assumes "ready" and "1 \<le> limit" and "\<forall>r \<in> set (rows d). int64_range (key r)"
    and "distinct (map key (rows d))" and "decodeIDCursor cursor = Inr cid"
    and "length (filter (\<lambda>r. id_before cid (key r)) (rows d)) < fuel"
  shows "drain fuel (page limit now d) cursor =
    Some (Inr (map conv (newest key (filter (\<lambda>r. id_before cid (key r)) (rows d)))))"
  using assms(5,6)
proof (induction fuel arbitrary: cursor cid)
  case (Suc fuel)
  let ?R = "newest key (filter (\<lambda>r. id_before cid (key r)) (rows d))"
  let ?rs = "take (nat limit) ?R"
  obtain p where p: "list_op cursor limit (quiet d now) = (Inr p, quiet d now)" "items p = map conv ?rs"
    "next_cursor p = (if length ?rs = nat limit then encodeIDCursor (key (last ?rs)) else '''')"
    using page_run [OF assms(1) Suc.prems(1) assms(2) refl] by blast
  have pg: "page limit now d cursor = Inr (map conv ?rs, next_cursor p)"
    by (simp add: page_def run_res_def p)
  show ?case
  proof (cases "length ?rs = nat limit")
    case False
    then have "?rs = ?R" by simp
    with False p(3) pg show ?thesis by simp
  next
    case True
    let ?k = "key (last ?rs)"
    have n: "0 < nat limit" "nat limit \<le> length ?R" using True assms(2) by auto
    have "?rs \<noteq> []" using True n(1) by (metis list.size(3) less_irrefl)
    then have "last ?rs \<in> set ?R" by (meson in_set_takeD last_in_set)
    then have kr: "int64_range ?k" and kb: "id_before cid ?k" using assms(3) by auto
    have dec: "sorted_wrt (>) (map key ?R)"
      using assms(4) by (intro newest_decreasing) (simp add: distinct_map_filter)
    have "filter (\<lambda>r. key r < ?k) (filter (\<lambda>r. id_before cid (key r)) (rows d)) =
        filter (\<lambda>r. id_before (Some ?k) (key r)) (rows d)"
      using kb by (auto simp: id_before_def intro!: filter_cong split: option.splits)
    then have rest: "newest key (filter (\<lambda>r. id_before (Some ?k) (key r)) (rows d)) = drop (nat limit) ?R"
      using after_last [OF dec n] by (simp add: filter_sort)
    from arg_cong [OF this, of length]
    have "length (filter (\<lambda>r. id_before (Some ?k) (key r)) (rows d)) < fuel" using n Suc.prems(2) by simp
    from Suc.IH [OF decodeIDCursor_encode [OF kr] this] rest p(3) True pg
    show ?thesis by (simp add: encodeIDCursor_nonempty flip: map_append)
  qed
qed simp

lemma drain_all:
  assumes "ready" and "1 \<le> limit" and "\<forall>r \<in> set (rows d). int64_range (key r)" and "wf_db d"
    and "length (rows d) < fuel"
  shows "drain fuel (page limit now d) '''' = Some (Inr (map conv (newest key (rows d))))"
  using drain_from [OF assms(1-3) keys_distinct [OF assms(4)], of "''''" None] assms(5)
  by (simp add: decodeIDCursor_def id_before_def)

end

section \<open>The four feeds meet the contract\<close>

lemma uuid_or_404_Some [simp]: "scanUUID x s = Some u \<Longrightarrow> uuid_or_404 x s st = (Inr u, st)"
  by (simp add: uuid_or_404_def pgUUID_def ret_def)

lemma cursor_or_400_Inr [simp]: "cursor_or_400 (Inr c) st = (Inr c, st)"
  by (simp add: cursor_or_400_def ret_def)

lemma lift_err_Inr [simp]: "lift_err (Inr v) st = (Inr v, st)"
  by (simp add: lift_err_def ret_def)

lemma full_page_pos:
  "1 \<le> limit \<Longrightarrow> full_page cur rows limit = Inr (if length rows = nat limit then cur (last rows) else '''')"
  by (auto simp: full_page_def)

lemma sql_limit_pos: "1 \<le> limit \<Longrightarrow> sql_limit limit rows = Inr (take (nat limit) rows)"
  by (simp add: sql_limit_def)

lemmas feed_unfold = bind_def map_err_def query_quiet sql_limit_pos full_page_pos

definition has_type :: "string \<Rightarrow> event_row \<Rightarrow> bool" where
  "has_type ty e = (case textOrNull ty of None \<Rightarrow> True | Some t \<Rightarrow> e_type e = t)"

interpretation monitor_events: id_feed "ListEventsByMonitor x mid ty" ep_Events ep_NextCursor "to_event x" e_id
  "\<lambda>d. filter (\<lambda>e. scanUUID x mid = Some (e_monitor_id e) \<and> has_type ty e) (events d)" "scanUUID x mid \<noteq> None"
  for x mid ty
proof (unfold_locales, goal_cases)
  case (1 cursor cid limit rs d now)
  then obtain u where u: "scanUUID x mid = Some u" by auto
  have "filter (\<lambda>e. id_before cid (e_id e)) (filter (\<lambda>e. scanUUID x mid = Some (e_monitor_id e) \<and> has_type ty e) (events d)) =
      filter (\<lambda>e. e_monitor_id e = u \<and> (case textOrNull ty of None \<Rightarrow> True | Some t \<Rightarrow> e_type e = t) \<and> id_before cid (e_id e)) (events d)"
    by (auto simp: has_type_def u intro!: filter_cong)
  with 1 u show ?case
    by (simp add: ListEventsByMonitor_def feed_unfold q_ListEventsByMonitorPage_def toEventPage_def)
qed (simp add: wf_db_def wf_events_def distinct_map_filter)

interpretation user_events: id_feed "ListEventsByUser x user mid ty" ep_Events ep_NextCursor "to_event x" e_id
  "\<lambda>d. filter (\<lambda>e. owned_by d (the (scanUUID x user)) (e_monitor_id e) \<and>
     (mid = '''' \<or> scanUUID x mid = Some (e_monitor_id e)) \<and> has_type ty e) (events d)"
  "scanUUID x user \<noteq> None \<and> (mid = '''' \<or> scanUUID x mid \<noteq> None)"
  for x user mid ty
proof (unfold_locales, goal_cases)
  case (1 cursor cid limit rs d now)
  then obtain u mo where u: "scanUUID x user = Some u" "optionalUUID x mid = Inr mo"
    "mo = (if mid = '''' then None else scanUUID x mid)"
    by (cases "mid = ''''") (auto simp: optionalUUID_def pgUUID_def)
  have "filter (\<lambda>e. id_before cid (e_id e)) (filter (\<lambda>e. owned_by d (the (scanUUID x user)) (e_monitor_id e) \<and>
        (mid = '''' \<or> scanUUID x mid = Some (e_monitor_id e)) \<and> has_type ty e) (events d)) =
      filter (\<lambda>e. owned_by d u (e_monitor_id e) \<and> (case mo of None \<Rightarrow> True | Some i \<Rightarrow> e_monitor_id e = i) \<and>
        (case textOrNull ty of None \<Rightarrow> True | Some t \<Rightarrow> e_type e = t) \<and> id_before cid (e_id e)) (events d)"
    using 1(1) by (auto simp: has_type_def u(1,3) intro!: filter_cong)
  with 1 u(1,2) show ?case
    by (simp add: ListEventsByUser_def feed_unfold q_ListEventsByUserPage_def toEventPage_def)
qed (simp add: wf_db_def wf_events_def distinct_map_filter)

interpretation checkin_log: id_feed "ListCheckinsByMonitor x mid" cp_Checkins cp_NextCursor "to_checkin x" c_id
  "\<lambda>d. filter (\<lambda>c. scanUUID x mid = Some (c_monitor_id c)) (checkins d)" "scanUUID x mid \<noteq> None"
  for x mid
proof (unfold_locales, goal_cases)
  case (1 cursor cid limit rs d now)
  then obtain u where u: "scanUUID x mid = Some u" by auto
  have "filter (\<lambda>c. id_before cid (c_id c)) (filter (\<lambda>c. scanUUID x mid = Some (c_monitor_id c)) (checkins d)) =
      filter (\<lambda>c. c_monitor_id c = u \<and> id_before cid (c_id c)) (checkins d)"
    by (auto simp: u intro!: filter_cong)
  with 1 u show ?case
    by (simp add: ListCheckinsByMonitor_def feed_unfold q_ListCheckinsByMonitorPage_def toCheckinPage_def)
qed (simp add: wf_db_def wf_checkins_def distinct_map_filter)

interpretation probe_log: id_feed "ListProbeResultsByMonitor x mid outc" pp_Results pp_NextCursor "to_probe_result x" p_id
  "\<lambda>d. filter (\<lambda>p. scanUUID x mid = Some (p_monitor_id p) \<and>
     (case outcomeFilter outc of None \<Rightarrow> True | Some b \<Rightarrow> p_ok p = b)) (probe_results d)" "scanUUID x mid \<noteq> None"
  for x mid outc
proof (unfold_locales, goal_cases)
  case (1 cursor cid limit rs d now)
  then obtain u where u: "scanUUID x mid = Some u" by auto
  have "filter (\<lambda>p. id_before cid (p_id p)) (filter (\<lambda>p. scanUUID x mid = Some (p_monitor_id p) \<and>
        (case outcomeFilter outc of None \<Rightarrow> True | Some b \<Rightarrow> p_ok p = b)) (probe_results d)) =
      filter (\<lambda>p. p_monitor_id p = u \<and> (case outcomeFilter outc of None \<Rightarrow> True | Some b \<Rightarrow> p_ok p = b) \<and>
        id_before cid (p_id p)) (probe_results d)"
    by (auto simp: u intro!: filter_cong)
  with 1 u show ?case
    by (simp add: ListProbeResultsByMonitor_def feed_unfold q_ListProbeResultsByMonitor_def toProbeResultPage_def)
qed (simp add: wf_db_def wf_probe_results_def distinct_map_filter)

text \<open>What a client sees of one page of each feed.\<close>

definition event_page :: "(string \<Rightarrow> EventPage dbm) \<Rightarrow> gotime \<Rightarrow> db \<Rightarrow> string \<Rightarrow> gerror + Event list \<times> string" where
  "event_page f now d cursor = map_sum id (\<lambda>p. (ep_Events p, ep_NextCursor p)) (run_res (f cursor) now [] d)"

definition checkin_page :: "(string \<Rightarrow> CheckinPage dbm) \<Rightarrow> gotime \<Rightarrow> db \<Rightarrow> string \<Rightarrow> gerror + Checkin list \<times> string" where
  "checkin_page f now d cursor = map_sum id (\<lambda>p. (cp_Checkins p, cp_NextCursor p)) (run_res (f cursor) now [] d)"

definition probe_page ::
  "(string \<Rightarrow> ProbeResultPage dbm) \<Rightarrow> gotime \<Rightarrow> db \<Rightarrow> string \<Rightarrow> gerror + ProbeResult list \<times> string" where
  "probe_page f now d cursor = map_sum id (\<lambda>p. (pp_Results p, pp_NextCursor p)) (run_res (f cursor) now [] d)"

text \<open>
  C25. Reading a feed page by page to its end, with any page size, yields every row of the feed
  exactly once, newest first, and ends: for the events of a monitor, of a user (with the monitor
  and type filters), the check-in log and the probe log of a monitor.
\<close>

theorem feeds_complete:
  assumes "wf_db d" and "1 \<le> limit" and "scanUUID x mid = Some m" and "scanUUID x user = Some u"
    and "\<forall>e \<in> set (events d). int64_range (e_id e)" and "\<forall>c \<in> set (checkins d). int64_range (c_id c)"
    and "\<forall>p \<in> set (probe_results d). int64_range (p_id p)"
    and "length (events d) < fuel" and "length (checkins d) < fuel" and "length (probe_results d) < fuel"
  shows "drain fuel (event_page (\<lambda>c. ListEventsByMonitor x mid ty c limit) now d) '''' =
      Some (Inr (map (to_event x) (newest e_id (filter (\<lambda>e. e_monitor_id e = m \<and> has_type ty e) (events d))))) \<and>
    drain fuel (event_page (\<lambda>c. ListEventsByUser x user '''' ty c limit) now d) '''' =
      Some (Inr (map (to_event x) (newest e_id (filter (\<lambda>e. owned_by d u (e_monitor_id e) \<and> has_type ty e) (events d))))) \<and>
    drain fuel (checkin_page (\<lambda>c. ListCheckinsByMonitor x mid c limit) now d) '''' =
      Some (Inr (map (to_checkin x) (newest c_id (filter (\<lambda>c. c_monitor_id c = m) (checkins d))))) \<and>
    drain fuel (probe_page (\<lambda>c. ListProbeResultsByMonitor x mid '''' c limit) now d) '''' =
      Some (Inr (map (to_probe_result x) (newest p_id (filter (\<lambda>p. p_monitor_id p = m) (probe_results d)))))"
proof -
  have pages: "event_page (\<lambda>c. ListEventsByMonitor x mid ty c limit) now d = monitor_events.page x mid ty limit now d"
    "event_page (\<lambda>c. ListEventsByUser x user '''' ty c limit) now d = user_events.page x user '''' ty limit now d"
    "checkin_page (\<lambda>c. ListCheckinsByMonitor x mid c limit) now d = checkin_log.page x mid limit now d"
    "probe_page (\<lambda>c. ListProbeResultsByMonitor x mid '''' c limit) now d = probe_log.page x mid '''' limit now d"
    by (auto simp: event_page_def checkin_page_def probe_page_def monitor_events.page_def user_events.page_def
        checkin_log.page_def probe_log.page_def)
  have le: "length (filter P xs) < fuel" if "length xs < fuel" for P and xs :: "'z list"
    using that length_filter_le [of P xs] by linarith
  show ?thesis
    unfolding pages using assms
    by (simp add: monitor_events.drain_all user_events.drain_all checkin_log.drain_all probe_log.drain_all le
        outcomeFilter_def eq_commute [of m] le_less_trans [OF length_filter_le])
qed

definition demo_feed :: db where
  "demo_feed = demo_db\<lparr>events := map (\<lambda>i. \<lparr>e_id = i, e_monitor_id = 7, e_type = ''down'', e_message = ''m'',
     e_meta = MetaEmpty, e_created_at = 50\<rparr>) [1, 2, 3], seqs := (seqs demo_db)\<lparr>seq_events := 4\<rparr>\<rparr>"

lemma demo_feed_wf: "wf_db demo_feed"
  by (simp add: wf_db_def wf_table_defs demo_feed_def demo_db_def empty_db_def demo_user_def
      demo_monitor_def monitor_checks_def int32_range_def)

theorem feeds_complete_witness:
  "drain 4 (event_page (\<lambda>c. ListEventsByMonitor (demo_ext\<lparr>scanUUID := \<lambda>s. Some (length s)\<rparr>) ''xxxxxxx'' '''' c 2) 9 demo_feed) '''' =
   Some (Inr (map (to_event (demo_ext\<lparr>scanUUID := \<lambda>s. Some (length s)\<rparr>)) (rev (events demo_feed))))"
proof -
  have e: "events demo_feed = map (\<lambda>i. \<lparr>e_id = i, e_monitor_id = 7, e_type = ''down'', e_message = ''m'',
     e_meta = MetaEmpty, e_created_at = 50\<rparr>) [1, 2, 3]" by (simp add: demo_feed_def)
  have s: "newest e_id (filter (\<lambda>e. e_monitor_id e = 7 \<and> has_type '''' e) (events demo_feed)) = rev (events demo_feed)"
    by (simp add: e has_type_def textOrNull_def)
  show ?thesis
    using feeds_complete [OF demo_feed_wf, of 2 "demo_ext\<lparr>scanUUID := \<lambda>s. Some (length s)\<rparr>" "''xxxxxxx''" 7 "''x''" 1 4 "''''" 9]
    by (simp add: s) (simp add: demo_feed_def demo_db_def empty_db_def int64_range_def)
qed

end
