(* ===== verification/Rollup.thy ===== *)
theory Rollup
  imports Monitor_Store
begin

text \<open>
  The nightly rollup and retention: the statements of src/backend/db/daily_stats.sql.go,
  src/backend/store/rollup.go, the daily-stats read of src/backend/store/monitor.go and the
  worker's tick in src/backend/worker/rollup/rollup.go. The percentile aggregate of the server
  is a parameter: it receives the percentage and the non-null values in ascending order.
\<close>

section \<open>Statements\<close>

type_synonym percentile = "nat \<Rightarrow> int list \<Rightarrow> int option"

definition q_ListDailyStatsByMonitorIDs :: "uuid list \<Rightarrow> int \<Rightarrow> daily_stat_row list stmt" where
  "q_ListDailyStatsByMonitorIDs ids since = reading (\<lambda>d. Inr
    (sort_key (\<lambda>r. (d_monitor_id r, d_day r))
      (filter (\<lambda>r. d_monitor_id r \<in> set ids \<and> since \<le> d_day r) (daily_stats d))))"

definition in_range :: "gotime \<Rightarrow> gotime \<Rightarrow> gotime \<Rightarrow> bool" where
  "in_range a b t \<longleftrightarrow> a \<le> t \<and> t < b"

text \<open>A \<^verbatim>\<open>::int\<close> cast fails outside the int32 range.\<close>

definition all_int32 :: "('r \<Rightarrow> int list) \<Rightarrow> 'r list \<Rightarrow> dberr + 'r list" where
  "all_int32 vals rows = (if list_all (\<lambda>r. list_all int32_range (vals r)) rows then Inr rows
     else Inl NumericOutOfRange)"

record RollupCheckinCountsRow =
  rc_MonitorID :: uuid
  rc_Checkins :: int
  rc_Failures :: int

definition q_RollupCheckinCounts :: "gotime \<Rightarrow> gotime \<Rightarrow> RollupCheckinCountsRow list stmt" where
  "q_RollupCheckinCounts dayStart dayEnd = reading (\<lambda>d.
    let rows = filter (\<lambda>c. in_range dayStart dayEnd (c_created_at c)) (checkins d) in
    all_int32 (\<lambda>r. [rc_Checkins r, rc_Failures r])
      (map (\<lambda>mid. let g = filter (\<lambda>c. c_monitor_id c = mid) rows in
         \<lparr>rc_MonitorID = mid, rc_Checkins = int (length g),
          rc_Failures = int (length (filter (\<lambda>c. c_kind c = ''fail'') g))\<rparr>)
       (remdups (map c_monitor_id rows))))"

text \<open>
  The window function pairs every down or up event of a monitor with its successor; an outage
  ends at the successor when that is an up event and at the end of the day otherwise.
\<close>

fun outages_of :: "gotime \<Rightarrow> event_row list \<Rightarrow> (gotime \<times> gotime) list" where
  "outages_of dayEnd [] = []"
| "outages_of dayEnd (e # es) =
    (if e_type e = ''down''
     then [(e_created_at e, case es of next # _ \<Rightarrow> if e_type next = ''up'' then e_created_at next else dayEnd
                                     | [] \<Rightarrow> dayEnd)]
     else []) @ outages_of dayEnd es"

definition transitions_of :: "gotime \<Rightarrow> uuid \<Rightarrow> event_row list \<Rightarrow> event_row list" where
  "transitions_of dayEnd mid es = sort_key e_created_at
     (filter (\<lambda>e. e_type e \<in> {''down'', ''up''} \<and> e_created_at e < dayEnd \<and> e_monitor_id e = mid) es)"

definition day_outages :: "gotime \<Rightarrow> gotime \<Rightarrow> uuid \<Rightarrow> event_row list \<Rightarrow> (gotime \<times> gotime) list" where
  "day_outages dayStart dayEnd mid es = filter (\<lambda>(down_at, resolved_at). resolved_at > dayStart \<and> down_at < dayEnd)
     (outages_of dayEnd (transitions_of dayEnd mid es))"

definition clamped :: "gotime \<Rightarrow> gotime \<Rightarrow> gotime \<times> gotime \<Rightarrow> duration" where
  "clamped dayStart dayEnd oo = max 0 (min (snd oo) dayEnd - max (fst oo) dayStart)"

text \<open>The cast of a numeric number of seconds rounds half away from zero.\<close>

definition round_seconds :: "duration \<Rightarrow> int" where
  "round_seconds n = (2 * n + Second) div (2 * Second)"

definition downtime_s :: "gotime \<Rightarrow> gotime \<Rightarrow> uuid \<Rightarrow> event_row list \<Rightarrow> int" where
  "downtime_s dayStart dayEnd mid es =
     round_seconds (sum_list (map (clamped dayStart dayEnd) (day_outages dayStart dayEnd mid es)))"

record RollupDowntimeSecondsRow =
  rd_MonitorID :: uuid
  rd_DowntimeS :: int

definition q_RollupDowntimeSeconds :: "gotime \<Rightarrow> gotime \<Rightarrow> RollupDowntimeSecondsRow list stmt" where
  "q_RollupDowntimeSeconds dayEnd dayStart = reading (\<lambda>d.
    all_int32 (\<lambda>r. [rd_DowntimeS r])
      (map (\<lambda>mid. \<lparr>rd_MonitorID = mid, rd_DowntimeS = downtime_s dayStart dayEnd mid (events d)\<rparr>)
        (filter (\<lambda>mid. day_outages dayStart dayEnd mid (events d) \<noteq> [])
          (remdups (map e_monitor_id (events d))))))"

record RollupProbeStatsRow =
  rp_MonitorID :: uuid
  rp_Checkins :: int
  rp_Failures :: int
  rp_LatencyP50 :: "int option"
  rp_LatencyP95 :: "int option"

definition latency_pct :: "percentile \<Rightarrow> nat \<Rightarrow> probe_result_row list \<Rightarrow> int option" where
  "latency_pct pc p g = pc p (sort (List.map_filter p_latency_ms (filter p_ok g)))"

definition q_RollupProbeStats :: "percentile \<Rightarrow> gotime \<Rightarrow> gotime \<Rightarrow> RollupProbeStatsRow list stmt" where
  "q_RollupProbeStats pc dayStart dayEnd = reading (\<lambda>d.
    let rows = filter (\<lambda>p. in_range dayStart dayEnd (p_created_at p)) (probe_results d) in
    all_int32 (\<lambda>r. [rp_Checkins r, rp_Failures r])
      (map (\<lambda>mid. let g = filter (\<lambda>p. p_monitor_id p = mid) rows in
         \<lparr>rp_MonitorID = mid, rp_Checkins = int (length g),
          rp_Failures = int (length (filter (\<lambda>p. \<not> p_ok p) g)),
          rp_LatencyP50 = (if filter p_ok g = [] then None else latency_pct pc 50 g),
          rp_LatencyP95 = (if filter p_ok g = [] then None else latency_pct pc 95 g)\<rparr>)
       (remdups (map p_monitor_id rows))))"

definition q_UpsertDailyStat :: "daily_stat_row \<Rightarrow> unit stmt" where
  "q_UpsertDailyStat r now d =
    (let key = (\<lambda>q. d_monitor_id q = d_monitor_id r \<and> d_day q = d_day r) in
     if \<not> has_monitor d (d_monitor_id r) then (Inl ForeignKeyViolation, d)
     else if list_ex key (daily_stats d)
     then (Inr (), d\<lparr>daily_stats := update_where key (\<lambda>_. r) (daily_stats d)\<rparr>)
     else (Inr (), d\<lparr>daily_stats := daily_stats d @ [r]\<rparr>))"

section \<open>The store side\<close>

record DailyStat =
  ds_Day :: int
  ds_Checkins :: int
  ds_Failures :: int
  ds_DowntimeS :: int
  ds_LatencyP50 :: "int option"
  ds_LatencyP95 :: "int option"

definition to_daily_stat :: "daily_stat_row \<Rightarrow> DailyStat" where
  "to_daily_stat r = \<lparr>ds_Day = d_day r, ds_Checkins = d_checkins r, ds_Failures = d_failures r,
     ds_DowntimeS = d_downtime_s r, ds_LatencyP50 = d_latency_p50 r, ds_LatencyP95 = d_latency_p95 r\<rparr>"

fun parse_uuids :: "extlib \<Rightarrow> string list \<Rightarrow> gerror + uuid list" where
  "parse_uuids x [] = Inr []"
| "parse_uuids x (s # ss) = (case pgUUID x s of Inl e \<Rightarrow> Inl e
     | Inr u \<Rightarrow> (case parse_uuids x ss of Inl e \<Rightarrow> Inl e | Inr us \<Rightarrow> Inr (u # us)))"

text \<open>The result is the map from monitor id to that monitor's rows, oldest day first.\<close>

definition ListDailyStats :: "extlib \<Rightarrow> string list \<Rightarrow> gotime \<Rightarrow> (string \<Rightarrow> DailyStat list) dbm" where
  "ListDailyStats x monitorIDs since =
    (if monitorIDs = [] then ret (\<lambda>_. [])
     else bind (lift_err (parse_uuids x monitorIDs)) (\<lambda>ids.
       bind (map_err (WrapE ''store: list daily stats'') (query (q_ListDailyStatsByMonitorIDs ids (since div Day)))) (\<lambda>rows.
       ret (\<lambda>i. map to_daily_stat (filter (\<lambda>r. uuidString x (d_monitor_id r) = i) rows)))))"

record stat =
  st_checkins :: int
  st_failures :: int
  st_latencyP50 :: "int option"
  st_latencyP95 :: "int option"
  st_downtimeS :: int

definition zero_stat :: stat where
  "zero_stat = \<lparr>st_checkins = 0, st_failures = 0, st_latencyP50 = None, st_latencyP95 = None, st_downtimeS = 0\<rparr>"

text \<open>
  The map \<^verbatim>\<open>byMonitor\<close>, with its entries in insertion order: \<open>with_stat\<close> is an assignment
  through \<^verbatim>\<open>get(id)\<close>.
\<close>

fun with_stat :: "uuid \<Rightarrow> (stat \<Rightarrow> stat) \<Rightarrow> (uuid \<times> stat) list \<Rightarrow> (uuid \<times> stat) list" where
  "with_stat i f [] = [(i, f zero_stat)]"
| "with_stat i f ((k, st) # rest) = (if k = i then (k, f st) # rest else (k, st) # with_stat i f rest)"

definition merge_checkins :: "RollupCheckinCountsRow list \<Rightarrow> (uuid \<times> stat) list \<Rightarrow> (uuid \<times> stat) list" where
  "merge_checkins rows m = fold (\<lambda>r. with_stat (rc_MonitorID r)
     (\<lambda>st. st\<lparr>st_checkins := rc_Checkins r, st_failures := rc_Failures r\<rparr>)) rows m"

definition merge_probes :: "RollupProbeStatsRow list \<Rightarrow> (uuid \<times> stat) list \<Rightarrow> (uuid \<times> stat) list" where
  "merge_probes rows m = fold (\<lambda>r. with_stat (rp_MonitorID r)
     (\<lambda>st. st\<lparr>st_checkins := rp_Checkins r, st_failures := rp_Failures r,
              st_latencyP50 := rp_LatencyP50 r, st_latencyP95 := rp_LatencyP95 r\<rparr>)) rows m"

definition merge_downtime :: "RollupDowntimeSecondsRow list \<Rightarrow> (uuid \<times> stat) list \<Rightarrow> (uuid \<times> stat) list" where
  "merge_downtime rows m = fold (\<lambda>r. with_stat (rd_MonitorID r) (\<lambda>st. st\<lparr>st_downtimeS := rd_DowntimeS r\<rparr>)) rows m"

definition stat_row :: "int \<Rightarrow> uuid \<times> stat \<Rightarrow> daily_stat_row" where
  "stat_row day e = \<lparr>d_monitor_id = fst e, d_day = day, d_checkins = st_checkins (snd e),
     d_failures = st_failures (snd e), d_downtime_s = st_downtimeS (snd e),
     d_latency_p50 = st_latencyP50 (snd e), d_latency_p95 = st_latencyP95 (snd e)\<rparr>"

fun upsertAll :: "int \<Rightarrow> (uuid \<times> stat) list \<Rightarrow> unit dbm" where
  "upsertAll day [] = ret ()"
| "upsertAll day (e # es) =
     bind (map_err (WrapE ''store: upsert daily stat'') (query (q_UpsertDailyStat (stat_row day e)))) (\<lambda>_. upsertAll day es)"

text \<open>The result of \<open>RollupDay\<close> is MonitorsUpdated; \<open>day\<close> is an instant of a UTC day.\<close>

definition RollupDay :: "percentile \<Rightarrow> gotime \<Rightarrow> nat dbm" where
  "RollupDay pc day =
    (let dayStart = time_Truncate day Day; dayEnd = dayStart + Day in
     bind (map_err (WrapE ''store: rollup checkin counts'') (query (q_RollupCheckinCounts dayStart dayEnd))) (\<lambda>checkinRows.
     bind (map_err (WrapE ''store: rollup probe stats'') (query (q_RollupProbeStats pc dayStart dayEnd))) (\<lambda>probeRows.
     bind (map_err (WrapE ''store: rollup downtime seconds'') (query (q_RollupDowntimeSeconds dayEnd dayStart))) (\<lambda>downtimeRows.
     let byMonitor = merge_downtime downtimeRows (merge_probes probeRows (merge_checkins checkinRows [])) in
     bind (upsertAll (dayStart div Day) byMonitor) (\<lambda>_. ret (length byMonitor))))))"

definition pruneBatchLimit :: int where
  "pruneBatchLimit = 5000"

text \<open>
  The loop of \<open>drainBatches\<close>, with fuel: None is running out of it. \<open>cancelled n\<close> is the
  context's state when \<open>n\<close> turns are left.
\<close>

fun drainBatches :: "nat \<Rightarrow> (nat \<Rightarrow> bool) \<Rightarrow> int dbm \<Rightarrow> int \<Rightarrow> int option dbm" where
  "drainBatches 0 cancelled deleteBatch tot = ret None"
| "drainBatches (Suc n) cancelled deleteBatch tot =
    (if cancelled n then raise (MsgE ''context canceled'')
     else bind deleteBatch (\<lambda>k.
       if k < pruneBatchLimit then ret (Some (tot + k))
       else drainBatches n cancelled deleteBatch (tot + k)))"

record PruneResult =
  pr_Checkins :: int
  pr_ProbeResults :: int
  pr_Events :: int

definition PruneOldData :: "nat \<Rightarrow> (nat \<Rightarrow> bool) \<Rightarrow> gotime \<Rightarrow> PruneResult option dbm" where
  "PruneOldData fuel cancelled cutoff =
     bind (map_err (WrapE ''store: prune checkins'')
       (drainBatches fuel cancelled (query (q_DeleteOldCheckinsBatch cutoff pruneBatchLimit)) 0)) (\<lambda>cs.
     bind (map_err (WrapE ''store: prune probe results'')
       (drainBatches fuel cancelled (query (q_DeleteOldProbeResultsBatch cutoff pruneBatchLimit)) 0)) (\<lambda>ps.
     bind (map_err (WrapE ''store: prune events'')
       (drainBatches fuel cancelled (query (q_DeleteOldEventsBatch cutoff pruneBatchLimit)) 0)) (\<lambda>es.
     ret (case (cs, ps, es) of
        (Some c, Some p, Some e) \<Rightarrow> Some \<lparr>pr_Checkins = c, pr_ProbeResults = p, pr_Events = e\<rparr>
      | _ \<Rightarrow> None))))"

section \<open>The worker side\<close>

definition DefaultRetentionDays :: int where
  "DefaultRetentionDays = 90"

definition rollup_New :: "int \<Rightarrow> int" where
  "rollup_New retentionDays = (if retentionDays \<le> 0 then DefaultRetentionDays else retentionDays)"

text \<open>
  One tick: the state is the last rolled-up day (0 before the first), the clock reads \<open>t\<close>. Errors
  are logged, so a tick never fails.
\<close>

definition rollup_tick ::
  "percentile \<Rightarrow> nat \<Rightarrow> (nat \<Rightarrow> bool) \<Rightarrow> int \<Rightarrow> gotime \<Rightarrow> gotime \<Rightarrow> gotime dbm" where
  "rollup_tick pc fuel cancelled retentionDays lastRolled t =
    (let today = time_Truncate t Day; yesterday = today - Day in
     bind (if lastRolled = yesterday then ret lastRolled
           else catch (bind (RollupDay pc yesterday) (\<lambda>_. ret yesterday)) (\<lambda>_. ret lastRolled)) (\<lambda>rolled.
     let cutoff = today - retentionDays * Day in
     bind (catch (bind (PruneOldData fuel cancelled cutoff) (\<lambda>_. ret ())) (\<lambda>_. ret ())) (\<lambda>_. ret rolled)))"

section \<open>The rollup of a day\<close>

lemma rollup_stmts_wf [tx_rules]:
  "stmt_keeps I (q_RollupCheckinCounts a b)" "stmt_keeps I (q_RollupProbeStats pc a b)"
  "stmt_keeps I (q_RollupDowntimeSeconds a b)" "stmt_keeps I (q_ListDailyStatsByMonitorIDs is n)"
  "stmt_keeps wf_db (q_UpsertDailyStat r)"
  by (simp_all add: q_RollupCheckinCounts_def q_RollupProbeStats_def q_RollupDowntimeSeconds_def
      q_ListDailyStatsByMonitorIDs_def reading_keeps stmt_keeps_def q_UpsertDailyStat_def Let_def wf_db_def)

lemma upsertAll_wf [tx_rules]: "keeps_all wf_db (upsertAll day es)"
  by (induction es) (auto intro!: tx_rules)

lemma drainBatches_wf [tx_rules]: "keeps_all I m \<Longrightarrow> keeps_all I (drainBatches n c m tot)"
  by (induction n arbitrary: tot) (auto intro!: tx_rules)

lemma rollup_wf [tx_rules]:
  "keeps_all wf_db (RollupDay pc day)" "keeps_all wf_db (PruneOldData fuel c cutoff)"
  "keeps_all wf_db (rollup_tick pc fuel c days lastRolled t)" "keeps_all I (ListDailyStats x ids since)"
  unfolding rollup_tick_def RollupDay_def PruneOldData_def ListDailyStats_def Let_def
  by (auto intro!: tx_rules)

text \<open>The three merges in one association list with distinct keys.\<close>

lemma with_stat_keys: "fst ` set (with_stat i f m) = insert i (fst ` set m)"
  by (induction i f m rule: with_stat.induct) auto

lemma with_stat_distinct: "distinct (map fst m) \<Longrightarrow> distinct (map fst (with_stat i f m))"
proof (induction i f m rule: with_stat.induct)
  case (2 i f k st rest)
  then show ?case using with_stat_keys [of i f rest] by auto
qed simp

lemma map_of_with_stat:
  "map_of (with_stat i f m) k = (if k = i then Some (f (case map_of m i of None \<Rightarrow> zero_stat | Some st \<Rightarrow> st)) else map_of m k)"
  by (induction i f m rule: with_stat.induct) auto

lemma fold_with_stat_distinct:
  "distinct (map fst m) \<Longrightarrow> distinct (map fst (fold (\<lambda>r. with_stat (g r) (h r)) rows m))"
  by (induction rows arbitrary: m) (auto simp: with_stat_distinct)

lemma fold_with_stat_keys:
  "fst ` set (fold (\<lambda>r. with_stat (g r) (h r)) rows m) = g ` set rows \<union> fst ` set m"
  by (induction rows arbitrary: m) (auto simp: with_stat_keys)

lemma map_of_fold_with_stat:
  assumes "distinct (map g rows)"
  shows "map_of (fold (\<lambda>r. with_stat (g r) (h r)) rows m) k =
    (case the_row (\<lambda>r. g r = k) rows of
       None \<Rightarrow> map_of m k
     | Some r \<Rightarrow> Some (h r (case map_of m k of None \<Rightarrow> zero_stat | Some st \<Rightarrow> st)))"
  using assms
proof (induction rows arbitrary: m)
  case (Cons r rows)
  have "the_row (\<lambda>r. g r = k) rows = None" if "g r = k"
    using Cons.prems that by (auto simp: the_row_None_iff image_iff)
  with Cons show ?case by (cases "g r = k") (auto simp: map_of_with_stat split: option.split)
qed simp

text \<open>Writing the entries one after the other.\<close>

definition stat_at :: "db \<Rightarrow> uuid \<Rightarrow> int \<Rightarrow> daily_stat_row option" where
  "stat_at d mid day = the_row (\<lambda>q. d_monitor_id q = mid \<and> d_day q = day) (daily_stats d)"

definition settled :: "daily_stat_row \<Rightarrow> db \<Rightarrow> bool" where
  "settled r d \<longleftrightarrow> r \<in> set (daily_stats d) \<and>
     (\<forall>q \<in> set (daily_stats d). d_monitor_id q = d_monitor_id r \<longrightarrow> d_day q = d_day r \<longrightarrow> q = r)"

definition upserted :: "daily_stat_row \<Rightarrow> db \<Rightarrow> db" where
  "upserted r d = (let key = (\<lambda>q. d_monitor_id q = d_monitor_id r \<and> d_day q = d_day r) in
     if list_ex key (daily_stats d) then d\<lparr>daily_stats := update_where key (\<lambda>_. r) (daily_stats d)\<rparr>
     else d\<lparr>daily_stats := daily_stats d @ [r]\<rparr>)"

lemma upserted_frame [simp]:
  "monitors (upserted r d) = monitors d" "checkins (upserted r d) = checkins d"
  "events (upserted r d) = events d" "probe_results (upserted r d) = probe_results d"
  "users (upserted r d) = users d" "api_keys (upserted r d) = api_keys d" "refresh_tokens (upserted r d) = refresh_tokens d"
  "alerts (upserted r d) = alerts d" "seqs (upserted r d) = seqs d"
  by (simp_all add: upserted_def Let_def)

lemma upserted_settled: "settled r (upserted r d)"
  unfolding settled_def upserted_def Let_def
  by (auto simp: update_where_set list_ex_iff image_iff split: if_splits)

lemma upserted_keeps_settled:
  assumes "settled q d" and "d_monitor_id q \<noteq> d_monitor_id r \<or> d_day q \<noteq> d_day r"
  shows "settled q (upserted r d)"
  using assms unfolding settled_def upserted_def Let_def
  by (auto simp: update_where_set image_iff split: if_splits)

lemma upserted_again: "settled r d \<Longrightarrow> upserted r d = d"
proof -
  assume s: "settled r d"
  then have "update_where (\<lambda>q. d_monitor_id q = d_monitor_id r \<and> d_day q = d_day r) (\<lambda>_. r) (daily_stats d) = daily_stats d"
    by (auto simp: settled_def update_where_def intro!: map_idI)
  moreover have "list_ex (\<lambda>q. d_monitor_id q = d_monitor_id r \<and> d_day q = d_day r) (daily_stats d)"
    using s by (auto simp: settled_def list_ex_iff)
  ultimately show ?thesis by (simp add: upserted_def)
qed

lemma settled_stat_at: "settled r d \<Longrightarrow> stat_at d (d_monitor_id r) (d_day r) = Some r"
proof -
  assume s: "settled r d"
  then have "stat_at d (d_monitor_id r) (d_day r) \<noteq> None"
    by (auto simp: settled_def stat_at_def the_row_None_iff)
  then obtain q where "stat_at d (d_monitor_id r) (d_day r) = Some q" by auto
  with s show ?thesis by (auto simp: settled_def stat_at_def dest!: the_row_SomeD)
qed

lemma stat_at_upserted_other:
  assumes "d_monitor_id r \<noteq> mid \<or> d_day r \<noteq> day"
  shows "stat_at (upserted r d) mid day = stat_at d mid day"
proof -
  have "the_row (\<lambda>q. d_monitor_id q = mid \<and> d_day q = day)
      (update_where (\<lambda>q. d_monitor_id q = d_monitor_id r \<and> d_day q = d_day r) (\<lambda>_. r) qs) =
    the_row (\<lambda>q. d_monitor_id q = mid \<and> d_day q = day) qs" for qs
    using assms by (induction qs) auto
  moreover have "the_row (\<lambda>q. d_monitor_id q = mid \<and> d_day q = day) (qs @ [r]) =
      the_row (\<lambda>q. d_monitor_id q = mid \<and> d_day q = day) qs" for qs
    using assms by (induction qs) auto
  ultimately show ?thesis by (simp add: stat_at_def upserted_def Let_def)
qed

definition upserts :: "int \<Rightarrow> (uuid \<times> stat) list \<Rightarrow> db \<Rightarrow> db" where
  "upserts day es d = fold (\<lambda>e. upserted (stat_row day e)) es d"

lemma upserts_frame [simp]:
  "monitors (upserts day es d) = monitors d" "checkins (upserts day es d) = checkins d"
  "events (upserts day es d) = events d" "probe_results (upserts day es d) = probe_results d"
  "users (upserts day es d) = users d" "api_keys (upserts day es d) = api_keys d" "refresh_tokens (upserts day es d) = refresh_tokens d"
  "alerts (upserts day es d) = alerts d" "seqs (upserts day es d) = seqs d"
  by (induction es arbitrary: d) (simp_all add: upserts_def)

lemma upserts_only_stats: "upserts day es d = d\<lparr>daily_stats := daily_stats (upserts day es d)\<rparr>"
  by (rule db.equality) simp_all

lemma upsertAll_quiet:
  assumes "\<forall>e \<in> set es. has_monitor d (fst e)"
  shows "upsertAll day es (quiet d now) = (Inr (), quiet (upserts day es d) now)"
  using assms
proof (induction es arbitrary: d)
  case Nil
  then show ?case by (simp add: ret_def upserts_def)
next
  case (Cons e es)
  then have m: "has_monitor d (d_monitor_id (stat_row day e))" by (simp add: stat_row_def)
  have s: "query (q_UpsertDailyStat (stat_row day e)) (quiet d now) = (Inr (), quiet (upserted (stat_row day e) d) now)"
    using m by (simp add: query_quiet q_UpsertDailyStat_def upserted_def Let_def)
  have "\<forall>e' \<in> set es. has_monitor (upserted (stat_row day e) d) (fst e')"
    using Cons.prems by (simp add: has_monitor_def)
  from Cons.IH [OF this] s show ?case by (simp add: bind_def map_err_def upserts_def)
qed

lemma upserts_settled:
  assumes "distinct (map fst es)"
  shows "e \<in> set es \<Longrightarrow> settled (stat_row day e) (upserts day es d)"
    and "settled q d \<Longrightarrow> d_monitor_id q \<notin> fst ` set es \<or> d_day q \<noteq> day \<Longrightarrow> settled q (upserts day es d)"
proof -
  have keep: "settled q (upserts day es d)"
    if "settled q d" "d_monitor_id q \<notin> fst ` set es \<or> d_day q \<noteq> day" for q es d
    using that
  proof (induction es arbitrary: d)
    case (Cons a es)
    then have "settled q (upserted (stat_row day a) d)"
      by (intro upserted_keeps_settled) (auto simp: stat_row_def)
    with Cons show ?case by (auto simp: upserts_def)
  qed (simp add: upserts_def)
  show "settled q d \<Longrightarrow> d_monitor_id q \<notin> fst ` set es \<or> d_day q \<noteq> day \<Longrightarrow> settled q (upserts day es d)" by (rule keep)
  show "e \<in> set es \<Longrightarrow> settled (stat_row day e) (upserts day es d)"
    using assms
  proof (induction es arbitrary: d)
    case (Cons a es)
    show ?case
    proof (cases "e = a")
      case True
      have "settled (stat_row day a) (upserted (stat_row day a) d)" by (rule upserted_settled)
      with keep [OF this, of es] Cons.prems(2) True show ?thesis
        by (simp add: upserts_def stat_row_def)
    next
      case False
      with Cons show ?thesis by (simp add: upserts_def)
    qed
  qed simp
qed

lemma upserts_again:
  assumes "\<forall>e \<in> set es. settled (stat_row day e) d"
  shows "upserts day es d = d"
  using assms by (induction es) (simp_all add: upserts_def upserted_again)

lemma stat_at_upserts_other:
  assumes "mid \<notin> fst ` set es \<or> day' \<noteq> day"
  shows "stat_at (upserts day es d) mid day' = stat_at d mid day'"
  using assms
proof (induction es arbitrary: d)
  case (Cons a es)
  then have "stat_at (upserted (stat_row day a) d) mid day' = stat_at d mid day'"
    by (intro stat_at_upserted_other) (auto simp: stat_row_def)
  with Cons show ?case by (auto simp: upserts_def)
qed (simp add: upserts_def)

text \<open>The specification: what a monitor's row for a day holds.\<close>

definition day_checkins :: "gotime \<Rightarrow> gotime \<Rightarrow> uuid \<Rightarrow> db \<Rightarrow> checkin_row list" where
  "day_checkins a b mid d = filter (\<lambda>c. c_monitor_id c = mid \<and> in_range a b (c_created_at c)) (checkins d)"

definition day_probes :: "gotime \<Rightarrow> gotime \<Rightarrow> uuid \<Rightarrow> db \<Rightarrow> probe_result_row list" where
  "day_probes a b mid d = filter (\<lambda>p. p_monitor_id p = mid \<and> in_range a b (p_created_at p)) (probe_results d)"

definition day_stat :: "percentile \<Rightarrow> gotime \<Rightarrow> gotime \<Rightarrow> uuid \<Rightarrow> db \<Rightarrow> stat" where
  "day_stat pc a b mid d =
    (let cs = day_checkins a b mid d; ps = day_probes a b mid d; oks = filter p_ok ps in
     if ps \<noteq> []
     then \<lparr>st_checkins = int (length ps), st_failures = int (length (filter (\<lambda>p. \<not> p_ok p) ps)),
           st_latencyP50 = (if oks = [] then None else latency_pct pc 50 ps),
           st_latencyP95 = (if oks = [] then None else latency_pct pc 95 ps),
           st_downtimeS = downtime_s a b mid (events d)\<rparr>
     else \<lparr>st_checkins = int (length cs), st_failures = int (length (filter (\<lambda>c. c_kind c = ''fail'') cs)),
           st_latencyP50 = None, st_latencyP95 = None, st_downtimeS = downtime_s a b mid (events d)\<rparr>)"

definition day_active :: "gotime \<Rightarrow> gotime \<Rightarrow> uuid \<Rightarrow> db \<Rightarrow> bool" where
  "day_active a b mid d \<longleftrightarrow> day_checkins a b mid d \<noteq> [] \<or> day_probes a b mid d \<noteq> [] \<or> day_outages a b mid (events d) \<noteq> []"

lemma the_row_group:
  "the_row (\<lambda>r. g r = k) (map h (remdups ks)) = (if k \<in> set ks then Some (h k) else None)" if "\<And>i. g (h i) = i"
  using that by (induction ks) auto

lemma map_keys_group: "distinct (map g (map h (remdups ks)))" if "\<And>i. g (h i) = i"
  by (simp add: that comp_def)

definition checkin_groups :: "gotime \<Rightarrow> gotime \<Rightarrow> db \<Rightarrow> RollupCheckinCountsRow list" where
  "checkin_groups a b d = map (\<lambda>mid. \<lparr>rc_MonitorID = mid, rc_Checkins = int (length (day_checkins a b mid d)),
      rc_Failures = int (length (filter (\<lambda>c. c_kind c = ''fail'') (day_checkins a b mid d)))\<rparr>)
    (remdups (map c_monitor_id (filter (\<lambda>c. in_range a b (c_created_at c)) (checkins d))))"

definition probe_groups :: "percentile \<Rightarrow> gotime \<Rightarrow> gotime \<Rightarrow> db \<Rightarrow> RollupProbeStatsRow list" where
  "probe_groups pc a b d = map (\<lambda>mid. let g = day_probes a b mid d in
      \<lparr>rp_MonitorID = mid, rp_Checkins = int (length g), rp_Failures = int (length (filter (\<lambda>p. \<not> p_ok p) g)),
       rp_LatencyP50 = (if filter p_ok g = [] then None else latency_pct pc 50 g),
       rp_LatencyP95 = (if filter p_ok g = [] then None else latency_pct pc 95 g)\<rparr>)
    (remdups (map p_monitor_id (filter (\<lambda>p. in_range a b (p_created_at p)) (probe_results d))))"

definition downtime_groups :: "gotime \<Rightarrow> gotime \<Rightarrow> db \<Rightarrow> RollupDowntimeSecondsRow list" where
  "downtime_groups a b d = map (\<lambda>mid. \<lparr>rd_MonitorID = mid, rd_DowntimeS = downtime_s a b mid (events d)\<rparr>)
    (filter (\<lambda>mid. day_outages a b mid (events d) \<noteq> []) (remdups (map e_monitor_id (events d))))"

definition by_monitor :: "percentile \<Rightarrow> gotime \<Rightarrow> gotime \<Rightarrow> db \<Rightarrow> (uuid \<times> stat) list" where
  "by_monitor pc a b d = merge_downtime (downtime_groups a b d) (merge_probes (probe_groups pc a b d)
     (merge_checkins (checkin_groups a b d) []))"

lemma outages_of_mem:
  "oo \<in> set (outages_of b es) \<Longrightarrow> \<exists>e \<in> set es. e_type e = ''down'' \<and> fst oo = e_created_at e"
  by (induction b es rule: outages_of.induct) (auto split: if_splits)

lemma day_outages_event:
  assumes "day_outages a b mid es \<noteq> []"
  shows "mid \<in> e_monitor_id ` set es"
proof -
  obtain oo where "oo \<in> set (outages_of b (transitions_of b mid es))"
    using assms by (auto simp: day_outages_def filter_empty_conv)
  from outages_of_mem [OF this] show ?thesis by (auto simp: transitions_of_def)
qed

lemma distinct_by_monitor: "distinct (map fst (by_monitor pc a b d))"
  unfolding by_monitor_def merge_downtime_def merge_probes_def merge_checkins_def
  by (intro fold_with_stat_distinct) simp

lemma groups_keys:
  "distinct (map rc_MonitorID (checkin_groups a b d))" "distinct (map rp_MonitorID (probe_groups pc a b d))"
  "distinct (map rd_MonitorID (downtime_groups a b d))"
  by (simp_all add: checkin_groups_def probe_groups_def downtime_groups_def comp_def Let_def)

lemma groups_rows:
  "the_row (\<lambda>r. rc_MonitorID r = mid) (checkin_groups a b d) = (if day_checkins a b mid d = [] then None
     else Some \<lparr>rc_MonitorID = mid, rc_Checkins = int (length (day_checkins a b mid d)),
      rc_Failures = int (length (filter (\<lambda>c. c_kind c = ''fail'') (day_checkins a b mid d)))\<rparr>)"
  "the_row (\<lambda>r. rp_MonitorID r = mid) (probe_groups pc a b d) = (if day_probes a b mid d = [] then None
     else Some (let g = day_probes a b mid d in
      \<lparr>rp_MonitorID = mid, rp_Checkins = int (length g), rp_Failures = int (length (filter (\<lambda>p. \<not> p_ok p) g)),
       rp_LatencyP50 = (if filter p_ok g = [] then None else latency_pct pc 50 g),
       rp_LatencyP95 = (if filter p_ok g = [] then None else latency_pct pc 95 g)\<rparr>))"
  "the_row (\<lambda>r. rd_MonitorID r = mid) (downtime_groups a b d) = (if day_outages a b mid (events d) = [] then None
     else Some \<lparr>rd_MonitorID = mid, rd_DowntimeS = downtime_s a b mid (events d)\<rparr>)"
proof -
  show "the_row (\<lambda>r. rc_MonitorID r = mid) (checkin_groups a b d) = (if day_checkins a b mid d = [] then None
     else Some \<lparr>rc_MonitorID = mid, rc_Checkins = int (length (day_checkins a b mid d)),
      rc_Failures = int (length (filter (\<lambda>c. c_kind c = ''fail'') (day_checkins a b mid d)))\<rparr>)"
    unfolding checkin_groups_def by (subst the_row_group) (auto simp: day_checkins_def filter_empty_conv)
  show "the_row (\<lambda>r. rp_MonitorID r = mid) (probe_groups pc a b d) = (if day_probes a b mid d = [] then None
     else Some (let g = day_probes a b mid d in
      \<lparr>rp_MonitorID = mid, rp_Checkins = int (length g), rp_Failures = int (length (filter (\<lambda>p. \<not> p_ok p) g)),
       rp_LatencyP50 = (if filter p_ok g = [] then None else latency_pct pc 50 g),
       rp_LatencyP95 = (if filter p_ok g = [] then None else latency_pct pc 95 g)\<rparr>))"
    unfolding probe_groups_def by (subst the_row_group) (auto simp: day_probes_def filter_empty_conv Let_def)
  have g: "downtime_groups a b d = map (\<lambda>mid. \<lparr>rd_MonitorID = mid, rd_DowntimeS = downtime_s a b mid (events d)\<rparr>)
      (remdups (filter (\<lambda>mid. day_outages a b mid (events d) \<noteq> []) (map e_monitor_id (events d))))"
    by (simp add: downtime_groups_def remdups_filter)
  show "the_row (\<lambda>r. rd_MonitorID r = mid) (downtime_groups a b d) = (if day_outages a b mid (events d) = [] then None
     else Some \<lparr>rd_MonitorID = mid, rd_DowntimeS = downtime_s a b mid (events d)\<rparr>)"
    unfolding g by (subst the_row_group) (auto dest: day_outages_event)
qed

lemma map_of_by_monitor:
  "map_of (by_monitor pc a b d) mid = (if day_active a b mid d then Some (day_stat pc a b mid d) else None)"
proof -
  have "downtime_s a b mid (events d) = 0" if "day_outages a b mid (events d) = []"
    using that by (simp add: downtime_s_def round_seconds_def Second_def)
  then show ?thesis
    unfolding by_monitor_def merge_downtime_def merge_probes_def merge_checkins_def
    by (simp add: map_of_fold_with_stat groups_keys groups_rows day_active_def day_stat_def Let_def zero_stat_def)
qed

text \<open>The casts of the statements: no count and no downtime of the day leaves int32.\<close>

definition rollup_fits :: "gotime \<Rightarrow> gotime \<Rightarrow> db \<Rightarrow> bool" where
  "rollup_fits a b d \<longleftrightarrow> int (length (checkins d)) \<le> max_int32 \<and> int (length (probe_results d)) \<le> max_int32 \<and>
     (\<forall>mid \<in> e_monitor_id ` set (events d). int32_range (downtime_s a b mid (events d)))"

lemma small_count: "int (length xs) \<le> max_int32 \<Longrightarrow> length ys \<le> length xs \<Longrightarrow> int32_range (int (length ys))"
  by (simp add: int32_range_def max_int32_def)

lemma rollup_reads:
  assumes "rollup_fits a b d"
  shows "q_RollupCheckinCounts a b now d = (Inr (checkin_groups a b d), d)"
    "q_RollupProbeStats pc a b now d = (Inr (probe_groups pc a b d), d)"
    "q_RollupDowntimeSeconds b a now d = (Inr (downtime_groups a b d), d)"
proof -
  have c: "int32_range (int (length (filter P (day_checkins a b mid d))))"
    "int32_range (int (length (day_checkins a b mid d)))" for mid P
    using assms by (auto simp: rollup_fits_def day_checkins_def intro!: small_count [of "checkins d"] order_trans [OF length_filter_le])
  have p: "int32_range (int (length (filter P (day_probes a b mid d))))"
    "int32_range (int (length (day_probes a b mid d)))" for mid P
    using assms by (auto simp: rollup_fits_def day_probes_def intro!: small_count [of "probe_results d"] order_trans [OF length_filter_le])
  have gc: "filter (\<lambda>c. c_monitor_id c = mid) (filter (\<lambda>c. in_range a b (c_created_at c)) (checkins d)) = day_checkins a b mid d" for mid
    by (auto simp: day_checkins_def intro!: filter_cong)
  have gp: "filter (\<lambda>p. p_monitor_id p = mid) (filter (\<lambda>p. in_range a b (p_created_at p)) (probe_results d)) = day_probes a b mid d" for mid
    by (auto simp: day_probes_def intro!: filter_cong)
  show "q_RollupCheckinCounts a b now d = (Inr (checkin_groups a b d), d)"
    by (simp add: q_RollupCheckinCounts_def Let_def gc checkin_groups_def all_int32_def list_all_iff c del: filter_filter)
  show "q_RollupProbeStats pc a b now d = (Inr (probe_groups pc a b d), d)"
    by (simp add: q_RollupProbeStats_def Let_def gp probe_groups_def all_int32_def list_all_iff p del: filter_filter)
  show "q_RollupDowntimeSeconds b a now d = (Inr (downtime_groups a b d), d)"
    using assms by (auto simp: q_RollupDowntimeSeconds_def downtime_groups_def all_int32_def list_all_iff rollup_fits_def)
qed

lemma by_monitor_monitors:
  assumes "wf_db d" and "e \<in> set (by_monitor pc a b d)"
  shows "has_monitor d (fst e)"
proof -
  have "day_active a b (fst e) d"
    using assms(2) map_of_by_monitor [of pc a b d "fst e"] map_of_eq_None_iff [of "by_monitor pc a b d" "fst e"]
    by (auto split: if_splits)
  then consider "fst e \<in> c_monitor_id ` set (checkins d)" | "fst e \<in> p_monitor_id ` set (probe_results d)"
    | "fst e \<in> e_monitor_id ` set (events d)"
    unfolding day_active_def using day_outages_event [of a b "fst e" "events d"]
    by (auto simp: day_checkins_def day_probes_def filter_empty_conv rev_image_eqI)
  then show ?thesis using assms(1)
    by cases (auto simp: has_monitor_def wf_db_def wf_checkins_def wf_probe_results_def wf_events_def)
qed

lemma RollupDay_quiet:
  assumes "wf_db d" and "a = time_Truncate day Day" and "rollup_fits a (a + Day) d"
  shows "RollupDay pc day (quiet d now) = (Inr (length (by_monitor pc a (a + Day) d)),
    quiet (upserts (a div Day) (by_monitor pc a (a + Day) d) d) now)"
proof -
  have "\<forall>e \<in> set (by_monitor pc a (a + Day) d). has_monitor d (fst e)"
    using by_monitor_monitors [OF assms(1)] by blast
  from upsertAll_quiet [OF this] show ?thesis
    by (simp add: RollupDay_def assms(2) [symmetric] Let_def bind_def map_err_def query_quiet rollup_reads [OF assms(3)]
        by_monitor_def [symmetric] ret_def)
qed

section \<open>Downtime, said with instants\<close>

text \<open>
  A monitor is down at an instant when the latest of its down and up events until then is a down
  event. It had an outage on the day when it has a down event before the end of the day that no up
  event follows next until the start of the day.
\<close>

definition down_at :: "uuid \<Rightarrow> event_row list \<Rightarrow> gotime \<Rightarrow> bool" where
  "down_at mid es t \<longleftrightarrow> (case rev (sort_key e_created_at
      (filter (\<lambda>e. e_monitor_id e = mid \<and> e_type e \<in> {''down'', ''up''} \<and> e_created_at e \<le> t) es)) of
     [] \<Rightarrow> False | e # _ \<Rightarrow> e_type e = ''down'')"

definition had_outage :: "gotime \<Rightarrow> gotime \<Rightarrow> uuid \<Rightarrow> event_row list \<Rightarrow> bool" where
  "had_outage a b mid es \<longleftrightarrow> (\<exists>pre e post. transitions_of b mid es = pre @ e # post \<and> e_type e = ''down'' \<and>
     (\<forall>nx post'. post = nx # post' \<longrightarrow> e_type nx = ''up'' \<longrightarrow> a < e_created_at nx))"

text \<open>Outages that do not overlap: a down event is followed by an up event or by nothing.\<close>

fun alternating :: "event_row list \<Rightarrow> bool" where
  "alternating (e # nx # es) \<longleftrightarrow> (e_type e = ''down'' \<longrightarrow> e_type nx \<noteq> ''down'') \<and> alternating (nx # es)"
| "alternating _ \<longleftrightarrow> True"

lemma outages_scan:
  assumes "a < b" and "\<forall>e \<in> set ts. e_created_at e < b"
  shows "(\<exists>oo \<in> set (outages_of b ts). snd oo > a \<and> fst oo < b) \<longleftrightarrow> (\<exists>pre e post. ts = pre @ e # post \<and> e_type e = ''down'' \<and>
      (\<forall>nx post'. post = nx # post' \<longrightarrow> e_type nx = ''up'' \<longrightarrow> a < e_created_at nx))"
  using assms(2)
proof (induction ts)
  case (Cons e ts)
  let ?first = "e_type e = ''down'' \<and> (\<forall>nx post'. ts = nx # post' \<longrightarrow> e_type nx = ''up'' \<longrightarrow> a < e_created_at nx)"
  have "(\<exists>pre e' post. e # ts = pre @ e' # post \<and> e_type e' = ''down'' \<and>
      (\<forall>nx post'. post = nx # post' \<longrightarrow> e_type nx = ''up'' \<longrightarrow> a < e_created_at nx)) \<longleftrightarrow> ?first \<or>
    (\<exists>pre e' post. ts = pre @ e' # post \<and> e_type e' = ''down'' \<and>
      (\<forall>nx post'. post = nx # post' \<longrightarrow> e_type nx = ''up'' \<longrightarrow> a < e_created_at nx))" (is "?L \<longleftrightarrow> ?first \<or> ?R")
  proof
    assume ?L
    then obtain pre e' post where s: "e # ts = pre @ e' # post" "e_type e' = ''down''"
      "\<forall>nx post'. post = nx # post' \<longrightarrow> e_type nx = ''up'' \<longrightarrow> a < e_created_at nx" by blast
    show "?first \<or> ?R"
    proof (cases pre)
      case Nil
      with s show ?thesis by simp
    next
      case (Cons z pre')
      with s have ?R by (intro exI [of _ pre'] exI [of _ e'] exI [of _ post]) simp
      then show ?thesis ..
    qed
  next
    assume "?first \<or> ?R"
    then show ?L
    proof
      assume ?first
      then show ?L by (intro exI [of _ "[]"] exI [of _ e] exI [of _ ts]) simp
    next
      assume ?R
      then obtain pre e' post where "ts = pre @ e' # post" "e_type e' = ''down''"
        "\<forall>nx post'. post = nx # post' \<longrightarrow> e_type nx = ''up'' \<longrightarrow> a < e_created_at nx" by blast
      then show ?L by (intro exI [of _ "e # pre"] exI [of _ e'] exI [of _ post]) simp
    qed
  qed
  moreover have "(\<exists>oo \<in> set (outages_of b (e # ts)). snd oo > a \<and> fst oo < b) \<longleftrightarrow>
      ?first \<or> (\<exists>oo \<in> set (outages_of b ts). snd oo > a \<and> fst oo < b)"
    using Cons.prems assms(1) by (cases ts) (auto split: if_splits)
  ultimately show ?case using Cons by simp
qed simp

lemma had_outage_iff:
  assumes "a < b"
  shows "had_outage a b mid es \<longleftrightarrow> day_outages a b mid es \<noteq> []"
proof -
  have "\<forall>e \<in> set (transitions_of b mid es). e_created_at e < b" by (simp add: transitions_of_def)
  from outages_scan [OF assms this] have "(\<exists>oo \<in> set (outages_of b (transitions_of b mid es)). snd oo > a \<and> fst oo < b) \<longleftrightarrow>
      had_outage a b mid es"
    unfolding had_outage_def .
  moreover have "day_outages a b mid es \<noteq> [] \<longleftrightarrow>
      (\<exists>oo \<in> set (outages_of b (transitions_of b mid es)). snd oo > a \<and> fst oo < b)"
    unfolding day_outages_def filter_empty_conv by (auto simp: case_prod_beta intro: bexI [rotated])
  ultimately show ?thesis by simp
qed

lemma overlap_card: "int (card {t. a \<le> t \<and> t < b \<and> u \<le> t \<and> t < (v :: int)}) = clamped a b (u, v)"
proof -
  have "{t. a \<le> t \<and> t < b \<and> u \<le> t \<and> t < v} = {max u a..<min v b}" by auto
  then show ?thesis by (auto simp: clamped_def max_def min_def)
qed

text \<open>For events in order, the instants after the last event of a prefix.\<close>

definition down_in :: "event_row list \<Rightarrow> gotime \<Rightarrow> bool" where
  "down_in ts t \<longleftrightarrow> (case rev (filter (\<lambda>e. e_created_at e \<le> t) ts) of [] \<Rightarrow> False | e # _ \<Rightarrow> e_type e = ''down'')"

lemma down_in_first:
  assumes "sorted (map e_created_at (e # nx # ts))"
  shows "down_in (e # nx # ts) t \<longleftrightarrow>
    e_type e = ''down'' \<and> e_created_at e \<le> t \<and> t < e_created_at nx \<or> down_in (nx # ts) t"
proof (cases "e_created_at nx \<le> t")
  case True
  then have "filter (\<lambda>e. e_created_at e \<le> t) (nx # ts) \<noteq> []" by simp
  then obtain z zs where "rev (filter (\<lambda>e. e_created_at e \<le> t) (nx # ts)) = z # zs" by (metis list.exhaust rev_is_Nil_conv)
  with True assms show ?thesis by (auto simp: down_in_def)
next
  case False
  with assms have "filter (\<lambda>e. e_created_at e \<le> t) (nx # ts) = []" by (auto simp: filter_empty_conv)
  with False show ?thesis by (auto simp: down_in_def)
qed

lemma outages_instants:
  assumes "sorted (map e_created_at ts)" and "alternating ts"
    and "\<forall>e \<in> set ts. e_type e \<in> {''down'', ''up''} \<and> e_created_at e < b"
  shows "sum_list (map (clamped a b) (outages_of b ts)) = int (card {t. a \<le> t \<and> t < b \<and> down_in ts t})"
  using assms
proof (induction ts rule: alternating.induct [case_names More None One])
  case (More e nx ts)
  let ?S = "{t. a \<le> t \<and> t < b \<and> e_type e = ''down'' \<and> e_created_at e \<le> t \<and> t < e_created_at nx}"
  let ?T = "{t. a \<le> t \<and> t < b \<and> down_in (nx # ts) t}"
  have IH: "sum_list (map (clamped a b) (outages_of b (nx # ts))) = int (card ?T)" by (rule More.IH) (use More.prems in auto)
  have fin: "finite ?S" "finite ?T" by (rule finite_subset [of _ "{a..<b}"], auto)+
  have later: "e_created_at nx \<le> t" if "down_in (nx # ts) t" for t
  proof (rule ccontr)
    assume "\<not> e_created_at nx \<le> t"
    with More.prems(1) have "filter (\<lambda>e. e_created_at e \<le> t) (nx # ts) = []" by (auto simp: filter_empty_conv)
    with that show False by (simp add: down_in_def)
  qed
  have "{t. a \<le> t \<and> t < b \<and> down_in (e # nx # ts) t} = ?S \<union> ?T" using down_in_first [OF More.prems(1)] by auto
  moreover have "?S \<inter> ?T = {}" using later by force
  ultimately have c: "card {t. a \<le> t \<and> t < b \<and> down_in (e # nx # ts) t} = card ?S + card ?T" using fin by (simp add: card_Un_disjoint)
  show ?case
  proof (cases "e_type e = ''down''")
    case True
    then have "e_type nx = ''up''" using More.prems(2,3) by auto
    with True IH c show ?thesis by (simp add: overlap_card)
  next
    case False
    with IH c show ?thesis by simp
  qed
next
  case (One e)
  have "{t. a \<le> t \<and> t < b \<and> down_in [e] t} = (if e_type e = ''down'' then {t. a \<le> t \<and> t < b \<and> e_created_at e \<le> t \<and> t < b} else {})"
    by (auto simp: down_in_def)
  then show ?case using overlap_card [of a b "e_created_at e" b] by simp
qed (simp add: down_in_def)

text \<open>With alternating events the downtime of the statement is the time the monitor was down.\<close>

lemma downtime_instants:
  assumes "alternating (transitions_of b mid es)"
  shows "downtime_s a b mid es = round_seconds (int (card {t. a \<le> t \<and> t < b \<and> down_at mid es t}))"
proof -
  let ?ts = "transitions_of b mid es"
  have "down_at mid es t \<longleftrightarrow> down_in ?ts t" if "t < b" for t
  proof -
    have "filter (\<lambda>e. e_created_at e \<le> t) ?ts =
        sort_key e_created_at (filter (\<lambda>e. e_monitor_id e = mid \<and> e_type e \<in> {''down'', ''up''} \<and> e_created_at e \<le> t) es)"
      unfolding transitions_of_def filter_sort filter_filter using that by (intro arg_cong [where f = "sort_key e_created_at"] filter_cong) auto
    then show ?thesis by (simp add: down_at_def down_in_def)
  qed
  then have eq: "{t. a \<le> t \<and> t < b \<and> down_at mid es t} = {t. a \<le> t \<and> t < b \<and> down_in ?ts t}" by auto
  have all: "sum_list (map (clamped a b) (filter (\<lambda>(down_at, resolved_at). resolved_at > a \<and> down_at < b) oos)) =
      sum_list (map (clamped a b) oos)" for oos
    by (induction oos) (auto simp: clamped_def)
  have "\<forall>e \<in> set ?ts. e_type e \<in> {''down'', ''up''} \<and> e_created_at e < b" "sorted (map e_created_at ?ts)"
    by (simp_all add: transitions_of_def)
  from outages_instants [OF this(2) assms this(1), of a] show ?thesis
    unfolding downtime_s_def day_outages_def all eq by simp
qed

text \<open>
  C27. Rolling up a day writes, for exactly the monitors with check-ins, probes or an outage on that
  day, one row with its counts, its downtime and its latency percentiles, and returns their number.
  No row of another day or of another monitor changes, nothing else in the database changes, and
  running it again changes nothing. The downtime written for a monitor whose down and up events
  alternate is the time of the day during which the latest of them was a down event, in seconds.
\<close>

theorem RollupDay_effect:
  assumes "wf_db d" and "a = time_Truncate day Day" and "rollup_fits a (a + Day) d"
    and "d' = run_db (RollupDay pc day) now [] d"
    and "active = (\<lambda>mid. day_checkins a (a + Day) mid d \<noteq> [] \<or> day_probes a (a + Day) mid d \<noteq> [] \<or> had_outage a (a + Day) mid (events d))"
  shows "run_res (RollupDay pc day) now [] d = Inr (card {mid. active mid}) \<and>
    d' = d\<lparr>daily_stats := daily_stats d'\<rparr> \<and>
    (\<forall>mid. stat_at d' mid (a div Day) =
       (if active mid then Some (stat_row (a div Day) (mid, day_stat pc a (a + Day) mid d)) else stat_at d mid (a div Day))) \<and>
    (\<forall>r \<in> set (daily_stats d'). d_day r = a div Day \<and> active (d_monitor_id r) \<longrightarrow>
       r = stat_row (a div Day) (d_monitor_id r, day_stat pc a (a + Day) (d_monitor_id r) d)) \<and>
    (\<forall>mid day'. day' \<noteq> a div Day \<longrightarrow> stat_at d' mid day' = stat_at d mid day') \<and>
    (\<forall>mid. alternating (transitions_of (a + Day) mid (events d)) \<longrightarrow> st_downtimeS (day_stat pc a (a + Day) mid d) =
       round_seconds (int (card {t. a \<le> t \<and> t < a + Day \<and> down_at mid (events d) t}))) \<and>
    run_db (RollupDay pc day) now' [] d' = d'"
proof -
  let ?es = "by_monitor pc a (a + Day) d"
  have act: "active = (\<lambda>mid. day_active a (a + Day) mid d)"
    by (rule ext) (simp add: assms(5) day_active_def had_outage_iff duration_units)
  have d': "d' = upserts (a div Day) ?es d"
    using RollupDay_quiet [OF assms(1-3), of pc now] by (simp add: assms(4) run_db_def)
  have st: "settled (stat_row (a div Day) e) d'" if "e \<in> set ?es" for e
    unfolding d' by (rule upserts_settled(1) [OF distinct_by_monitor that])
  have key: "mid \<in> fst ` set ?es \<longleftrightarrow> active mid" for mid
    using map_of_by_monitor [of pc a "a + Day" d mid] map_of_eq_None_iff [of ?es mid] by (auto simp: act split: if_splits)
  have entry: "(mid, day_stat pc a (a + Day) mid d) \<in> set ?es" if "active mid" for mid
    using map_of_by_monitor [of pc a "a + Day" d mid] that by (auto simp: act intro: map_of_SomeD)
  have "stat_at d' mid (a div Day) = Some (stat_row (a div Day) (mid, day_stat pc a (a + Day) mid d))" if "active mid" for mid
    using settled_stat_at [OF st [OF entry [OF that]]] by (simp add: stat_row_def)
  moreover have "r = stat_row (a div Day) (d_monitor_id r, day_stat pc a (a + Day) (d_monitor_id r) d)"
    if "r \<in> set (daily_stats d')" "d_day r = a div Day" "active (d_monitor_id r)" for r
    using st [OF entry [OF that(3)]] that(1,2) by (simp add: settled_def stat_row_def)
  moreover have "stat_at d' mid day' = stat_at d mid day'" if "\<not> active mid \<or> day' \<noteq> a div Day" for mid day'
    using that key [of mid] unfolding d' by (intro stat_at_upserts_other) auto
  moreover have "run_db (RollupDay pc day) now' [] d' = d'"
  proof -
    have same: "by_monitor pc a (a + Day) d' = ?es" "rollup_fits a (a + Day) d'"
      using assms(3) by (simp_all add: d' by_monitor_def checkin_groups_def probe_groups_def downtime_groups_def
          day_checkins_def day_probes_def rollup_fits_def)
    have "wf_db d'" using keeps_all_run [OF rollup_wf(1) assms(1)] assms(4) by simp
    from RollupDay_quiet [OF this assms(2) same(2), of pc now'] same(1) upserts_again [of ?es "a div Day" d'] st
    show ?thesis by (simp add: run_db_def)
  qed
  moreover have "run_res (RollupDay pc day) now [] d = Inr (card {mid. active mid})"
  proof -
    have "{mid. active mid} = set (map fst ?es)" using key by auto
    with distinct_card [OF distinct_by_monitor [of pc a "a + Day" d]] RollupDay_quiet [OF assms(1-3), of pc now]
    show ?thesis by (simp add: run_res_def)
  qed
  moreover have "d' = d\<lparr>daily_stats := daily_stats d'\<rparr>" unfolding d' by (rule upserts_only_stats)
  moreover have "st_downtimeS (day_stat pc a (a + Day) mid d) = downtime_s a (a + Day) mid (events d)" for mid
    by (simp add: day_stat_def Let_def)
  ultimately show ?thesis by (simp add: downtime_instants)
qed

definition demo_day :: db where
  "demo_day = demo_db\<lparr>checkins := [\<lparr>c_id = 1, c_monitor_id = 7, c_kind = ''success'', c_source_ip = None,
       c_user_agent = None, c_body = None, c_created_at = 3 * Second\<rparr>], seqs := (seqs demo_db)\<lparr>seq_checkins := 2\<rparr>\<rparr>"

lemma demo_day_wf: "wf_db demo_day"
  by (simp add: wf_db_def wf_table_defs demo_day_def demo_db_def empty_db_def demo_user_def
      demo_monitor_def monitor_checks_def int32_range_def)

theorem RollupDay_effect_witness:
  "stat_at (run_db (RollupDay (\<lambda>_ _. None) (5 * Hour)) 9 [] demo_day) 7 0 =
   Some (stat_row 0 (7, day_stat (\<lambda>_ _. None) 0 Day 7 demo_day)) \<and>
   alerts (run_db (RollupDay (\<lambda>_ _. None) (5 * Hour)) 9 [] demo_day) = alerts demo_day"
proof -
  have t: "0 = time_Truncate (5 * Hour) Day" by (simp add: time_Truncate_def duration_units)
  have f: "rollup_fits 0 (0 + Day) demo_day"
    by (simp add: rollup_fits_def demo_day_def demo_db_def empty_db_def max_int32_def)
  have a: "day_checkins 0 Day 7 demo_day \<noteq> []"
    by (simp add: day_checkins_def in_range_def demo_day_def duration_units)
  note eff = RollupDay_effect [OF demo_day_wf t f refl refl, where pc = "\<lambda>_ _. None" and now = 9 and now' = 9]
  from eff have "run_db (RollupDay (\<lambda>_ _. None) (5 * Hour)) 9 [] demo_day =
      demo_day\<lparr>daily_stats := daily_stats (run_db (RollupDay (\<lambda>_ _. None) (5 * Hour)) 9 [] demo_day)\<rparr>" by blast
  then have "alerts (run_db (RollupDay (\<lambda>_ _. None) (5 * Hour)) 9 [] demo_day) = alerts demo_day"
    by (metis db.select_convs(8) db.surjective db.update_convs(9))
  with eff a show ?thesis by simp
qed

section \<open>Downtime\<close>

lemma sum_filter_le:
  fixes g :: "'a \<Rightarrow> int"
  assumes "\<And>x. 0 \<le> g x"
  shows "sum_list (map g (filter P xs)) \<le> sum_list (map g xs)"
  using assms by (induction xs) (auto intro: add_increasing)

lemma outages_total:
  assumes "sorted (map e_created_at es)" and "alternating es" and "\<forall>e \<in> set es. e_type e \<in> {''down'', ''up''} \<and> e_created_at e < b"
    and "\<forall>e \<in> set es. s \<le> e_created_at e" and "s \<le> b"
  shows "sum_list (map (clamped a b) (outages_of b es)) \<le> clamped a b (s, b)"
  using assms
proof (induction es arbitrary: s rule: alternating.induct)
  case (1 e nx es)
  have n: "e_created_at e \<le> e_created_at nx" "e_created_at nx < b" "s \<le> e_created_at e" using "1.prems" by auto
  have IH: "sum_list (map (clamped a b) (outages_of b (nx # es))) \<le> clamped a b (e_created_at nx, b)"
    by (rule "1.IH") (use "1.prems" in auto)
  show ?case
  proof (cases "e_type e = ''down''")
    case True
    then have up: "e_type nx = ''up''" using "1.prems"(2,3) by auto
    have "clamped a b (e_created_at e, e_created_at nx) + clamped a b (e_created_at nx, b) \<le> clamped a b (s, b)"
      using n by (auto simp: clamped_def min_def max_def)
    with IH True up show ?thesis by simp
  next
    case False
    have "clamped a b (e_created_at nx, b) \<le> clamped a b (s, b)" using n by (auto simp: clamped_def min_def max_def)
    with IH False show ?thesis by simp
  qed
qed (auto simp: clamped_def)

text \<open>
  When a monitor's down and up events alternate, its downtime of a day lies between 0 and
  the 86400 seconds of the day.
\<close>

theorem downtime_bounded:
  assumes "alternating (transitions_of (a + Day) mid es)"
  shows "0 \<le> downtime_s a (a + Day) mid es \<and> downtime_s a (a + Day) mid es \<le> 86400"
proof -
  let ?ts = "transitions_of (a + Day) mid es" and ?b = "a + Day"
  let ?sum = "sum_list (map (clamped a ?b) (day_outages a ?b mid es))"
  have pos: "0 \<le> clamped a ?b oo" for oo by (simp add: clamped_def)
  obtain s where s: "\<forall>e \<in> set ?ts. s \<le> e_created_at e" "s \<le> ?b"
  proof
    show "\<forall>e \<in> set ?ts. Min (insert ?b (e_created_at ` set ?ts)) \<le> e_created_at e" by simp
  qed simp
  have "?sum \<le> sum_list (map (clamped a ?b) (outages_of ?b ?ts))"
    unfolding day_outages_def by (rule sum_filter_le) (rule pos)
  also have "\<dots> \<le> clamped a ?b (s, ?b)"
    by (rule outages_total [OF _ assms _ s]) (auto simp: transitions_of_def)
  also have "\<dots> \<le> Day" by (simp add: clamped_def duration_units)
  finally have u: "?sum \<le> Day" .
  have l: "0 \<le> ?sum" using pos by (intro sum_list_nonneg) auto
  have "(2 * ?sum + Second) div (2 * Second) \<le> (2 * Day + Second) div (2 * Second)"
    using u by (intro zdiv_mono1) (simp_all add: Second_def)
  then have "round_seconds ?sum \<le> 86400" by (simp add: round_seconds_def duration_units)
  moreover have "0 \<le> round_seconds ?sum" using l by (simp add: round_seconds_def Second_def)
  ultimately show ?thesis by (simp add: downtime_s_def)
qed

definition demo_down :: "gotime \<Rightarrow> event_row" where
  "demo_down t = \<lparr>e_id = t, e_monitor_id = 7, e_type = ''down'', e_message = ''m'', e_meta = MetaEmpty, e_created_at = t\<rparr>"

theorem downtime_bounded_witness:
  "0 \<le> downtime_s 0 (0 + Day) 7 [demo_down (Day - 60 * Second)] \<and> downtime_s 0 (0 + Day) 7 [demo_down (Day - 60 * Second)] \<le> 86400"
  by (rule downtime_bounded) (simp add: transitions_of_def demo_down_def duration_units)

text \<open>
  Two down events without an up event between them are counted as two outages that both
  last to the end of the day, so a monitor can have twice the seconds of the day as downtime.
\<close>

lemma downtime_double_counted:
  "downtime_s 0 Day 7 [demo_down 0, demo_down 1] = 172800"
  by (simp add: downtime_s_def day_outages_def transitions_of_def demo_down_def clamped_def round_seconds_def duration_units)

section \<open>Retention\<close>

lemma keeps_quiet:
  assumes "keeps_all I m" and "I d" and "m (quiet d now) = (r, quiet d' now)"
  shows "I d'"
  using assms(1,2) arg_cong [OF assms(3), of "\<lambda>p. sdb (snd p)"] unfolding keeps_all_def by (metis sess.select_convs(1) snd_conv)

lemma filter_not_taken: "distinct xs \<Longrightarrow> filter (\<lambda>r. r \<notin> set (take n xs)) xs = drop n xs"
proof -
  assume d: "distinct xs"
  have "filter (\<lambda>r. r \<notin> set (take n xs)) (take n xs @ drop n xs) = drop n xs"
    using d set_take_disj_set_drop_if_distinct [OF d, of n n]
    by (subst filter_append) (auto simp: filter_empty_conv filter_id_conv)
  then show ?thesis by simp
qed

text \<open>
  The contract of a batched DELETE: it removes up to \<open>limit\<close> of the old rows and reports how
  many; removing some old rows does not change which of the others are old.
\<close>

locale batch_delete =
  fixes stmt :: "gotime \<Rightarrow> int \<Rightarrow> int stmt"
    and rows :: "db \<Rightarrow> 'r list"
    and old :: "gotime \<Rightarrow> db \<Rightarrow> 'r \<Rightarrow> bool"
    and del :: "'r list \<Rightarrow> db \<Rightarrow> db"
  assumes run: "wf_db d \<Longrightarrow> 0 \<le> limit \<Longrightarrow> B = batch limit (old t d) (rows d) \<Longrightarrow>
      stmt t limit now d = (Inr (int (length B)), del B d)"
    and keeps: "stmt_keeps wf_db (stmt t limit)"
    and rows_del: "wf_db d \<Longrightarrow> set B \<subseteq> set (rows d) \<Longrightarrow> rows (del B d) = filter (\<lambda>r. r \<notin> set B) (rows d)"
    and old_del: "wf_db d \<Longrightarrow> set B \<subseteq> set (filter (old t d) (rows d)) \<Longrightarrow> r \<in> set (rows d) \<Longrightarrow> r \<notin> set B \<Longrightarrow>
      old t (del B d) r = old t d r"
    and del_del: "del B' (del B d) = del (B @ B') d"
    and distinct_rows: "wf_db d \<Longrightarrow> distinct (rows d)"
begin

lemma drain_batches:
  assumes "wf_db d" and "\<forall>k. \<not> c k" and "int (length (filter (old t d) (rows d))) < int n * pruneBatchLimit"
  shows "drainBatches n c (query (stmt t pruneBatchLimit)) tot (quiet d now) =
    (Inr (Some (tot + int (length (filter (old t d) (rows d))))), quiet (del (filter (old t d) (rows d)) d) now)"
  using assms(1,3)
proof (induction n arbitrary: d tot)
  case (Suc n)
  let ?O = "filter (old t d) (rows d)" and ?L = "nat pruneBatchLimit"
  let ?B = "take ?L ?O"
  have s: "stmt t pruneBatchLimit now d = (Inr (int (length ?B)), del ?B d)"
    by (rule run [OF Suc.prems(1)]) (simp_all add: pruneBatchLimit_def batch_def)
  show ?case
  proof (cases "length ?O < ?L")
    case True
    then have B: "?B = ?O" by simp
    from True have "int (length ?O) < pruneBatchLimit" by (simp add: pruneBatchLimit_def)
    with s [unfolded B] assms(2) show ?thesis by (simp add: bind_def query_quiet ret_def)
  next
    case False
    let ?d = "del ?B d"
    have wf: "wf_db ?d" using keeps s Suc.prems(1) unfolding stmt_keeps_def by (metis snd_conv)
    have sub: "set ?B \<subseteq> set ?O" by (rule set_take_subset)
    have rd: "rows ?d = filter (\<lambda>r. r \<notin> set ?B) (rows d)"
      by (rule rows_del [OF Suc.prems(1)]) (use sub in auto)
    have "filter (old t ?d) (rows ?d) = filter (old t d) (rows ?d)"
      unfolding rd using old_del [OF Suc.prems(1) sub] by (intro filter_cong) auto
    also have "\<dots> = filter (\<lambda>r. r \<notin> set ?B) ?O" unfolding rd by (auto intro!: filter_cong)
    also have "\<dots> = drop ?L ?O" using distinct_rows [OF Suc.prems(1)] by (intro filter_not_taken) simp
    finally have rest: "filter (old t ?d) (rows ?d) = drop ?L ?O" .
    have len: "int (length ?B) = pruneBatchLimit" using False by (simp add: pruneBatchLimit_def)
    have "int (length (filter (old t ?d) (rows ?d))) < int n * pruneBatchLimit"
      using Suc.prems(2) False unfolding rest by (simp add: algebra_simps pruneBatchLimit_def)
    from Suc.IH [OF wf this, of "tot + pruneBatchLimit"] s len assms(2) False
    show ?thesis unfolding rest
      by (simp add: bind_def query_quiet del_del pruneBatchLimit_def)
  qed
qed (simp add: pruneBatchLimit_def)

end

definition old_checkin :: "gotime \<Rightarrow> db \<Rightarrow> checkin_row \<Rightarrow> bool" where
  "old_checkin t d c \<longleftrightarrow> c_created_at c < t"

definition old_probe :: "gotime \<Rightarrow> db \<Rightarrow> probe_result_row \<Rightarrow> bool" where
  "old_probe t d p \<longleftrightarrow> p_created_at p < t"

definition old_event :: "gotime \<Rightarrow> db \<Rightarrow> event_row \<Rightarrow> bool" where
  "old_event t d e \<longleftrightarrow> e_created_at e < t \<and> \<not> event_pending d e"

definition del_checkins :: "checkin_row list \<Rightarrow> db \<Rightarrow> db" where
  "del_checkins B d = d\<lparr>checkins := filter (\<lambda>c. c_id c \<notin> c_id ` set B) (checkins d)\<rparr>"

definition del_probes :: "probe_result_row list \<Rightarrow> db \<Rightarrow> db" where
  "del_probes B d = d\<lparr>probe_results := filter (\<lambda>p. p_id p \<notin> p_id ` set B) (probe_results d)\<rparr>"

definition del_events :: "event_row list \<Rightarrow> db \<Rightarrow> db" where
  "del_events B d = d\<lparr>events := filter (\<lambda>e. e_id e \<notin> e_id ` set B) (events d),
     alerts := filter (\<lambda>a. a_event_id a \<notin> e_id ` set B) (alerts d)\<rparr>"

lemma del_frames:
  "probe_results (del_checkins B d) = probe_results d" "events (del_checkins B d) = events d"
  "alerts (del_checkins B d) = alerts d" "checkins (del_probes P d) = checkins d"
  "events (del_probes P d) = events d" "alerts (del_probes P d) = alerts d"
  "checkins (del_events E d) = checkins d" "probe_results (del_events E d) = probe_results d"
  "daily_stats (del_checkins B d) = daily_stats d" "daily_stats (del_probes P d) = daily_stats d"
  "daily_stats (del_events E d) = daily_stats d" "monitors (del_checkins B d) = monitors d"
  "monitors (del_probes P d) = monitors d" "monitors (del_events E d) = monitors d"
  "users (del_checkins B d) = users d" "users (del_probes P d) = users d" "users (del_events E d) = users d"
  by (simp_all add: del_checkins_def del_probes_def del_events_def)

lemma filter_key_notin:
  assumes "distinct (map key rows)" and "set B \<subseteq> set rows"
  shows "filter (\<lambda>r. key r \<notin> key ` set B) rows = filter (\<lambda>r. r \<notin> set B) rows"
proof (rule filter_cong)
  fix r assume "r \<in> set rows"
  then show "(key r \<notin> key ` set B) = (r \<notin> set B)"
    using assms by (auto simp: distinct_map inj_on_def)
qed simp

lemma length_filter_key:
  assumes "distinct (map key rows)" and "set B \<subseteq> set rows" and "distinct B"
  shows "length (filter (\<lambda>r. key r \<in> key ` set B) rows) = length B"
proof -
  have "filter (\<lambda>r. key r \<in> key ` set B) rows = filter (\<lambda>r. r \<in> set B) rows"
    using assms(1,2) by (intro filter_cong) (auto simp: distinct_map inj_on_def)
  moreover have "distinct (filter (\<lambda>r. r \<in> set B) rows)" "set (filter (\<lambda>r. r \<in> set B) rows) = set B"
    using assms(1,2) by (auto simp: distinct_map)
  ultimately show ?thesis using assms(3) by (metis distinct_card)
qed

lemma batch_sub: "set (batch l p rows) \<subseteq> set rows" "distinct rows \<Longrightarrow> distinct (batch l p rows)"
  by (auto simp: batch_def dest: in_set_takeD)

interpretation prune_checkins: batch_delete q_DeleteOldCheckinsBatch checkins old_checkin del_checkins
proof (unfold_locales, goal_cases)
  case (1 d limit B t now)
  then have k: "distinct (map c_id (checkins d))" by (simp add: wf_db_def wf_checkins_def)
  with 1 show ?case
    using length_filter_key [OF k, of B] batch_sub [where l = limit and p = "old_checkin t d" and rows = "checkins d"]
    by (simp add: q_DeleteOldCheckinsBatch_def Let_def del_checkins_def old_checkin_def [abs_def] distinct_map)
next
  case (3 d B)
  then show ?case by (simp add: del_checkins_def filter_key_notin wf_db_def wf_checkins_def)
next
  case (6 d)
  then show ?case by (simp add: wf_db_def wf_checkins_def distinct_map)
qed (auto simp: wf_log_deletes del_checkins_def old_checkin_def image_Un intro!: filter_cong)

interpretation prune_probes: batch_delete q_DeleteOldProbeResultsBatch probe_results old_probe del_probes
proof (unfold_locales, goal_cases)
  case (1 d limit B t now)
  then have k: "distinct (map p_id (probe_results d))" by (simp add: wf_db_def wf_probe_results_def)
  with 1 show ?case
    using length_filter_key [OF k, of B] batch_sub [where l = limit and p = "old_probe t d" and rows = "probe_results d"]
    by (simp add: q_DeleteOldProbeResultsBatch_def Let_def del_probes_def old_probe_def [abs_def] distinct_map)
next
  case (3 d B)
  then show ?case by (simp add: del_probes_def filter_key_notin wf_db_def wf_probe_results_def)
next
  case (6 d)
  then show ?case by (simp add: wf_db_def wf_probe_results_def distinct_map)
qed (auto simp: wf_log_deletes del_probes_def old_probe_def image_Un intro!: filter_cong)

interpretation prune_events: batch_delete q_DeleteOldEventsBatch events old_event del_events
proof (unfold_locales, goal_cases)
  case (1 d limit B t now)
  then have k: "distinct (map e_id (events d))" by (simp add: wf_db_def wf_events_def)
  with 1 show ?case
    using length_filter_key [OF k, of B] batch_sub [where l = limit and p = "old_event t d" and rows = "events d"]
    by (simp add: q_DeleteOldEventsBatch_def Let_def del_events_def old_event_def [abs_def] distinct_map)
next
  case (3 d B)
  then show ?case by (simp add: del_events_def filter_key_notin wf_db_def wf_events_def)
next
  case (4 d B t r)
  then have "e_id r \<notin> e_id ` set B"
    by (auto simp: wf_db_def wf_events_def distinct_map inj_on_def)
  then have "event_pending (del_events B d) r = event_pending d r"
    by (simp add: event_pending_def del_events_def list_ex_iff) metis
  then show ?case by (simp add: old_event_def)
next
  case (6 d)
  then show ?case by (simp add: wf_db_def wf_events_def distinct_map)
qed (auto simp: wf_log_deletes del_events_def image_Un intro!: filter_cong)

text \<open>
  C28. Pruning ends and deletes exactly the check-ins and probe results before the cutoff and the
  events before it that have no pending alert, with their alerts; it reports how many rows of
  each table it removed. A pending alert and its event survive, and the daily statistics,
  the monitors and the users are untouched. The fuel that is enough is one batch more than the
  rows fill.
\<close>

theorem PruneOldData_effect:
  assumes "wf_db d" and "\<forall>k. \<not> c k"
    and "int (length (checkins d)) < int fuel * pruneBatchLimit"
    and "int (length (probe_results d)) < int fuel * pruneBatchLimit"
    and "int (length (events d)) < int fuel * pruneBatchLimit"
    and "d' = run_db (PruneOldData fuel c cutoff) now [] d"
  shows "run_res (PruneOldData fuel c cutoff) now [] d = Inr (Some
      \<lparr>pr_Checkins = int (length (checkins d)) - int (length (checkins d')),
       pr_ProbeResults = int (length (probe_results d)) - int (length (probe_results d')),
       pr_Events = int (length (events d)) - int (length (events d'))\<rparr>) \<and>
    checkins d' = filter (\<lambda>r. cutoff \<le> c_created_at r) (checkins d) \<and>
    probe_results d' = filter (\<lambda>r. cutoff \<le> p_created_at r) (probe_results d) \<and>
    events d' = filter (\<lambda>e. cutoff \<le> e_created_at e \<or> event_pending d e) (events d) \<and>
    (\<forall>a \<in> set (alerts d). a_status a = ''pending'' \<longrightarrow> a \<in> set (alerts d')) \<and>
    daily_stats d' = daily_stats d \<and> monitors d' = monitors d \<and> users d' = users d"
proof -
  let ?O1 = "filter (old_checkin cutoff d) (checkins d)"
  define d1 where "d1 = del_checkins ?O1 d"
  let ?O2 = "filter (old_probe cutoff d1) (probe_results d1)"
  define d2 where "d2 = del_probes ?O2 d1"
  let ?O3 = "filter (old_event cutoff d2) (events d2)"
  define d3 where "d3 = del_events ?O3 d2"
  have f1: "probe_results d1 = probe_results d" "events d1 = events d" "alerts d1 = alerts d"
    "daily_stats d1 = daily_stats d" "monitors d1 = monitors d" "users d1 = users d"
    by (simp_all add: d1_def del_frames)
  have f2: "checkins d2 = checkins d1" "events d2 = events d" "alerts d2 = alerts d"
    "daily_stats d2 = daily_stats d" "monitors d2 = monitors d" "users d2 = users d"
    by (simp_all add: d2_def del_frames f1)
  have f3: "checkins d3 = checkins d1" "probe_results d3 = probe_results d2"
    "daily_stats d3 = daily_stats d" "monitors d3 = monitors d" "users d3 = users d"
    by (simp_all add: d3_def del_frames f2)
  have le: "int (length (filter P xs)) < n" if "int (length xs) < n" for P n and xs :: "'z list"
    using that length_filter_le [of P xs] by linarith
  have r1: "drainBatches fuel c (query (q_DeleteOldCheckinsBatch cutoff pruneBatchLimit)) 0 (quiet d now) =
      (Inr (Some (int (length ?O1))), quiet d1 now)"
    unfolding d1_def using prune_checkins.drain_batches [OF assms(1,2) le [OF assms(3)], of cutoff 0 now] by simp
  have wf1: "wf_db d1"
    by (rule keeps_quiet [OF drainBatches_wf [OF keeps_all_query [OF prune_checkins.keeps]] assms(1) r1])
  have r2: "drainBatches fuel c (query (q_DeleteOldProbeResultsBatch cutoff pruneBatchLimit)) 0 (quiet d1 now) =
      (Inr (Some (int (length ?O2))), quiet d2 now)"
    unfolding d2_def using prune_probes.drain_batches [OF wf1 assms(2) le, of fuel cutoff 0 now] assms(4)
    by (simp add: f1)
  have wf2: "wf_db d2"
    by (rule keeps_quiet [OF drainBatches_wf [OF keeps_all_query [OF prune_probes.keeps]] wf1 r2])
  have r3: "drainBatches fuel c (query (q_DeleteOldEventsBatch cutoff pruneBatchLimit)) 0 (quiet d2 now) =
      (Inr (Some (int (length ?O3))), quiet d3 now)"
    unfolding d3_def using prune_events.drain_batches [OF wf2 assms(2) le, of fuel cutoff 0 now] assms(5)
    by (simp add: f2)
  have run: "PruneOldData fuel c cutoff (quiet d now) = (Inr (Some \<lparr>pr_Checkins = int (length ?O1),
      pr_ProbeResults = int (length ?O2), pr_Events = int (length ?O3)\<rparr>), quiet d3 now)"
    by (simp add: PruneOldData_def bind_def map_err_def ret_def r1 r2 r3)
  have d': "d' = d3" by (simp add: assms(6) run_db_def run)
  have gone: "filter (\<lambda>r. r \<in> set xs \<longrightarrow> \<not> P r) xs = filter (\<lambda>r. \<not> P r) xs" for P and xs :: "'z list"
    by (auto intro!: filter_cong)
  have cnt: "int (length (filter P xs)) = int (length xs) - int (length (filter (\<lambda>r. \<not> P r) xs))" for P and xs :: "'z list"
    using sum_length_filter_compl [of P xs] by simp
  have c: "checkins d3 = filter (\<lambda>r. \<not> old_checkin cutoff d r) (checkins d)"
    using prune_checkins.rows_del [OF assms(1), of ?O1] by (simp add: gone f3 d1_def)
  have p: "probe_results d3 = filter (\<lambda>r. \<not> old_probe cutoff d1 r) (probe_results d)"
    using prune_probes.rows_del [OF wf1, of ?O2] by (simp add: gone f3 f1 d2_def)
  have e: "events d3 = filter (\<lambda>r. \<not> old_event cutoff d2 r) (events d)"
    using prune_events.rows_del [OF wf2, of ?O3] by (simp add: gone f2 d3_def)
  have pend: "a \<in> set (alerts d3)" if "a \<in> set (alerts d)" "a_status a = ''pending''" for a
    using that by (auto simp: d3_def del_events_def old_event_def event_pending_def list_ex_iff f2)
  have "run_res (PruneOldData fuel c cutoff) now [] d = Inr (Some
      \<lparr>pr_Checkins = int (length (checkins d)) - int (length (checkins d')),
       pr_ProbeResults = int (length (probe_results d)) - int (length (probe_results d')),
       pr_Events = int (length (events d)) - int (length (events d'))\<rparr>)"
    unfolding run_res_def run fst_conv d' c p e f1 f2 cnt [of "old_checkin cutoff d"] cnt [of "old_probe cutoff d1"]
      cnt [of "old_event cutoff d2"] by simp
  moreover have "daily_stats d' = daily_stats d \<and> monitors d' = monitors d \<and> users d' = users d"
    by (simp add: d' f3)
  moreover have "event_pending d2 = event_pending d" by (simp add: event_pending_def fun_eq_iff f2)
  ultimately show ?thesis
    using pend by (simp add: d' c p e old_checkin_def old_probe_def old_event_def not_less)
qed

theorem PruneOldData_effect_witness:
  "checkins (run_db (PruneOldData 1 (\<lambda>_. False) (5 * Second)) 9 [] demo_day) = []"
proof -
  have n: "int (length (checkins demo_day)) < int 1 * pruneBatchLimit"
    "int (length (probe_results demo_day)) < int 1 * pruneBatchLimit"
    "int (length (events demo_day)) < int 1 * pruneBatchLimit"
    by (simp_all add: demo_day_def demo_db_def empty_db_def pruneBatchLimit_def)
  have "\<forall>k. \<not> (\<lambda>_. False) k" by simp
  from PruneOldData_effect [OF demo_day_wf this n refl, of "5 * Second" 9]
  have "checkins (run_db (PruneOldData 1 (\<lambda>_. False) (5 * Second)) 9 [] demo_day) =
      filter (\<lambda>r. 5 * Second \<le> c_created_at r) (checkins demo_day)" by blast
  then show ?thesis by (simp add: demo_day_def Second_def)
qed

end
