(* ===== verification/Monitor_Api.thy ===== *)
theory Monitor_Api
  imports Http Pages Rollup Calendar
begin

text \<open>
  The monitor endpoints: src/backend/server/monitor.go and src/backend/server/events.go. A handler
  takes the authenticated user id, the path and query parameters and the decoded request body
  (None when decoding failed), runs its store calls in order and ends in a response.
\<close>

section \<open>Requests\<close>

definition defaultPageLimit :: int where "defaultPageLimit = 20"
definition maxPageLimit :: int where "maxPageLimit = 100"
definition minIntervalS :: int where "minIntervalS = 30"
definition maxIntervalS :: int where "maxIntervalS = 24 * 60 * 60"
definition minTimeoutS :: int where "minTimeoutS = 1"
definition maxTimeoutS :: int where "maxTimeoutS = 30"

record scheduleFields =
  sf_ScheduleKind :: string
  sf_PeriodS :: "int option"
  sf_CronExpr :: string
  sf_TZ :: string
  sf_GraceS :: "int option"

text \<open>An absent \<^verbatim>\<open>http_config\<close> is the empty raw message.\<close>

record httpFields =
  hf_URL :: string
  hf_Method :: string
  hf_IntervalS :: "int option"
  hf_TimeoutS :: "int option"
  hf_FailThreshold :: "int option"
  hf_HTTPConfig :: string

record createMonitorRequest =
  cr_Kind :: string
  cr_Name :: string
  cr_AutoResume :: "bool option"
  cr_schedule :: scheduleFields
  cr_http :: httpFields

record updateMonitorRequest =
  ur_Name :: "string option"
  ur_AutoResume :: "bool option"
  ur_schedule :: scheduleFields
  ur_http :: httpFields

text \<open>
  Library functions of the validation: the scheme \<^verbatim>\<open>url.Parse\<close> finds (None for an error) and
  \<^verbatim>\<open>json.Valid\<close>; with the libraries of the store and the base URL they make the environment of
  the handlers.
\<close>

record api_env =
  ae_sched :: schedlib
  ae_ext :: extlib
  ae_time :: timefmt
  url_Scheme :: "string \<Rightarrow> string option"
  json_Valid :: "string \<Rightarrow> bool"
  ae_BaseURL :: string

definition writeFieldError :: "string \<Rightarrow> string \<Rightarrow> 'b response" where
  "writeFieldError field message = writeJSON 422 (FieldErrorBody message field)"

definition writeScheduleValidationError :: "ValidationError \<Rightarrow> 'b response" where
  "writeScheduleValidationError e = writeFieldError (ve_Field e) (ve_Message e)"

definition period_of :: "int option \<Rightarrow> duration" where
  "period_of n = (case n of Some s \<Rightarrow> seconds_of s | None \<Rightarrow> 0)"

definition scheduleConfigFromFields :: "scheduleFields \<Rightarrow> Config" where
  "scheduleConfigFromFields f =
    \<lparr>cKind = sf_ScheduleKind f, cPeriod = period_of (sf_PeriodS f), cCronExpr = sf_CronExpr f,
     cTZ = sf_TZ f, cGrace = period_of (sf_GraceS f)\<rparr>"

definition scheduleConfigFromMonitor :: "Monitor \<Rightarrow> Config" where
  "scheduleConfigFromMonitor m =
    \<lparr>cKind = mo_ScheduleKind m, cPeriod = period_of (mo_PeriodS m), cCronExpr = mo_CronExpr m,
     cTZ = mo_TZ m, cGrace = period_of (mo_GraceS m)\<rparr>"

definition mergeScheduleConfig :: "Monitor \<Rightarrow> scheduleFields \<Rightarrow> Config" where
  "mergeScheduleConfig existing f =
    (let cfg = scheduleConfigFromMonitor existing;
         cfg = (if sf_ScheduleKind f \<noteq> '''' then cfg\<lparr>cKind := sf_ScheduleKind f\<rparr> else cfg);
         cfg = (case sf_PeriodS f of Some s \<Rightarrow> cfg\<lparr>cPeriod := seconds_of s, cCronExpr := ''''\<rparr> | None \<Rightarrow> cfg);
         cfg = (if sf_CronExpr f \<noteq> '''' then cfg\<lparr>cCronExpr := sf_CronExpr f, cPeriod := 0\<rparr> else cfg);
         cfg = (if sf_TZ f \<noteq> '''' then cfg\<lparr>cTZ := sf_TZ f\<rparr> else cfg) in
     case sf_GraceS f of Some s \<Rightarrow> cfg\<lparr>cGrace := seconds_of s\<rparr> | None \<Rightarrow> cfg)"

definition mergeHTTPFields :: "Monitor \<Rightarrow> httpFields \<Rightarrow> httpFields" where
  "mergeHTTPFields existing f =
    \<lparr>hf_URL = (if hf_URL f \<noteq> '''' then hf_URL f else mo_URL existing),
     hf_Method = (if hf_Method f \<noteq> '''' then hf_Method f else mo_Method existing),
     hf_IntervalS = coalesce (hf_IntervalS f) (mo_IntervalS existing),
     hf_TimeoutS = coalesce (hf_TimeoutS f) (mo_TimeoutS existing),
     hf_FailThreshold = coalesce (hf_FailThreshold f) (mo_FailThreshold existing),
     hf_HTTPConfig = (if hf_HTTPConfig f \<noteq> '''' then hf_HTTPConfig f else mo_HTTPConfig existing)\<rparr>"

text \<open>A validation returns the error response, or None when it passes.\<close>

definition outside :: "int option \<Rightarrow> int \<Rightarrow> int \<Rightarrow> bool" where
  "outside v lo hi = (case v of None \<Rightarrow> False | Some n \<Rightarrow> n < lo \<or> n > hi)"

definition validateHTTPFields :: "api_env \<Rightarrow> httpFields \<Rightarrow> 'b response option" where
  "validateHTTPFields E f =
    (if hf_URL f = '''' then Some (writeFieldError ''url'' ''url is required'')
     else if url_Scheme E (hf_URL f) \<noteq> Some ''http'' \<and> url_Scheme E (hf_URL f) \<noteq> Some ''https''
       then Some (writeFieldError ''url'' ''must be a valid http or https URL'')
     else if hf_Method f \<noteq> '''' \<and> hf_Method f \<noteq> ''GET'' \<and> hf_Method f \<noteq> ''HEAD''
       then Some (writeFieldError ''method'' ''must be \"GET\" or \"HEAD\"'')
     else if outside (hf_IntervalS f) minIntervalS maxIntervalS
       then Some (writeFieldError ''interval_s'' ''must be between 30 and 86400 seconds'')
     else if outside (hf_TimeoutS f) minTimeoutS maxTimeoutS
       then Some (writeFieldError ''timeout_s'' ''must be between 1 and 30 seconds'')
     else if hf_HTTPConfig f \<noteq> '''' \<and> \<not> json_Valid E (hf_HTTPConfig f)
       then Some (writeFieldError ''http_config'' ''must be valid JSON'')
     else None)"

definition no_params :: CreateParams where
  "no_params = \<lparr>cp_UserID = '''', cp_Kind = '''', cp_Name = '''', cp_ScheduleKind = '''', cp_PeriodS = None,
     cp_CronExpr = '''', cp_TZ = '''', cp_GraceS = None, cp_URL = '''', cp_Method = '''', cp_IntervalS = None,
     cp_TimeoutS = None, cp_FailThreshold = None, cp_HTTPConfig = None, cp_AutoResume = None\<rparr>"

definition validateCreate :: "api_env \<Rightarrow> createMonitorRequest \<Rightarrow> 'b response + CreateParams" where
  "validateCreate E req =
    (let sf = cr_schedule req; hf = cr_http req in
     if cr_Name req = '''' then Inl (writeFieldError ''name'' ''name is required'')
     else if cr_Kind req = ''heartbeat'' then
       (case Validate (ae_sched E) (scheduleConfigFromFields sf) of
          Some e \<Rightarrow> Inl (writeScheduleValidationError e)
        | None \<Rightarrow>
            if hf_URL hf \<noteq> '''' \<or> hf_Method hf \<noteq> ''''
            then Inl (writeFieldError ''url'' ''must be empty for a heartbeat monitor'')
            else Inr (no_params\<lparr>cp_Kind := cr_Kind req, cp_Name := cr_Name req,
                        cp_ScheduleKind := sf_ScheduleKind sf, cp_PeriodS := sf_PeriodS sf,
                        cp_CronExpr := sf_CronExpr sf, cp_TZ := sf_TZ sf, cp_GraceS := sf_GraceS sf,
                        cp_AutoResume := cr_AutoResume req\<rparr>))
     else if cr_Kind req = ''http'' then
       (case validateHTTPFields E hf of
          Some rsp \<Rightarrow> Inl rsp
        | None \<Rightarrow>
            if sf_ScheduleKind sf \<noteq> '''' \<or> sf_CronExpr sf \<noteq> ''''
            then Inl (writeFieldError ''schedule_kind'' ''must be empty for an http monitor'')
            else Inr (no_params\<lparr>cp_Kind := cr_Kind req, cp_Name := cr_Name req, cp_URL := hf_URL hf,
                        cp_Method := hf_Method hf, cp_IntervalS := hf_IntervalS hf,
                        cp_TimeoutS := hf_TimeoutS hf, cp_FailThreshold := hf_FailThreshold hf,
                        cp_HTTPConfig := textOrNull (hf_HTTPConfig hf), cp_AutoResume := cr_AutoResume req\<rparr>))
     else Inl (writeFieldError ''kind'' ''must be \"heartbeat\" or \"http\"''))"

definition no_update :: UpdateParams where
  "no_update = \<lparr>up_Name = '''', up_ScheduleKind = '''', up_PeriodS = None, up_CronExpr = '''', up_TZ = '''',
     up_GraceS = None, up_URL = '''', up_Method = '''', up_IntervalS = None, up_TimeoutS = None,
     up_FailThreshold = None, up_HTTPConfig = None, up_AutoResume = None\<rparr>"

definition scheduleFieldsSet :: "scheduleFields \<Rightarrow> bool" where
  "scheduleFieldsSet f \<longleftrightarrow> sf_ScheduleKind f \<noteq> '''' \<or> sf_PeriodS f \<noteq> None \<or> sf_CronExpr f \<noteq> '''' \<or>
     sf_TZ f \<noteq> '''' \<or> sf_GraceS f \<noteq> None"

definition httpFieldsSet :: "httpFields \<Rightarrow> bool" where
  "httpFieldsSet f \<longleftrightarrow> hf_URL f \<noteq> '''' \<or> hf_Method f \<noteq> '''' \<or> hf_IntervalS f \<noteq> None \<or>
     hf_TimeoutS f \<noteq> None \<or> hf_FailThreshold f \<noteq> None \<or> hf_HTTPConfig f \<noteq> ''''"

definition validateUpdate :: "api_env \<Rightarrow> Monitor \<Rightarrow> updateMonitorRequest \<Rightarrow> 'b response + UpdateParams" where
  "validateUpdate E existing req =
    (let sf = ur_schedule req; hf = ur_http req in
     if ur_Name req = Some '''' then Inl (writeFieldError ''name'' ''name must not be empty'')
     else
       let params = no_update\<lparr>up_Name := text_value (ur_Name req)\<rparr>;
           finish = (\<lambda>p. Inr (p\<lparr>up_AutoResume := ur_AutoResume req\<rparr>)) in
       if mo_Kind existing = ''heartbeat'' then
         (if httpFieldsSet hf then Inl (writeFieldError ''url'' ''must not be set on a heartbeat monitor'')
          else if scheduleFieldsSet sf then
            (case Validate (ae_sched E) (mergeScheduleConfig existing sf) of
               Some e \<Rightarrow> Inl (writeScheduleValidationError e)
             | None \<Rightarrow> finish (params\<lparr>up_ScheduleKind := sf_ScheduleKind sf, up_PeriodS := sf_PeriodS sf,
                 up_CronExpr := sf_CronExpr sf, up_TZ := sf_TZ sf, up_GraceS := sf_GraceS sf\<rparr>))
          else finish params)
       else if mo_Kind existing = ''http'' then
         (if scheduleFieldsSet sf then Inl (writeFieldError ''schedule_kind'' ''must not be set on an http monitor'')
          else if httpFieldsSet hf then
            (case validateHTTPFields E (mergeHTTPFields existing hf) of
               Some rsp \<Rightarrow> Inl rsp
             | None \<Rightarrow> finish (params\<lparr>up_URL := hf_URL hf, up_Method := hf_Method hf,
                 up_IntervalS := hf_IntervalS hf, up_TimeoutS := hf_TimeoutS hf,
                 up_FailThreshold := hf_FailThreshold hf, up_HTTPConfig := textOrNull (hf_HTTPConfig hf)\<rparr>))
          else finish params)
       else finish params)"

definition parseBoundedInt :: "string \<Rightarrow> int \<Rightarrow> int \<Rightarrow> int option" where
  "parseBoundedInt s lo hi = (case ParseInt32 s of None \<Rightarrow> None
     | Some n \<Rightarrow> if n < lo \<or> n > hi then None else Some n)"

section \<open>Responses\<close>

record dailyStatResponse =
  dr_Day :: string
  dr_Checkins :: int
  dr_Failures :: int
  dr_DowntimeS :: int

record monitorResponse =
  mr_ID :: string
  mr_Kind :: string
  mr_Slug :: string
  mr_Name :: string
  mr_State :: string
  mr_DisplayState :: string
  mr_ScheduleKind :: string
  mr_PeriodS :: "int option"
  mr_CronExpr :: string
  mr_TZ :: string
  mr_GraceS :: "int option"
  mr_URL :: string
  mr_Method :: string
  mr_IntervalS :: "int option"
  mr_TimeoutS :: "int option"
  mr_FailThreshold :: "int option"
  mr_HTTPConfig :: string
  mr_FailStreak :: int
  mr_AlertsMuted :: bool
  mr_AutoResume :: bool
  mr_LastCheckinAt :: "gotime option"
  mr_NextDeadline :: "gotime option"
  mr_PausedAt :: "gotime option"
  mr_CreatedAt :: gotime
  mr_UpdatedAt :: gotime
  mr_PingURL :: string
  mr_ScheduleSummary :: string
  mr_DailyStats :: "dailyStatResponse list"

text \<open>The middle dot and the multiplication sign are two UTF-8 bytes each.\<close>

definition http_summary :: "int \<Rightarrow> int \<Rightarrow> string" where
  "http_summary interval threshold =
     ''every '' @ show_int interval @ ''s '' @ map char_of [194, 183 :: nat] @ '' '' @ show_int threshold @
     map char_of [195, 151 :: nat] @ '' confirm''"

definition toMonitorResponse :: "api_env \<Rightarrow> Monitor \<Rightarrow> monitorResponse" where
  "toMonitorResponse E m =
    \<lparr>mr_ID = mo_ID m, mr_Kind = mo_Kind m, mr_Slug = mo_Slug m, mr_Name = mo_Name m, mr_State =
     mo_State m, mr_DisplayState = mo_DisplayState m, mr_ScheduleKind = mo_ScheduleKind m,
     mr_PeriodS = mo_PeriodS m, mr_CronExpr = mo_CronExpr m, mr_TZ = mo_TZ m, mr_GraceS = mo_GraceS
     m, mr_URL = mo_URL m, mr_Method = mo_Method m, mr_IntervalS = mo_IntervalS m, mr_TimeoutS =
     mo_TimeoutS m, mr_FailThreshold = mo_FailThreshold m, mr_HTTPConfig = mo_HTTPConfig m,
     mr_FailStreak = mo_FailStreak m, mr_AlertsMuted = mo_AlertsMuted m, mr_AutoResume =
     mo_AutoResume m, mr_LastCheckinAt = mo_LastCheckinAt m, mr_NextDeadline = mo_NextDeadline m,
     mr_PausedAt = mo_PausedAt m, mr_CreatedAt = mo_CreatedAt m, mr_UpdatedAt = mo_UpdatedAt m,
     mr_PingURL = (if mo_Kind m = ''heartbeat'' then ae_BaseURL E @ ''/p/'' @ mo_Slug m else ''''),
     mr_ScheduleSummary =
       (if mo_Kind m = ''heartbeat'' then
          (case Describe (ae_sched E) (scheduleConfigFromMonitor m) of Some (Inr desc) \<Rightarrow> desc | _ \<Rightarrow> '''')
        else (case (mo_IntervalS m, mo_FailThreshold m) of
                (Some i, Some n) \<Rightarrow> http_summary i n | _ \<Rightarrow> '''')),
     mr_DailyStats = []\<rparr>"

definition format_date :: "int \<Rightarrow> string" where
  "format_date day = (let (y, m, dd) = date_of_days day in
     show_padded 4 y @ ''-'' @ show_padded 2 m @ ''-'' @ show_padded 2 dd)"

definition toDailyStatResponse :: "DailyStat \<Rightarrow> dailyStatResponse" where
  "toDailyStatResponse ds = \<lparr>dr_Day = format_date (ds_Day ds), dr_Checkins = ds_Checkins ds,
     dr_Failures = ds_Failures ds, dr_DowntimeS = ds_DowntimeS ds\<rparr>"

definition with_stats :: "(string \<Rightarrow> DailyStat list) \<Rightarrow> Monitor \<Rightarrow> monitorResponse \<Rightarrow> monitorResponse" where
  "with_stats stats m mr = mr\<lparr>mr_DailyStats := map toDailyStatResponse (stats (mo_ID m))\<rparr>"

section \<open>Handlers\<close>

definition dailyStatsWindowDays :: int where
  "dailyStatsWindowDays = 90"

text \<open>\<^verbatim>\<open>time.Now().AddDate(0, 0, -(dailyStatsWindowDays - 1))\<close>, in UTC.\<close>

definition stats_since :: "gotime \<Rightarrow> gotime" where
  "stats_since now = now - (dailyStatsWindowDays - 1) * Day"

definition decoded :: "'q option \<Rightarrow> ('q \<Rightarrow> ('r, 'b) handler) \<Rightarrow> ('r, 'b) handler" where
  "decoded body k = (case body of None \<Rightarrow> reply (errorResponse 400 ''invalid request body'') | Some req \<Rightarrow> k req)"

definition checked :: "'b response + 'p \<Rightarrow> ('p \<Rightarrow> ('r, 'b) handler) \<Rightarrow> ('r, 'b) handler" where
  "checked v k = (case v of Inl rsp \<Rightarrow> reply rsp | Inr p \<Rightarrow> k p)"

definition monitor_create ::
  "api_env \<Rightarrow> string \<Rightarrow> createMonitorRequest option \<Rightarrow> (nat \<Rightarrow> nat list option) \<Rightarrow> (nat \<Rightarrow> uuid) \<Rightarrow>
     ('r, monitorResponse) handler" where
  "monitor_create E user body rands ids =
     decoded body (\<lambda>req. checked (validateCreate E req) (\<lambda>params.
       call (CreateMonitor (ae_ext E) (params\<lparr>cp_UserID := user\<rparr>) rands ids) (\<lambda>m.
       reply (writeJSON 201 (Payload (toMonitorResponse E m))))))"

definition monitor_get :: "api_env \<Rightarrow> string \<Rightarrow> string \<Rightarrow> gotime \<Rightarrow> ('r, monitorResponse) handler" where
  "monitor_get E user i now =
     call (GetMonitor (ae_ext E) i user) (\<lambda>m.
     call (ListDailyStats (ae_ext E) [mo_ID m] (stats_since now)) (\<lambda>stats.
     reply (writeJSON 200 (Payload (with_stats stats m (toMonitorResponse E m))))))"

record monitorListResponse =
  ml_Monitors :: "monitorResponse list"
  ml_NextCursor :: string

text \<open>\<open>q\<close> is \<^verbatim>\<open>r.URL.Query().Get\<close>, the empty string for an absent parameter.\<close>

definition eventPageLimit :: "(string \<Rightarrow> string) \<Rightarrow> 'b response + int" where
  "eventPageLimit q =
    (if q ''limit'' = '''' then Inr defaultPageLimit
     else case parseBoundedInt (q ''limit'') 1 maxPageLimit of
       None \<Rightarrow> Inl (errorResponse 400 ''invalid limit'') | Some n \<Rightarrow> Inr n)"

definition list_filter :: "(string \<Rightarrow> string) \<Rightarrow> 'b response + ListMonitorsFilter" where
  "list_filter q =
    (if q ''kind'' \<notin> {'''', ''heartbeat'', ''http''} then Inl (errorResponse 400 ''invalid kind'')
     else if q ''state'' \<notin> {'''', ''up'', ''down'', ''late'', ''new'', ''paused''}
       then Inl (errorResponse 400 ''invalid state'')
     else Inr \<lparr>lf_Search = q ''q'', lf_Kind = q ''kind'', lf_DisplayState = q ''state''\<rparr>)"

definition monitor_list :: "api_env \<Rightarrow> string \<Rightarrow> (string \<Rightarrow> string) \<Rightarrow> gotime \<Rightarrow> ('r, monitorListResponse) handler" where
  "monitor_list E user q now =
     checked (eventPageLimit q) (\<lambda>limit. checked (list_filter q) (\<lambda>flt.
       call (ListMonitors (ae_time E) (ae_ext E) user (q ''cursor'') limit flt) (\<lambda>page.
       call (if mp_Monitors page = [] then ret (\<lambda>_. [])
             else ListDailyStats (ae_ext E) (map mo_ID (mp_Monitors page)) (stats_since now)) (\<lambda>stats.
       reply (writeJSON 200 (Payload
         \<lparr>ml_Monitors = map (\<lambda>m. with_stats stats m (toMonitorResponse E m)) (mp_Monitors page),
          ml_NextCursor = mp_NextCursor page\<rparr>))))))"

definition monitor_update ::
  "api_env \<Rightarrow> string \<Rightarrow> string \<Rightarrow> updateMonitorRequest option \<Rightarrow> ('r, monitorResponse) handler" where
  "monitor_update E user i body =
     call (GetMonitor (ae_ext E) i user) (\<lambda>existing.
     decoded body (\<lambda>req. checked (validateUpdate E existing req) (\<lambda>params.
       call (UpdateMonitor (ae_ext E) i user params) (\<lambda>m.
       reply (writeJSON 200 (Payload (toMonitorResponse E m)))))))"

definition monitor_delete :: "api_env \<Rightarrow> string \<Rightarrow> string \<Rightarrow> ('r, unit) handler" where
  "monitor_delete E user i =
     call (GetMonitor (ae_ext E) i user) (\<lambda>_.
     call (DeleteMonitor (ae_ext E) i user) (\<lambda>_.
     reply (writeJSON 204 NoBody)))"

record describeResponse =
  de_Description :: string
  de_NextRuns :: "gotime list"

definition nextRunsCount :: nat where
  "nextRunsCount = 3"

fun next_runs :: "nat \<Rightarrow> schedlib \<Rightarrow> Config \<Rightarrow> gotime \<Rightarrow> gotime \<Rightarrow> gotime list" where
  "next_runs 0 L cfg from now = []"
| "next_runs (Suc k) L cfg from now =
     (case NextOccurrence L cfg from now of Inl _ \<Rightarrow> [] | Inr occ \<Rightarrow> occ # next_runs k L cfg occ now)"

text \<open>A panic (None) reaches the recover middleware.\<close>

definition describeSchedule :: "api_env \<Rightarrow> scheduleFields option \<Rightarrow> gotime \<Rightarrow> ('r, describeResponse) handler" where
  "describeSchedule E body now =
     decoded body (\<lambda>req. (let cfg = scheduleConfigFromFields req in
       case Describe (ae_sched E) cfg of
         None \<Rightarrow> reply (errorResponse 500 ''internal server error'')
       | Some (Inl e) \<Rightarrow> reply (writeScheduleValidationError e)
       | Some (Inr description) \<Rightarrow>
           reply (writeJSON 200 (Payload \<lparr>de_Description = description,
             de_NextRuns = (if cKind cfg = KindCron then next_runs nextRunsCount (ae_sched E) cfg 0 now else [])\<rparr>))))"

definition mutateMonitor ::
  "api_env \<Rightarrow> string \<Rightarrow> string \<Rightarrow> (string \<Rightarrow> string \<Rightarrow> Monitor dbm) \<Rightarrow> ('r, monitorResponse) handler" where
  "mutateMonitor E user i op =
     call (GetMonitor (ae_ext E) i user) (\<lambda>_.
     call (op i user) (\<lambda>m.
     reply (writeJSON 200 (Payload (toMonitorResponse E m)))))"

definition monitor_pause :: "api_env \<Rightarrow> string \<Rightarrow> string \<Rightarrow> ('r, monitorResponse) handler" where
  "monitor_pause E user i = mutateMonitor E user i (PauseMonitor (ae_ext E))"

definition monitor_resume :: "api_env \<Rightarrow> string \<Rightarrow> string \<Rightarrow> gotime \<Rightarrow> ('r, monitorResponse) handler" where
  "monitor_resume E user i now =
     mutateMonitor E user i (\<lambda>i user. ResumeMonitor (ae_sched E) (ae_ext E) i user now)"

definition monitor_mute :: "api_env \<Rightarrow> string \<Rightarrow> string \<Rightarrow> ('r, monitorResponse) handler" where
  "monitor_mute E user i = mutateMonitor E user i (MuteMonitor (ae_ext E))"

definition monitor_unmute :: "api_env \<Rightarrow> string \<Rightarrow> string \<Rightarrow> ('r, monitorResponse) handler" where
  "monitor_unmute E user i = mutateMonitor E user i (UnmuteMonitor (ae_ext E))"

subsection \<open>Feeds\<close>

record 'e feedResponse =
  fr_Items :: "'e list"
  fr_NextCursor :: string

record eventResponse =
  er_ID :: int
  er_MonitorID :: string
  er_Type :: string
  er_Message :: string
  er_Meta :: event_meta
  er_CreatedAt :: gotime

definition toEventResponse :: "Event \<Rightarrow> eventResponse" where
  "toEventResponse e = \<lparr>er_ID = ev_ID e, er_MonitorID = ev_MonitorID e, er_Type = ev_Type e,
     er_Message = ev_Message e, er_Meta = ev_Meta e, er_CreatedAt = ev_CreatedAt e\<rparr>"

definition writeEventPage :: "EventPage \<Rightarrow> eventResponse feedResponse response" where
  "writeEventPage page = writeJSON 200 (Payload
     \<lparr>fr_Items = map toEventResponse (ep_Events page), fr_NextCursor = ep_NextCursor page\<rparr>)"

definition listEvents :: "api_env \<Rightarrow> string \<Rightarrow> (string \<Rightarrow> string) \<Rightarrow> ('r, eventResponse feedResponse) handler" where
  "listEvents E user q =
     checked (eventPageLimit q) (\<lambda>limit.
     call (ListEventsByUser (ae_ext E) user (q ''monitor'') (q ''type'') (q ''cursor'') limit) (\<lambda>page.
     reply (writeEventPage page)))"

definition listMonitorEvents ::
  "api_env \<Rightarrow> string \<Rightarrow> string \<Rightarrow> (string \<Rightarrow> string) \<Rightarrow> ('r, eventResponse feedResponse) handler" where
  "listMonitorEvents E user i q =
     call (GetMonitor (ae_ext E) i user) (\<lambda>_.
     checked (eventPageLimit q) (\<lambda>limit.
     call (ListEventsByMonitor (ae_ext E) i (q ''type'') (q ''cursor'') limit) (\<lambda>page.
     reply (writeEventPage page))))"

record checkinResponse =
  cn_ID :: int
  cn_MonitorID :: string
  cn_Kind :: string
  cn_SourceIP :: string
  cn_UserAgent :: string
  cn_Body :: string
  cn_CreatedAt :: gotime

definition toCheckinResponse :: "Checkin \<Rightarrow> checkinResponse" where
  "toCheckinResponse c = \<lparr>cn_ID = ch_ID c, cn_MonitorID = ch_MonitorID c, cn_Kind = ch_Kind c,
     cn_SourceIP = text_value (ch_SourceIP c), cn_UserAgent = text_value (ch_UserAgent c),
     cn_Body = text_value (ch_Body c), cn_CreatedAt = ch_CreatedAt c\<rparr>"

definition listMonitorCheckins ::
  "api_env \<Rightarrow> string \<Rightarrow> string \<Rightarrow> (string \<Rightarrow> string) \<Rightarrow> ('r, checkinResponse feedResponse) handler" where
  "listMonitorCheckins E user i q =
     call (GetMonitor (ae_ext E) i user) (\<lambda>_.
     checked (eventPageLimit q) (\<lambda>limit.
     call (ListCheckinsByMonitor (ae_ext E) i (q ''cursor'') limit) (\<lambda>page.
     reply (writeJSON 200 (Payload \<lparr>fr_Items = map toCheckinResponse (cp_Checkins page),
       fr_NextCursor = cp_NextCursor page\<rparr>)))))"

record probeResultResponse =
  pz_ID :: int
  pz_MonitorID :: string
  pz_OK :: bool
  pz_HTTPStatus :: "int option"
  pz_LatencyMS :: "int option"
  pz_Error :: string
  pz_TLSExpiresAt :: "gotime option"
  pz_CreatedAt :: gotime

definition toProbeResultResponse :: "ProbeResult \<Rightarrow> probeResultResponse" where
  "toProbeResultResponse p = \<lparr>pz_ID = pr_ID p, pz_MonitorID = pr_MonitorID p, pz_OK = pr_OK p,
     pz_HTTPStatus = pr_HTTPStatus p, pz_LatencyMS = pr_LatencyMS p, pz_Error = pr_Error p,
     pz_TLSExpiresAt = pr_TLSExpiresAt p, pz_CreatedAt = pr_CreatedAt p\<rparr>"

definition listMonitorProbeResults ::
  "api_env \<Rightarrow> string \<Rightarrow> string \<Rightarrow> (string \<Rightarrow> string) \<Rightarrow> ('r, probeResultResponse feedResponse) handler" where
  "listMonitorProbeResults E user i q =
     call (GetMonitor (ae_ext E) i user) (\<lambda>_.
     if q ''outcome'' \<notin> {'''', ''success'', ''fail''} then reply (errorResponse 400 ''invalid outcome'')
     else checked (eventPageLimit q) (\<lambda>limit.
     call (ListProbeResultsByMonitor (ae_ext E) i (q ''outcome'') (q ''cursor'') limit) (\<lambda>page.
     reply (writeJSON 200 (Payload \<lparr>fr_Items = map toProbeResultResponse (pp_Results page),
       fr_NextCursor = pp_NextCursor page\<rparr>)))))"

definition latencyWindows :: "string \<Rightarrow> (duration \<times> int) option" where
  "latencyWindows w =
    (if w = ''24h'' then Some (24 * Hour, 5 * 60)
     else if w = ''7d'' then Some (7 * 24 * Hour, 60 * 60)
     else if w = ''30d'' then Some (30 * 24 * Hour, 6 * 60 * 60) else None)"

record 'f latencySeriesResponse =
  ls_Window :: string
  ls_Points :: "'f LatencyBucket list"

definition getMonitorLatencySeries ::
  "'f aggregates \<Rightarrow> api_env \<Rightarrow> string \<Rightarrow> string \<Rightarrow> (string \<Rightarrow> string) \<Rightarrow> gotime \<Rightarrow>
     ('r, 'f latencySeriesResponse) handler" where
  "getMonitorLatencySeries agg E user i q now =
     call (GetMonitor (ae_ext E) i user) (\<lambda>_.
     (let window = (if q ''window'' = '''' then ''24h'' else q ''window'') in
      case latencyWindows window of
        None \<Rightarrow> reply (errorResponse 400 ''invalid window'')
      | Some (lookback, bucket) \<Rightarrow>
          call (LatencySeriesByMonitor agg (ae_ext E) i (now - lookback) bucket) (\<lambda>buckets.
          reply (writeJSON 200 (Payload \<lparr>ls_Window = window, ls_Points = buckets\<rparr>)))))"

section \<open>Accepted monitors can be scheduled\<close>

lemma createLoop_row:
  "createLoop n x u p rands ids s = (Inr mon, s') \<Longrightarrow>
   \<exists>m slug i. monitors (sdb s') = monitors (sdb s) @ [m] \<and> mon = toMonitor x m \<and>
     m = new_monitor i (create_row_params u p slug) (snow s) \<and> monitor_checks m"
proof (induction n arbitrary: s)
  case (Suc n)
  obtain slug where slug: "generateSlug (rands n) = Inr slug"
    using Suc.prems by (auto simp: bind_def lift_err_def raise_def split: sum.splits)
  let ?q = "query (q_CreateMonitor (ids n) (create_row_params u p slug))"
  have run: "catch (bind ?q (\<lambda>row. ret (toMonitor x row)))
      (\<lambda>err. if isUniqueViolation err then createLoop n x u p rands ids
             else raise (WrapE ''store: create monitor'' err)) s = (Inr mon, s')"
    using Suc.prems slug by (simp add: bind_def lift_err_def ret_def)
  show ?case
  proof (cases "?q s")
    case (Pair r s1)
    show ?thesis
    proof (cases r)
      case (Inl e)
      with run Pair have u: "isUniqueViolation e" "createLoop n x u p rands ids s1 = (Inr mon, s')"
        by (auto simp: catch_def bind_def raise_def split: if_splits)
      then have e: "e = DbE UniqueViolation"
        using Pair Inl by (auto simp: query_def split: outcome.splits prod.splits sum.splits)
      have "sdb s1 = sdb s" "snow s1 = snow s"
        using Pair unfolding Inl e
        by (auto simp: query_def q_CreateMonitor_def Let_def split: outcome.splits if_splits)
      with Suc.IH [OF u(2)] show ?thesis by simp
    next
      case (Inr row)
      with run Pair have "mon = toMonitor x row" "s' = s1"
        by (auto simp: catch_def bind_def ret_def)
      moreover have "row = new_monitor (ids n) (create_row_params u p slug) (snow s)"
        "monitors (sdb s1) = monitors (sdb s) @ [row]" "monitor_checks row"
        using Pair Inr by (auto simp: query_def q_CreateMonitor_def Let_def split: outcome.splits if_splits)
      ultimately show ?thesis by blast
    qed
  qed
qed (simp add: raise_def)

lemma createLoop_error: "createLoop n x u p rands ids s = (Inl e, s') \<Longrightarrow> as_storeError e = None"
proof (induction n arbitrary: s)
  case (Suc n)
  show ?case
  proof (cases "generateSlug (rands n)")
    case (Inl e')
    with Suc.prems show ?thesis
      by (auto simp: bind_def lift_err_def raise_def generateSlug_def split: option.splits)
  next
    case (Inr slug)
    let ?q = "query (q_CreateMonitor (ids n) (create_row_params u p slug))"
    obtain res s1 where q: "?q s = (res, s1)" by force
    then have plain: "as_storeError e' = None" if "res = Inl e'" for e'
      using that by (auto simp: query_def split: outcome.splits prod.splits sum.splits)
    show ?thesis
    proof (cases res)
      case (Inl e')
      with Suc.prems Inr q Suc.IH [of s1] plain [OF Inl] show ?thesis
        by (auto simp: bind_def lift_err_def ret_def catch_def raise_def split: if_splits)
    qed (use Suc.prems Inr q in \<open>simp add: bind_def lift_err_def ret_def catch_def\<close>)
  qed
qed (auto simp: raise_def)

lemma CreateMonitor_error: "CreateMonitor x p rands ids s = (Inl e, s') \<Longrightarrow> as_storeError e = None"
  by (auto simp: CreateMonitor_def bind_def lift_err_def raise_def ret_def pgUUID_def
      split: option.splits dest: createLoop_error)

lemma field_error_status [simp]:
  "rs_status (writeFieldError field msg) = 422" "rs_status (writeScheduleValidationError e) = 422"
  by (simp_all add: writeScheduleValidationError_def writeFieldError_def writeJSON_def)

lemma validateHTTPFields_cases:
  "validateHTTPFields E f = None \<Longrightarrow> hf_URL f \<noteq> '''' \<and>
     url_Scheme E (hf_URL f) \<in> {Some ''http'', Some ''https''} \<and> hf_Method f \<in> {'''', ''GET'', ''HEAD''} \<and>
     \<not> outside (hf_IntervalS f) 30 86400 \<and> \<not> outside (hf_TimeoutS f) 1 30"
  "validateHTTPFields E f = Some rsp \<Longrightarrow> rs_status rsp = 422"
  by (auto simp: validateHTTPFields_def minIntervalS_def maxIntervalS_def minTimeoutS_def
      maxTimeoutS_def split: if_splits)

text \<open>What validation lets through: a valid schedule, or a probe target within the bounds.\<close>

definition heartbeat_params :: "api_env \<Rightarrow> CreateParams \<Rightarrow> bool" where
  "heartbeat_params E p \<longleftrightarrow> cp_Kind p = ''heartbeat'' \<and>
     valid_config (ae_sched E) \<lparr>cKind = cp_ScheduleKind p, cPeriod = period_of (cp_PeriodS p),
        cCronExpr = cp_CronExpr p, cTZ = cp_TZ p, cGrace = period_of (cp_GraceS p)\<rparr>"

definition http_params :: "api_env \<Rightarrow> CreateParams \<Rightarrow> bool" where
  "http_params E p \<longleftrightarrow> cp_Kind p = ''http'' \<and> cp_ScheduleKind p = '''' \<and>
      url_Scheme E (cp_URL p) \<in> {Some ''http'', Some ''https''} \<and> cp_URL p \<noteq> '''' \<and>
      cp_Method p \<in> {'''', ''GET'', ''HEAD''} \<and>
      \<not> outside (cp_IntervalS p) 30 86400 \<and> \<not> outside (cp_TimeoutS p) 1 30"

lemma validateCreate_cases:
  "case validateCreate E req of
     Inl rsp \<Rightarrow> rs_status rsp = 422
   | Inr p \<Rightarrow> cp_Name p = cr_Name req \<and> cr_Name req \<noteq> '''' \<and> (heartbeat_params E p \<or> http_params E p)"
proof -
  consider (name) "cr_Name req = ''''" | (hb) "cr_Name req \<noteq> ''''" "cr_Kind req = ''heartbeat''"
    | (http) "cr_Name req \<noteq> ''''" "cr_Kind req = ''http''"
    | (other) "cr_Name req \<noteq> ''''" "cr_Kind req \<noteq> ''heartbeat''" "cr_Kind req \<noteq> ''http''" by blast
  then show ?thesis
  proof cases
    case hb
    then show ?thesis
      by (simp add: validateCreate_def Let_def heartbeat_params_def no_params_def Validate_None_iff
          scheduleConfigFromFields_def split: option.split)
  next
    case http
    show ?thesis
    proof (cases "validateHTTPFields E (cr_http req) :: 'a response option")
      case None
      with http validateHTTPFields_cases(1) [OF None] show ?thesis
        by (simp add: validateCreate_def Let_def http_params_def no_params_def)
    next
      case (Some rsp)
      with http validateHTTPFields_cases(2) [OF Some] show ?thesis by (simp add: validateCreate_def Let_def)
    qed
  qed (simp_all add: validateCreate_def Let_def)
qed

lemma scheduleConfig_created:
  "cp_TZ p \<noteq> '''' \<Longrightarrow> scheduleConfig (new_monitor i (create_row_params u p slug) now) =
    \<lparr>cKind = cp_ScheduleKind p, cPeriod = period_of (cp_PeriodS p), cCronExpr = cp_CronExpr p,
     cTZ = cp_TZ p, cGrace = period_of (cp_GraceS p)\<rparr>"
  by (simp add: scheduleConfig_def new_monitor_def create_row_params_def textOrNull_def period_of_def)

lemma nextDeadlineFor_valid:
  assumes "valid_config L (scheduleConfig m)" and "m_kind m = ''heartbeat''"
  shows "\<exists>dl. nextDeadlineFor L m t = Inr (Some dl)"
proof -
  have "m_schedule_kind m \<noteq> None"
    using valid_config_kind [OF assms(1)] by (cases "m_schedule_kind m") (auto simp: scheduleConfig_def KindPeriod_def KindCron_def)
  with assms show ?thesis by (auto simp: nextDeadlineFor_def NextOccurrence_valid)
qed

text \<open>
  C29. A create request answered with 201 has added exactly one monitor, owned by the caller, with
  the requested name. A heartbeat monitor's stored schedule passes validation, so a deadline can
  be computed for it at every instant; an http monitor has an http or https URL, a GET or HEAD
  method (or none), an interval of 30 s to one day and a timeout of 1 s to 30 s where given, and
  no schedule.
\<close>

theorem monitor_create_valid:
  assumes "monitor_create E user (Some req) rands ids (s, r) = (rsp, s', r')" and "rs_status rsp = 201"
  shows "\<exists>m. monitors (sdb s') = monitors (sdb s) @ [m] \<and> scanUUID (ae_ext E) user = Some (m_user_id m) \<and>
    m_name m = cr_Name req \<and> m_name m \<noteq> '''' \<and> m_state m = ''new'' \<and>
    (m_kind m = ''heartbeat'' \<and> (\<forall>t. \<exists>dl. nextDeadlineFor (ae_sched E) m t = Inr (Some dl)) \<or>
     m_kind m = ''http'' \<and> url_Scheme E (text_value (m_url m)) \<in> {Some ''http'', Some ''https''} \<and>
       text_value (m_method m) \<in> {'''', ''GET'', ''HEAD''} \<and> \<not> outside (m_interval_s m) 30 86400 \<and>
       \<not> outside (m_timeout_s m) 1 30 \<and> m_schedule_kind m = None)"
proof -
  obtain p where p: "validateCreate E req = (Inr p :: monitorResponse response + CreateParams)" "cp_Name p = cr_Name req" "cr_Name req \<noteq> ''''"
    "heartbeat_params E p \<or> http_params E p"
    using assms validateCreate_cases [where E = E and req = req and 'a = monitorResponse]
    by (auto simp: monitor_create_def decoded_def checked_def reply_def split: sum.splits)
  let ?p = "p\<lparr>cp_UserID := user\<rparr>"
  obtain mon where "CreateMonitor (ae_ext E) ?p rands ids s = (Inr mon, s')"
  proof (cases "CreateMonitor (ae_ext E) ?p rands ids s")
    case (Pair res s1)
    then show ?thesis
      using assms p(1) that
      by (cases res) (auto simp: monitor_create_def decoded_def checked_def call_def reply_def writeError_status
          errorResponse_def writeJSON_def dest!: CreateMonitor_error)
  qed
  then obtain u where u: "scanUUID (ae_ext E) user = Some u"
    "createLoop maxSlugRetries (ae_ext E) u ?p rands ids s = (Inr mon, s')"
    by (auto simp: CreateMonitor_def bind_def lift_err_def raise_def ret_def pgUUID_def split: option.splits)
  obtain m slug i where m: "monitors (sdb s') = monitors (sdb s) @ [m]"
    "m = new_monitor i (create_row_params u ?p slug) (snow s)"
    using createLoop_row [OF u(2)] by blast
  have "\<exists>dl. nextDeadlineFor (ae_sched E) m t = Inr (Some dl)" if "heartbeat_params E p" for t
  proof (rule nextDeadlineFor_valid)
    have "cp_TZ ?p \<noteq> ''''" using that by (simp add: heartbeat_params_def valid_config_def)
    from scheduleConfig_created [OF this, of i u slug "snow s"] that
    show "valid_config (ae_sched E) (scheduleConfig m)" by (simp add: m(2) heartbeat_params_def)
  qed (use that in \<open>simp add: m(2) new_monitor_def create_row_params_def heartbeat_params_def\<close>)
  with p(4) m(1) u(1) show ?thesis
    by (intro exI [of _ m])
      (auto simp: m(2) new_monitor_def create_row_params_def textOrNull_def p(2,3) heartbeat_params_def http_params_def)
qed

text \<open>A server with one user, an http scheme test on the prefix, and the demo libraries.\<close>

definition demo_env :: api_env where
  "demo_env = \<lparr>ae_sched = demo_lib, ae_ext = demo_ext, ae_time = demo_timefmt,
     url_Scheme = (\<lambda>u. if take 8 u = ''https://'' then Some ''https'' else None), json_Valid = (\<lambda>_. True),
     ae_BaseURL = ''https://ping''\<rparr>"

definition no_schedule :: scheduleFields where
  "no_schedule = \<lparr>sf_ScheduleKind = '''', sf_PeriodS = None, sf_CronExpr = '''', sf_TZ = '''', sf_GraceS = None\<rparr>"

definition no_http :: httpFields where
  "no_http = \<lparr>hf_URL = '''', hf_Method = '''', hf_IntervalS = None, hf_TimeoutS = None,
     hf_FailThreshold = None, hf_HTTPConfig = ''''\<rparr>"

definition demo_create :: createMonitorRequest where
  "demo_create = \<lparr>cr_Kind = ''heartbeat'', cr_Name = ''backup'', cr_AutoResume = None,
     cr_schedule = \<lparr>sf_ScheduleKind = ''period'', sf_PeriodS = Some 900, sf_CronExpr = '''', sf_TZ = ''UTC'',
       sf_GraceS = Some 300\<rparr>, cr_http = no_http\<rparr>"

abbreviation demo_create_run :: "monitorResponse response \<times> sess \<times> unit" where
  "demo_create_run \<equiv> monitor_create demo_env ''1'' (Some demo_create) (\<lambda>_. Some (replicate 10 0)) (\<lambda>_. 9)
     (quiet (demo_db\<lparr>monitors := []\<rparr>) 50, ())"

definition demo_params :: CreateParams where
  "demo_params = no_params\<lparr>cp_UserID := ''1'', cp_Kind := ''heartbeat'', cp_Name := ''backup'',
     cp_ScheduleKind := ''period'', cp_PeriodS := Some 900, cp_TZ := ''UTC'', cp_GraceS := Some 300\<rparr>"

lemma demo_validated: "\<exists>p. validateCreate demo_env demo_create = Inr p \<and> p\<lparr>cp_UserID := ''1''\<rparr> = demo_params"
proof -
  have "case validateCreate demo_env demo_create of Inl _ \<Rightarrow> False | Inr p \<Rightarrow> p\<lparr>cp_UserID := ''1''\<rparr> = demo_params"
    by code_simp
  then show ?thesis by (auto split: sum.splits)
qed

lemma demo_inserted:
  "\<exists>slug. CreateMonitor demo_ext demo_params (\<lambda>_. Some (replicate 10 0)) (\<lambda>_. 9) (quiet (demo_db\<lparr>monitors := []\<rparr>) 50) =
    (let m = new_monitor 9 (create_row_params 1 demo_params slug) 50 in
     (Inr (toMonitor demo_ext m), quiet (demo_db\<lparr>monitors := [m]\<rparr>) 50))"
proof -
  obtain slug where slug: "generateSlug (Some (replicate 10 0)) = Inr slug" by (simp add: generateSlug_def)
  let ?m = "new_monitor 9 (create_row_params 1 demo_params slug) 50"
  have scan: "scanUUID demo_ext (cp_UserID demo_params) = Some 1" by code_simp
  have chk: "monitor_checks ?m"
    by (simp add: monitor_checks_def new_monitor_def create_row_params_def demo_params_def no_params_def textOrNull_def)
  have user: "cm_user_id (create_row_params 1 demo_params slug) \<in> u_id ` set (users demo_db)"
    by (simp add: create_row_params_def demo_db_def demo_user_def)
  have five: "maxSlugRetries = Suc 4" by (simp add: maxSlugRetries_def)
  have ins: "query (q_CreateMonitor 9 (create_row_params 1 demo_params slug)) (quiet (demo_db\<lparr>monitors := []\<rparr>) 50)
      = (Inr ?m, quiet (demo_db\<lparr>monitors := [?m]\<rparr>) 50)"
    using chk user by (simp add: query_quiet q_CreateMonitor_def Let_def)
  show ?thesis
    by (rule exI [of _ slug]) (simp only: CreateMonitor_def pgUUID_def scan lift_err_def bind_def ret_def five
        createLoop.simps slug catch_def ins Let_def option.case sum.case prod.case)
qed

lemma demo_created:
  "rs_status (fst demo_create_run) = 201 \<and> map m_kind (monitors (sdb (fst (snd demo_create_run)))) = [''heartbeat'']"
proof -
  obtain p where p: "validateCreate demo_env demo_create = (Inr p :: monitorResponse response + CreateParams)"
    "p\<lparr>cp_UserID := ''1''\<rparr> = demo_params" using demo_validated by blast
  obtain slug where ins: "CreateMonitor demo_ext demo_params (\<lambda>_. Some (replicate 10 0)) (\<lambda>_. 9)
      (quiet (demo_db\<lparr>monitors := []\<rparr>) 50) =
    (let m = new_monitor 9 (create_row_params 1 demo_params slug) 50 in
     (Inr (toMonitor demo_ext m), quiet (demo_db\<lparr>monitors := [m]\<rparr>) 50))" using demo_inserted by blast
  have ext: "ae_ext demo_env = demo_ext" by (simp add: demo_env_def)
  have "demo_create_run = (writeJSON 201 (Payload (toMonitorResponse demo_env (toMonitor demo_ext
      (new_monitor 9 (create_row_params 1 demo_params slug) 50)))),
      quiet (demo_db\<lparr>monitors := [new_monitor 9 (create_row_params 1 demo_params slug) 50]\<rparr>) 50, ())"
    by (simp only: monitor_create_def decoded_def checked_def p call_def ext ins Let_def reply_def option.case
        sum.case prod.case fst_conv snd_conv)
  then show ?thesis by (simp add: writeJSON_def new_monitor_def create_row_params_def demo_params_def)
qed

theorem monitor_create_valid_witness:
  "\<exists>m. monitors (sdb (fst (snd demo_create_run))) = [m] \<and>
     (\<exists>dl. nextDeadlineFor demo_lib m 60 = Inr (Some dl))"
proof -
  obtain rsp s' r' where run: "demo_create_run = (rsp, s', r')" by (metis prod.collapse)
  with demo_created have facts: "rs_status rsp = 201" "map m_kind (monitors (sdb s')) = [''heartbeat'']" by simp_all
  from monitor_create_valid [OF run facts(1)] facts(2) run show ?thesis
    by (auto simp: demo_env_def)
qed

section \<open>Switching the schedule kind\<close>

text \<open>A PATCH that asks for a cron schedule and does not mention the period.\<close>

definition switches_to_cron :: "updateMonitorRequest \<Rightarrow> bool" where
  "switches_to_cron req \<longleftrightarrow> ur_Name req \<noteq> Some '''' \<and> \<not> httpFieldsSet (ur_http req) \<and>
     sf_ScheduleKind (ur_schedule req) = ''cron'' \<and> sf_PeriodS (ur_schedule req) = None"

text \<open>Two rows with the same kind and schedule.\<close>

definition same_schedule :: "monitor_row \<Rightarrow> monitor_row \<Rightarrow> bool" where
  "same_schedule m m' \<longleftrightarrow> m_kind m = m_kind m' \<and> m_schedule_kind m = m_schedule_kind m' \<and> scheduleConfig m = scheduleConfig m'"

definition period_kept :: gerror where
  "period_kept = WrapE ''store: recompute deadline''
     (ValidationE (ValidationError ''period_s'' ''must be zero for a cron schedule''))"

abbreviation switched :: "updateMonitorRequest \<Rightarrow> UpdateParams" where
  "switched req \<equiv> no_update\<lparr>up_Name := text_value (ur_Name req), up_ScheduleKind := sf_ScheduleKind (ur_schedule req),
     up_PeriodS := sf_PeriodS (ur_schedule req), up_CronExpr := sf_CronExpr (ur_schedule req),
     up_TZ := sf_TZ (ur_schedule req), up_GraceS := sf_GraceS (ur_schedule req), up_AutoResume := ur_AutoResume req\<rparr>"

abbreviation switched_row :: "updateMonitorRequest \<Rightarrow> gotime \<Rightarrow> monitor_row \<Rightarrow> monitor_row" where
  "switched_row req now \<equiv> apply_update (update_row_params (switched req)) now"

lemma switched_config:
  assumes "switches_to_cron req"
  shows "scheduleConfig (switched_row req now m) =
    (mergeScheduleConfig (toMonitor x m) (ur_schedule req))\<lparr>cPeriod := period_of (m_period_s m)\<rparr>"
  using assms
  by (simp add: switches_to_cron_def scheduleConfig_def mergeScheduleConfig_def scheduleConfigFromMonitor_def toMonitor_def
      apply_update_def update_row_params_def textOrNull_def period_of_def Let_def split: option.split)

lemma cron_period_rejected:
  assumes "valid_config L cfg" and "cKind cfg = KindCron" and "n \<noteq> 0"
  shows "Validate L (cfg\<lparr>cPeriod := n\<rparr>) = Some (ValidationError ''period_s'' ''must be zero for a cron schedule'')"
  using assms by (auto simp: Validate_def valid_config_def)

lemma updateBody_quiet:
  assumes "wf_db d" and "m \<in> set (monitors d)" and "monitor_checks (apply_update (update_row_params p) now m)"
  shows "\<exists>d'. updateBody x (m_id m) (m_user_id m) p (quiet d now) =
      (Inr (toMonitor x (apply_update (update_row_params p) now m)), quiet d' now) \<and>
    monitors d' = update_where (\<lambda>q. m_id q = m_id m \<and> m_user_id q = m_user_id m)
      (apply_update (update_row_params p) now) (monitors d)"
proof -
  let ?f = "apply_update (update_row_params p) now" and ?sel = "\<lambda>q. m_id q = m_id m \<and> m_user_id q = m_user_id m"
  let ?d1 = "d\<lparr>monitors := update_where ?sel ?f (monitors d)\<rparr>"
  have only: "q = m" if "q \<in> set (monitors d)" "?sel q" for q using wf_db_monitor_unique [OF assms(1)] that assms(2) by blast
  have "the_row ?sel (monitors d) \<noteq> None" using assms(2) by (auto simp: the_row_None_iff)
  then obtain q where "the_row ?sel (monitors d) = Some q" by blast
  with only the_row_SomeD [OF this] have row: "the_row ?sel (monitors d) = Some m" by blast
  have q: "q_UpdateMonitor (update_row_params p) (m_id m) (m_user_id m) now = sql_one (update_monitors ?sel ?f) now"
    by (simp add: q_UpdateMonitor_def)
  have "monitor_checks (?f q) \<and> int32_range (m_fail_streak (?f q))" if "q \<in> set (monitors d)" "?sel q" for q
    using only [OF that] assms wf_db_monitor [OF assms(1,2)] by (simp add: apply_update_def)
  from query_one_update [where q = "q_UpdateMonitor (update_row_params p) (m_id m) (m_user_id m)" and now = now and d = d, OF q this]
  have run: "query (q_UpdateMonitor (update_row_params p) (m_id m) (m_user_id m)) (quiet d now) = (Inr (?f m), quiet ?d1 now)"
    unfolding row option.case .
  have "keeps_keys ?f" by (simp add: keeps_keys_def apply_update_def)
  then have has: "has_monitor ?d1 (m_id (?f m))"
    using assms(2) by (auto simp: has_monitor_def update_where_ids keeps_keys_def)
  show ?thesis
    by (simp add: updateBody_def bind_def map_err_def run ret_def recordEventMeta_quiet [OF has] split: option.split)
qed

text \<open>
  C31. A PATCH that switches a heartbeat monitor from a valid period schedule to a cron schedule is
  validated with the period cleared and answered with 200, but the stored row keeps the old period
  beside the new expression. Before the PATCH a deadline could be computed for every ping; from then
  on, as long as the row keeps that schedule, every success ping is refused and rolled back whole,
  the check-in row included.
\<close>

theorem patch_breaks_pings:
  assumes "wf_db d" and "m \<in> set (monitors d)" and "m_kind m = ''heartbeat''" and "m_schedule_kind m = Some ''period''"
    and "scanUUID (ae_ext E) i = Some (m_id m)" and "scanUUID (ae_ext E) user = Some (m_user_id m)"
    and "uuidString (ae_ext E) (m_user_id m) = user"
    and "Validate (ae_sched E) (scheduleConfig m) = None" and "switches_to_cron req"
    and "Validate (ae_sched E) (mergeScheduleConfig (toMonitor (ae_ext E) m) (ur_schedule req)) = None"
  shows "\<exists>rsp d' m'. monitor_update E user i (Some req) (quiet d now, r) = (rsp, quiet d' now, r) \<and> rs_status rsp = 200 \<and>
    the_row (\<lambda>q. m_slug q = m_slug m) (monitors d') = Some m' \<and>
    m_schedule_kind m' = Some ''cron'' \<and> m_period_s m' = m_period_s m \<and>
    (\<exists>dl. nextDeadlineFor (ae_sched E) m t = Inr (Some dl)) \<and>
    (\<forall>d2 m2 p os t2. the_row (\<lambda>q. m_slug q = rp_Slug p) (monitors d2) = Some m2 \<longrightarrow> same_schedule m2 m' \<longrightarrow>
       rp_Kind p = ''success'' \<longrightarrow>
       run_res (RecordCheckin (ae_sched E) (ae_ext E) p) t2 [] d2 = Inl period_kept \<and>
       tables_kept d2 (run_db (RecordCheckin (ae_sched E) (ae_ext E) p) t2 os d2))"
proof -
  let ?x = "ae_ext E" and ?L = "ae_sched E" and ?new = "switched_row req now m"
  have old: "valid_config ?L (scheduleConfig m)" and merged: "valid_config ?L (mergeScheduleConfig (toMonitor ?x m) (ur_schedule req))"
    using assms(8,10) by (simp_all add: Validate_None_iff)
  have kind: "cKind (mergeScheduleConfig (toMonitor ?x m) (ur_schedule req)) = KindCron"
    using assms(9) by (simp add: switches_to_cron_def mergeScheduleConfig_def KindCron_def Let_def split: option.split)
  have per: "period_of (m_period_s m) \<noteq> 0"
    using valid_period_pos [OF old] assms(4) by (auto simp: scheduleConfig_def period_of_def KindPeriod_def)
  have fields: "m_schedule_kind ?new = Some ''cron''" "m_period_s ?new = m_period_s m" "m_kind ?new = ''heartbeat''"
    "m_slug ?new = m_slug m" "monitor_checks ?new"
    using assms(3,9) wf_db_monitor [OF assms(1,2)]
    by (auto simp: switches_to_cron_def apply_update_def update_row_params_def textOrNull_def monitor_checks_def no_update_def)
  obtain d' where upd: "updateBody ?x (m_id m) (m_user_id m) (switched req) (quiet d now) = (Inr (toMonitor ?x ?new), quiet d' now)"
    and mons: "monitors d' = update_where (\<lambda>q. m_id q = m_id m \<and> m_user_id q = m_user_id m) (switched_row req now) (monitors d)"
    using updateBody_quiet [OF assms(1,2) fields(5)] by blast
  have row: "the_row (\<lambda>q. m_id q = m_id m) (monitors d) = Some m"
    by (rule the_row_key [OF wf_db_monitor_ids [OF assms(1)] assms(2)])
  have get: "GetMonitor ?x i user (quiet d now) = (Inr (toMonitor ?x m), quiet d now)"
    using assms(7) by (simp add: GetMonitor_def uuid_or_404_def pgUUID_def assms(5) tx_unfold q_GetMonitorByID_def first_row_filter row)
  have valid: "validateUpdate E (toMonitor ?x m) req = (Inr (switched req) :: monitorResponse response + UpdateParams)"
    using assms(3,9,10) by (simp add: validateUpdate_def Let_def switches_to_cron_def scheduleFieldsSet_def toMonitor_def [of _ m] no_update_def)
  have "UpdateMonitor ?x i user (switched req) (quiet d now) = (Inr (toMonitor ?x ?new), quiet d' now)"
    using withTx_quiet [of "updateBody ?x (m_id m) (m_user_id m) (switched req)", OF upd]
    by (simp add: UpdateMonitor_def parseMonitorIDs_def uuid_or_404_def pgUUID_def assms(5,6) bind_def ret_def)
  then have run: "monitor_update E user i (Some req) (quiet d now, r) =
      (writeJSON 200 (Payload (toMonitorResponse E (toMonitor ?x ?new))), quiet d' now, r)"
    by (simp add: monitor_update_def call_def get decoded_def checked_def valid reply_def)
  have "distinct (map m_slug (monitors d'))"
    using assms(1) by (simp add: mons update_where_map_key apply_update_def wf_db_def wf_monitors_def)
  moreover have "?new \<in> set (monitors d')" using assms(2) by (auto simp: mons update_where_set)
  ultimately have stored: "the_row (\<lambda>q. m_slug q = m_slug m) (monitors d') = Some ?new"
    using the_row_key [of m_slug "monitors d'" ?new] fields(4) by simp
  have "nextDeadlineFor ?L m2 t2 = Inl period_kept" if "same_schedule m2 ?new" for m2 t2
    using that fields(1,3) cron_period_rejected [OF merged kind per]
    by (simp add: same_schedule_def nextDeadlineFor_def NextOccurrence_def switched_config [OF assms(9), of now m ?x] period_kept_def)
  then show ?thesis
    using run stored fields nextDeadlineFor_valid [OF old assms(3)] RecordCheckin_rejects
    by (intro exI [of _ "writeJSON 200 (Payload (toMonitorResponse E (toMonitor ?x ?new)))"] exI [of _ d'] exI [of _ ?new])
      (auto simp: writeJSON_def)
qed

definition demo_switch :: updateMonitorRequest where
  "demo_switch = \<lparr>ur_Name = None, ur_AutoResume = None, ur_schedule = no_schedule\<lparr>sf_ScheduleKind := ''cron'',
     sf_CronExpr := ''0 3 * * *''\<rparr>, ur_http = no_http\<rparr>"

text \<open>The demo monitor, switched from a minute to three o'clock: its next ping is refused.\<close>

theorem patch_breaks_pings_witness:
  "\<exists>rsp d'. monitor_update demo_env ''1'' ''7'' (Some demo_switch) (quiet demo_db 1000, ()) = (rsp, quiet d' 1000, ()) \<and>
    rs_status rsp = 200 \<and>
    run_res (RecordCheckin demo_lib demo_ext (demo_ping\<lparr>rp_Kind := ''success''\<rparr>)) 2000 [] d' = Inl period_kept \<and>
    checkins (run_db (RecordCheckin demo_lib demo_ext (demo_ping\<lparr>rp_Kind := ''success''\<rparr>)) 2000 [] d') = checkins d'"
proof -
  let ?p = "demo_ping\<lparr>rp_Kind := ''success''\<rparr>"
  have env: "ae_sched demo_env = demo_lib" "ae_ext demo_env = demo_ext" by (simp_all add: demo_env_def)
  have m: "demo_monitor \<in> set (monitors demo_db)" "m_kind demo_monitor = ''heartbeat''"
    "m_schedule_kind demo_monitor = Some ''period''" "m_slug demo_monitor = rp_Slug ?p" "rp_Kind ?p = ''success''"
    by (simp_all add: demo_db_def demo_monitor_def demo_ping_def)
  have ids: "scanUUID demo_ext ''7'' = Some (m_id demo_monitor)" "scanUUID demo_ext ''1'' = Some (m_user_id demo_monitor)"
    "uuidString demo_ext (m_user_id demo_monitor) = ''1''" by code_simp+
  have "(case Validate demo_lib (scheduleConfig demo_monitor) of None \<Rightarrow> True | Some _ \<Rightarrow> False)"
    "(case Validate demo_lib (mergeScheduleConfig (toMonitor demo_ext demo_monitor) (ur_schedule demo_switch)) of
       None \<Rightarrow> True | Some _ \<Rightarrow> False)" by code_simp+
  then have v: "Validate demo_lib (scheduleConfig demo_monitor) = None"
    "Validate demo_lib (mergeScheduleConfig (toMonitor demo_ext demo_monitor) (ur_schedule demo_switch)) = None"
    by (simp_all split: option.splits)
  have sw: "switches_to_cron demo_switch" by code_simp
  from patch_breaks_pings [OF demo_db_wf m(1-3), of demo_env, unfolded env, OF ids v(1) sw v(2), of 1000 "()" 0]
  obtain rsp d' m' where d': "monitor_update demo_env ''1'' ''7'' (Some demo_switch) (quiet demo_db 1000, ()) = (rsp, quiet d' 1000, ())"
    "rs_status rsp = 200" "the_row (\<lambda>q. m_slug q = rp_Slug ?p) (monitors d') = Some m'"
    and rej: "\<forall>d2 m2 p os t2. the_row (\<lambda>q. m_slug q = rp_Slug p) (monitors d2) = Some m2 \<longrightarrow> same_schedule m2 m' \<longrightarrow>
       rp_Kind p = ''success'' \<longrightarrow> run_res (RecordCheckin demo_lib demo_ext p) t2 [] d2 = Inl period_kept \<and>
       tables_kept d2 (run_db (RecordCheckin demo_lib demo_ext p) t2 os d2)"
    unfolding m(4) by blast
  have "same_schedule m' m'" by (simp add: same_schedule_def)
  with rej d'(3) m(5) have "run_res (RecordCheckin demo_lib demo_ext ?p) 2000 [] d' = Inl period_kept"
    "tables_kept d' (run_db (RecordCheckin demo_lib demo_ext ?p) 2000 [] d')" by blast+
  with d'(1,2) show ?thesis by (auto simp: tables_kept_simps)
qed

section \<open>Ownership comes first\<close>

text \<open>The endpoints below \<^verbatim>\<open>/api/v1/monitors/{id}\<close>, with what the request carries.\<close>

datatype endpoint = EGet gotime | EUpdate "updateMonitorRequest option" | EDelete | EPause | EResume gotime
  | EMute | EUnmute | EEvents "string \<Rightarrow> string" | ECheckins "string \<Rightarrow> string"
  | EProbeResults "string \<Rightarrow> string" | ELatency "string \<Rightarrow> string" gotime

text \<open>The status and the database a handler leaves.\<close>

definition served :: "(unit, 'b) handler \<Rightarrow> sess \<Rightarrow> nat \<times> db" where
  "served h s = (case h (s, ()) of (rsp, s', _) \<Rightarrow> (rs_status rsp, sdb s'))"

fun serve :: "'f aggregates \<Rightarrow> api_env \<Rightarrow> string \<Rightarrow> string \<Rightarrow> endpoint \<Rightarrow> sess \<Rightarrow> nat \<times> db" where
  "serve agg E user i (EGet now) = served (monitor_get E user i now)"
| "serve agg E user i (EUpdate body) = served (monitor_update E user i body)"
| "serve agg E user i EDelete = served (monitor_delete E user i)"
| "serve agg E user i EPause = served (monitor_pause E user i)"
| "serve agg E user i (EResume now) = served (monitor_resume E user i now)"
| "serve agg E user i EMute = served (monitor_mute E user i)"
| "serve agg E user i EUnmute = served (monitor_unmute E user i)"
| "serve agg E user i (EEvents q) = served (listMonitorEvents E user i q)"
| "serve agg E user i (ECheckins q) = served (listMonitorCheckins E user i q)"
| "serve agg E user i (EProbeResults q) = served (listMonitorProbeResults E user i q)"
| "serve agg E user i (ELatency q now) = served (getMonitorLatencySeries agg E user i q now)"

definition named :: "extlib \<Rightarrow> string \<Rightarrow> db \<Rightarrow> monitor_row list" where
  "named x i d = filter (\<lambda>m. scanUUID x i = Some (m_id m)) (monitors d)"

definition error_status :: "gerror \<Rightarrow> nat" where
  "error_status e = (case as_storeError e of Some (status, _) \<Rightarrow> status | None \<Rightarrow> 500)"

lemma GetMonitor_foreign:
  assumes "list_all (\<lambda>m. uuidString x (m_user_id m) \<noteq> user) (named x i (sdb s))"
  shows "\<exists>e s'. GetMonitor x i user s = (Inl e, s') \<and> sdb s' = sdb s \<and> error_status e =
    (if scanUUID x i = None then 404 else if next_outcome s \<noteq> Succeeds then 500
     else if named x i (sdb s) = [] then 404 else 403)"
proof (cases "scanUUID x i")
  case None
  then show ?thesis
    by (simp add: GetMonitor_def uuid_or_404_def pgUUID_def bind_def raise_def not_found_def newHTTPError_def
        error_status_def)
next
  case (Some u)
  then have n: "named x i (sdb s) = filter (\<lambda>m. m_id m = u) (monitors (sdb s))"
    by (auto simp: named_def intro: filter_cong)
  show ?thesis
  proof (cases "named x i (sdb s)")
    case Nil
    with Some n show ?thesis
      by (auto simp: GetMonitor_def uuid_or_404_def pgUUID_def bind_def ret_def map_err_def query_def
          q_GetMonitorByID_def reading_def first_row_def no_rows_404_def not_found_def newHTTPError_def
          error_status_def split: outcome.split)
  next
    case (Cons m ms)
    with assms have "uuidString x (m_user_id m) \<noteq> user" by simp
    with Cons Some n show ?thesis
      by (auto simp: GetMonitor_def uuid_or_404_def pgUUID_def bind_def ret_def raise_def map_err_def query_def
          q_GetMonitorByID_def reading_def first_row_def no_rows_404_def newHTTPError_def
          error_status_def split: outcome.split)
  qed
qed

lemma served_call_Inl:
  "m s = (Inl e, s') \<Longrightarrow> served (call m k) s = (error_status e, sdb s')"
  by (simp add: served_def call_def writeError_status error_status_def)

text \<open>
  C30. Every endpoint below a monitor's path looks up the owner before anything else: for a caller
  who does not own the monitor the request body and the query parameters are irrelevant, nothing
  is written, and the answer is 404 when there is no such monitor, 403 when it belongs to someone
  else, and 500 when the lookup itself fails.
\<close>

theorem ownership_first:
  assumes "list_all (\<lambda>m. uuidString (ae_ext E) (m_user_id m) \<noteq> user) (named (ae_ext E) i (sdb s))"
  shows "serve agg E user i req s =
    (if scanUUID (ae_ext E) i = None then 404 else if next_outcome s \<noteq> Succeeds then 500
     else if named (ae_ext E) i (sdb s) = [] then 404 else 403, sdb s)"
proof -
  obtain e s' where get: "GetMonitor (ae_ext E) i user s = (Inl e, s')" "sdb s' = sdb s"
    "error_status e = (if scanUUID (ae_ext E) i = None then 404 else if next_outcome s \<noteq> Succeeds then 500
       else if named (ae_ext E) i (sdb s) = [] then 404 else 403)"
    using GetMonitor_foreign [OF assms] by blast
  show ?thesis
    by (cases req) (simp_all add: monitor_get_def monitor_update_def monitor_delete_def monitor_pause_def
        monitor_resume_def monitor_mute_def monitor_unmute_def mutateMonitor_def listMonitorEvents_def
        listMonitorCheckins_def listMonitorProbeResults_def getMonitorLatencySeries_def served_call_Inl [of "GetMonitor (ae_ext E) i user", OF get(1)]
        get(2,3))
qed

definition demo_aggregates :: "int aggregates" where
  "demo_aggregates = \<lparr>percentile_50 = hd, percentile_95 = last, average = hd\<rparr>"

theorem ownership_first_witness:
  "serve demo_aggregates demo_env ''2'' ''7'' EDelete (quiet demo_db 50) = (403, demo_db)"
proof -
  have "list_all (\<lambda>m. uuidString (ae_ext demo_env) (m_user_id m) \<noteq> ''2'') (named (ae_ext demo_env) ''7'' demo_db)"
    "named (ae_ext demo_env) ''7'' demo_db \<noteq> []" "scanUUID (ae_ext demo_env) ''7'' \<noteq> None"
    by code_simp+
  with ownership_first [of demo_env "''2''" "''7''" "quiet demo_db 50" demo_aggregates EDelete] show ?thesis by simp
qed

end
