(* ===== verification/Accounts.thy ===== *)
theory Accounts
  imports Monitor_Store
begin

unbundle bit_operations_syntax

text \<open>
  Accounts, sessions and API keys: src/backend/store/user.go, session.go and apikey.go with
  the statements of src/backend/db/users.sql.go, refresh_tokens.sql.go and apikeys.sql.go.
  A refresh-token rotation is three statements without a transaction, so its steps are also
  a state machine in which calls interleave.
\<close>

section \<open>Statements\<close>

definition q_CountUsers :: "int stmt" where
  "q_CountUsers = reading (\<lambda>d. Inr (int (length (users d))))"

definition q_CreateUser :: "uuid \<Rightarrow> string \<Rightarrow> string \<Rightarrow> user_row stmt" where
  "q_CreateUser i email hash now d =
    (let u = \<lparr>u_id = i, u_email = email, u_password_hash = hash, u_created_at = now, u_updated_at = now\<rparr> in
     if i \<in> u_id ` set (users d) \<or> email \<in> u_email ` set (users d) then (Inl UniqueViolation, d)
     else (Inr u, d\<lparr>users := users d @ [u]\<rparr>))"

definition q_GetUserByEmail :: "string \<Rightarrow> user_row stmt" where
  "q_GetUserByEmail email = reading (\<lambda>d. first_row (filter (\<lambda>u. u_email u = email) (users d)))"

definition q_GetUserByID :: "uuid \<Rightarrow> user_row stmt" where
  "q_GetUserByID i = reading (\<lambda>d. first_row (filter (\<lambda>u. u_id u = i) (users d)))"

definition q_CreateRefreshToken :: "uuid \<Rightarrow> uuid \<Rightarrow> uuid \<Rightarrow> string \<Rightarrow> gotime \<Rightarrow> refresh_token_row stmt" where
  "q_CreateRefreshToken i user family hash expires now d =
    (let r = \<lparr>r_id = i, r_user_id = user, r_family_id = family, r_token_hash = hash,
              r_expires_at = expires, r_rotated_at = None, r_revoked_at = None, r_created_at = now\<rparr> in
     if i \<in> r_id ` set (refresh_tokens d) \<or> hash \<in> r_token_hash ` set (refresh_tokens d)
     then (Inl UniqueViolation, d)
     else if user \<notin> u_id ` set (users d) then (Inl ForeignKeyViolation, d)
     else (Inr r, d\<lparr>refresh_tokens := refresh_tokens d @ [r]\<rparr>))"

definition q_DeleteExpiredRefreshTokens :: "unit stmt" where
  "q_DeleteExpiredRefreshTokens now d =
     (Inr (), d\<lparr>refresh_tokens := filter (\<lambda>r. \<not> r_expires_at r < now) (refresh_tokens d)\<rparr>)"

definition q_GetRefreshTokenByHash :: "string \<Rightarrow> refresh_token_row stmt" where
  "q_GetRefreshTokenByHash hash =
     reading (\<lambda>d. first_row (filter (\<lambda>r. r_token_hash r = hash) (refresh_tokens d)))"

definition q_RevokeRefreshTokenFamily :: "uuid \<Rightarrow> unit stmt" where
  "q_RevokeRefreshTokenFamily family now d =
     (Inr (), d\<lparr>refresh_tokens := update_where (\<lambda>r. r_family_id r = family \<and> r_revoked_at r = None)
        (\<lambda>r. r\<lparr>r_revoked_at := Some now\<rparr>) (refresh_tokens d)\<rparr>)"

definition q_RotateRefreshTokenIfUnrotated :: "uuid \<Rightarrow> refresh_token_row stmt" where
  "q_RotateRefreshTokenIfUnrotated i now d =
    (let sel = (\<lambda>r. r_id r = i \<and> r_rotated_at r = None \<and> r_revoked_at r = None);
         f = (\<lambda>r. r\<lparr>r_rotated_at := Some now\<rparr>) in
     (first_row (map f (filter sel (refresh_tokens d))),
      d\<lparr>refresh_tokens := update_where sel f (refresh_tokens d)\<rparr>))"

definition q_CreateAPIKey :: "uuid \<Rightarrow> uuid \<Rightarrow> string \<Rightarrow> string \<Rightarrow> api_key_row stmt" where
  "q_CreateAPIKey i user hash label now d =
    (let k = \<lparr>k_id = i, k_user_id = user, k_key_hash = hash, k_label = label, k_last_used_at = None,
              k_revoked_at = None, k_created_at = now\<rparr> in
     if i \<in> k_id ` set (api_keys d) \<or> hash \<in> k_key_hash ` set (api_keys d) then (Inl UniqueViolation, d)
     else if user \<notin> u_id ` set (users d) then (Inl ForeignKeyViolation, d)
     else (Inr k, d\<lparr>api_keys := api_keys d @ [k]\<rparr>))"

definition q_GetAPIKeyByHash :: "string \<Rightarrow> api_key_row stmt" where
  "q_GetAPIKeyByHash hash =
     reading (\<lambda>d. first_row (filter (\<lambda>k. k_key_hash k = hash \<and> k_revoked_at k = None) (api_keys d)))"

definition q_ListAPIKeysByUser :: "uuid \<Rightarrow> api_key_row list stmt" where
  "q_ListAPIKeysByUser user =
     reading (\<lambda>d. Inr (sort_key (\<lambda>k. - k_created_at k) (filter (\<lambda>k. k_user_id k = user) (api_keys d))))"

definition q_RevokeAPIKey :: "uuid \<Rightarrow> uuid \<Rightarrow> nat stmt" where
  "q_RevokeAPIKey i user now d =
    (let sel = (\<lambda>k. k_id k = i \<and> k_user_id k = user \<and> k_revoked_at k = None) in
     (Inr (length (filter sel (api_keys d))),
      d\<lparr>api_keys := update_where sel (\<lambda>k. k\<lparr>k_revoked_at := Some now\<rparr>) (api_keys d)\<rparr>))"

definition q_TouchAPIKeyLastUsed :: "uuid \<Rightarrow> unit stmt" where
  "q_TouchAPIKeyLastUsed i now d =
     (Inr (), d\<lparr>api_keys := update_where (\<lambda>k. k_id k = i) (\<lambda>k. k\<lparr>k_last_used_at := Some now\<rparr>) (api_keys d)\<rparr>)"

section \<open>Users\<close>

text \<open>
  What the store takes from cryptography: bcrypt (the salt drawn at a call is part of that
  call's \<open>GenerateFromPassword\<close>), SHA-256 as a function to bytes, and the Unicode case
  mapping that \<^verbatim>\<open>strings.ToLower\<close> uses on strings with a non-ASCII byte.
\<close>

record cryptolib =
  GenerateFromPassword :: "string \<Rightarrow> string option"
  CompareHashAndPassword :: "string \<Rightarrow> string \<Rightarrow> bool"
  Sum256 :: "string \<Rightarrow> nat list"
  UnicodeToLower :: "string \<Rightarrow> string"

definition str_ToLower :: "cryptolib \<Rightarrow> string \<Rightarrow> string" where
  "str_ToLower c s = (if list_all (\<lambda>ch. byte ch < 128) s then map lower_char s else UnicodeToLower c s)"

record AuthUser =
  au_ID :: string
  au_Email :: string

definition normalizeEmail :: "cryptolib \<Rightarrow> string \<Rightarrow> string" where
  "normalizeEmail c email = str_ToLower c (str_TrimSpace email)"

definition Register :: "extlib \<Rightarrow> cryptolib \<Rightarrow> uuid \<Rightarrow> string \<Rightarrow> string \<Rightarrow> bool \<Rightarrow> AuthUser dbm" where
  "Register x c i email password registrationOpen =
    (if \<not> registrationOpen then raise (newHTTPError ErrRegistrationClosed 403)
     else let email = normalizeEmail c email in
       case GenerateFromPassword c password of
         None \<Rightarrow> raise (MsgE ''store: hash password'')
       | Some hash \<Rightarrow>
           bind (map_err (\<lambda>err. if isUniqueViolation err then newHTTPError ErrEmailTaken 409
                               else WrapE ''store: create user'' err)
                  (query (q_CreateUser i email hash))) (\<lambda>u.
           ret \<lparr>au_ID = uuidString x (u_id u), au_Email = u_email u\<rparr>))"

definition UserEmailByID :: "extlib \<Rightarrow> string \<Rightarrow> string dbm" where
  "UserEmailByID x userID =
     bind (uuid_or_404 x userID) (\<lambda>i.
     bind (map_err (no_rows_404 ''store: get user by id'') (query (q_GetUserByID i))) (\<lambda>u. ret (u_email u)))"

definition Authenticate :: "extlib \<Rightarrow> cryptolib \<Rightarrow> string \<Rightarrow> string \<Rightarrow> AuthUser dbm" where
  "Authenticate x c email password =
     bind (map_err (\<lambda>err. if is_no_rows err then newHTTPError ErrInvalidCredentials 401
                         else WrapE ''store: get user by email'' err)
            (query (q_GetUserByEmail (normalizeEmail c email)))) (\<lambda>u.
     if \<not> CompareHashAndPassword c (u_password_hash u) password
     then raise (newHTTPError ErrInvalidCredentials 401)
     else ret \<lparr>au_ID = uuidString x (u_id u), au_Email = u_email u\<rparr>)"

section \<open>Refresh tokens\<close>

definition hex_encode :: "nat list \<Rightarrow> string" where
  "hex_encode bs = concat (map (\<lambda>b. [hex_digit (b div 16), hex_digit (b mod 16)]) bs)"

definition hashToken :: "cryptolib \<Rightarrow> string \<Rightarrow> string" where
  "hashToken c token = hex_encode (Sum256 c token)"

text \<open>Randomness is the buffer that crypto/rand fills, None when reading it fails.\<close>

definition newRandomToken :: "nat list option \<Rightarrow> string option" where
  "newRandomToken rand = map_option hex_encode rand"

definition uuid_bytes :: "nat list \<Rightarrow> nat list" where
  "uuid_bytes b = (let b = b[6 := (b ! 6 AND 0x0f) OR 0x40] in b[8 := (b ! 8 AND 0x3f) OR 0x80])"

definition newRandomUUID :: "nat list option \<Rightarrow> string option" where
  "newRandomUUID rand = (case rand of
      None \<Rightarrow> None
    | Some buf \<Rightarrow>
        (let b = uuid_bytes buf in
         Some (hex_encode (take 4 b) @ ''-'' @ hex_encode (take 2 (drop 4 b)) @ ''-'' @
               hex_encode (take 2 (drop 6 b)) @ ''-'' @ hex_encode (take 2 (drop 8 b)) @ ''-'' @
               hex_encode (take 6 (drop 10 b)))))"

record RefreshToken =
  rt_PlainToken :: string
  rt_FamilyID :: string
  rt_ExpiresAt :: gotime

text \<open>
  \<open>i\<close> is the row id the server draws, \<open>t\<close> the clock. The sum \<^verbatim>\<open>Time.Add\<close> of an instant and an
  int64 duration is exact.
\<close>

definition issueInFamily ::
  "extlib \<Rightarrow> cryptolib \<Rightarrow> uuid \<Rightarrow> nat list option \<Rightarrow> gotime \<Rightarrow> string \<Rightarrow> string \<Rightarrow> duration \<Rightarrow> RefreshToken dbm"
where
  "issueInFamily x c i rand t userID familyID ttl =
    (case newRandomToken rand of
       None \<Rightarrow> raise (MsgE ''store: generate refresh token'')
     | Some plain \<Rightarrow>
         (let expiresAt = t + ttl in
          bind (lift_err (pgUUID x userID)) (\<lambda>userUUID.
          bind (lift_err (pgUUID x familyID)) (\<lambda>familyUUID.
          bind (map_err (WrapE ''store: create refresh token'')
                 (query (q_CreateRefreshToken i userUUID familyUUID (hashToken c plain) expiresAt))) (\<lambda>_.
          ret \<lparr>rt_PlainToken = plain, rt_FamilyID = familyID, rt_ExpiresAt = expiresAt\<rparr>)))))"

definition IssueRefreshToken ::
  "extlib \<Rightarrow> cryptolib \<Rightarrow> uuid \<Rightarrow> nat list option \<Rightarrow> nat list option \<Rightarrow> gotime \<Rightarrow> string \<Rightarrow> duration \<Rightarrow> RefreshToken dbm"
where
  "IssueRefreshToken x c i famRand rand t userID ttl =
    (case newRandomUUID famRand of
       None \<Rightarrow> raise (MsgE ''store: generate family id'')
     | Some familyID \<Rightarrow> issueInFamily x c i rand t userID familyID ttl)"

text \<open>
  \<open>RotateRefreshToken\<close> in the three parts between which other requests can run: reading the
  row, deciding and marking it rotated, and inserting its successor.
\<close>

definition rotateLookup :: "cryptolib \<Rightarrow> string \<Rightarrow> refresh_token_row dbm" where
  "rotateLookup c plainToken =
     map_err (\<lambda>err. if is_no_rows err then newHTTPError ErrInvalidRefreshToken 401
                    else WrapE ''store: get refresh token'' err)
       (query (q_GetRefreshTokenByHash (hashToken c plainToken)))"

definition revokeReused :: "string \<Rightarrow> uuid \<Rightarrow> 'a dbm" where
  "revokeReused msg family =
     bind (map_err (WrapE msg) (query (q_RevokeRefreshTokenFamily family)))
       (\<lambda>_. raise (newHTTPError ErrRefreshReuse 401))"

definition rotateMark :: "gotime \<Rightarrow> refresh_token_row \<Rightarrow> refresh_token_row dbm" where
  "rotateMark t row =
    (if r_revoked_at row \<noteq> None then raise (newHTTPError ErrInvalidRefreshToken 401)
     else if r_rotated_at row \<noteq> None then revokeReused ''store: revoke family on reuse'' (r_family_id row)
     else if r_expires_at row < t then raise (newHTTPError ErrInvalidRefreshToken 401)
     else catch (query (q_RotateRefreshTokenIfUnrotated (r_id row)))
       (\<lambda>err. if is_no_rows err then revokeReused ''store: revoke family on race'' (r_family_id row)
              else raise (WrapE ''store: mark rotated'' err)))"

definition RotateRefreshToken ::
  "extlib \<Rightarrow> cryptolib \<Rightarrow> uuid \<Rightarrow> nat list option \<Rightarrow> gotime \<Rightarrow> gotime \<Rightarrow> string \<Rightarrow> duration \<Rightarrow>
     (RefreshToken \<times> string) dbm" where
  "RotateRefreshToken x c i rand t t' plainToken ttl =
     bind (rotateLookup c plainToken) (\<lambda>row.
     bind (rotateMark t row) (\<lambda>rotated.
     let userID = uuidString x (r_user_id rotated) in
     bind (issueInFamily x c i rand t' userID (uuidString x (r_family_id rotated)) ttl) (\<lambda>next.
     ret (next, userID))))"

definition RevokeFamilyByToken :: "cryptolib \<Rightarrow> string \<Rightarrow> unit dbm" where
  "RevokeFamilyByToken c plainToken =
     bind (catch (bind (query (q_GetRefreshTokenByHash (hashToken c plainToken))) (\<lambda>row. ret (Some row)))
            (\<lambda>err. if is_no_rows err then ret None
                   else raise (WrapE ''store: get refresh token for logout'' err))) (\<lambda>found.
     case found of
       None \<Rightarrow> ret ()
     | Some row \<Rightarrow> map_err (WrapE ''store: revoke family on logout'')
         (query (q_RevokeRefreshTokenFamily (r_family_id row))))"

section \<open>API keys\<close>

record APIKey =
  ak_ID :: string
  ak_UserID :: string
  ak_Label :: string
  ak_LastUsedAt :: "gotime option"
  ak_RevokedAt :: "gotime option"
  ak_CreatedAt :: gotime

definition toAPIKey :: "extlib \<Rightarrow> api_key_row \<Rightarrow> APIKey" where
  "toAPIKey x row =
    \<lparr>ak_ID = uuidString x (k_id row), ak_UserID = uuidString x (k_user_id row), ak_Label = k_label row,
     ak_LastUsedAt = k_last_used_at row, ak_RevokedAt = k_revoked_at row, ak_CreatedAt = k_created_at row\<rparr>"

definition apiKeyPrefix :: string where
  "apiKeyPrefix = ''pk_''"

definition newAPIKeyToken :: "nat list option \<Rightarrow> string option" where
  "newAPIKeyToken rand = map_option (\<lambda>b. apiKeyPrefix @ hex_encode b) rand"

record CreatedAPIKey =
  cak_APIKey :: APIKey
  cak_PlainKey :: string

definition CreateAPIKey :: "extlib \<Rightarrow> cryptolib \<Rightarrow> uuid \<Rightarrow> nat list option \<Rightarrow> string \<Rightarrow> string \<Rightarrow> CreatedAPIKey dbm" where
  "CreateAPIKey x c i rand userID label =
     bind (lift_err (pgUUID x userID)) (\<lambda>userUUID.
     case newAPIKeyToken rand of
       None \<Rightarrow> raise (MsgE ''store: generate api key'')
     | Some plain \<Rightarrow>
         bind (map_err (WrapE ''store: create api key'') (query (q_CreateAPIKey i userUUID (hashToken c plain) label)))
           (\<lambda>row. ret \<lparr>cak_APIKey = toAPIKey x row, cak_PlainKey = plain\<rparr>))"

definition ListAPIKeys :: "extlib \<Rightarrow> string \<Rightarrow> APIKey list dbm" where
  "ListAPIKeys x userID =
     bind (lift_err (pgUUID x userID)) (\<lambda>userUUID.
     bind (map_err (WrapE ''store: list api keys'') (query (q_ListAPIKeysByUser userUUID))) (\<lambda>rows.
     ret (map (toAPIKey x) rows)))"

definition RevokeAPIKey :: "extlib \<Rightarrow> string \<Rightarrow> string \<Rightarrow> unit dbm" where
  "RevokeAPIKey x i caller =
     bind (parseMonitorIDs x i caller) (\<lambda>(iu, uu).
     bind (map_err (WrapE ''store: revoke api key'') (query (q_RevokeAPIKey iu uu))) (\<lambda>n.
     if n = 0 then raise not_found else ret ()))"

record AuthenticatedAPIKey =
  aa_UserID :: string
  aa_KeyID :: string

definition invalid_api_key :: gerror where
  "invalid_api_key = newHTTPError (ErrText ''invalid or revoked api key'') 401"

definition AuthenticateAPIKey :: "extlib \<Rightarrow> cryptolib \<Rightarrow> string \<Rightarrow> AuthenticatedAPIKey dbm" where
  "AuthenticateAPIKey x c plainKey =
     bind (map_err (\<lambda>err. if is_no_rows err then invalid_api_key else WrapE ''store: get api key by hash'' err)
            (query (q_GetAPIKeyByHash (hashToken c plainKey)))) (\<lambda>row.
     bind (map_err (WrapE ''store: touch api key last used'') (query (q_TouchAPIKeyLastUsed (k_id row)))) (\<lambda>_.
     ret \<lparr>aa_UserID = uuidString x (k_user_id row), aa_KeyID = uuidString x (k_id row)\<rparr>))"

section \<open>Constraints of the account tables\<close>

definition wf_accounts :: "db \<Rightarrow> bool" where
  "wf_accounts d \<longleftrightarrow> distinct (map r_id (refresh_tokens d)) \<and> distinct (map r_token_hash (refresh_tokens d)) \<and>
     distinct (map k_id (api_keys d)) \<and> distinct (map k_key_hash (api_keys d)) \<and>
     r_user_id ` set (refresh_tokens d) \<subseteq> u_id ` set (users d) \<and>
     k_user_id ` set (api_keys d) \<subseteq> u_id ` set (users d)"

lemmas account_stmts = q_CountUsers_def q_CreateUser_def q_GetUserByEmail_def q_GetUserByID_def
  q_CreateRefreshToken_def q_DeleteExpiredRefreshTokens_def q_GetRefreshTokenByHash_def
  q_RevokeRefreshTokenFamily_def q_RotateRefreshTokenIfUnrotated_def q_CreateAPIKey_def
  q_GetAPIKeyByHash_def q_ListAPIKeysByUser_def q_RevokeAPIKey_def q_TouchAPIKeyLastUsed_def

lemma account_stmts_wf [tx_rules]:
  "stmt_keeps wf_db (q_CreateUser i email h)" "stmt_keeps wf_db (q_CreateRefreshToken i u f h t)"
  "stmt_keeps wf_db (q_RevokeRefreshTokenFamily f)" "stmt_keeps wf_db (q_RotateRefreshTokenIfUnrotated i)"
  "stmt_keeps wf_db (q_CreateAPIKey i u h l)" "stmt_keeps wf_db (q_RevokeAPIKey i u)"
  "stmt_keeps wf_db (q_TouchAPIKeyLastUsed i)"
  by (auto simp: stmt_keeps_def account_stmts Let_def wf_db_def wf_table_defs)

lemma account_reads [tx_rules]:
  "stmt_keeps I (q_GetUserByEmail email)" "stmt_keeps I (q_GetUserByID i)" "stmt_keeps I (q_CountUsers)"
  "stmt_keeps I (q_GetRefreshTokenByHash h)" "stmt_keeps I (q_GetAPIKeyByHash h)" "stmt_keeps I (q_ListAPIKeysByUser i)"
  by (simp_all add: account_stmts reading_keeps)

lemma account_stmts_grow [tx_rules]:
  "stmt_grows (q_CreateUser i email h)" "stmt_grows (q_CreateRefreshToken i u f h t)"
  "stmt_grows (q_RevokeRefreshTokenFamily f)" "stmt_grows (q_RotateRefreshTokenIfUnrotated i)"
  "stmt_grows (q_CreateAPIKey i u h l)" "stmt_grows (q_RevokeAPIKey i u)"
  "stmt_grows (q_TouchAPIKeyLastUsed i)" "stmt_grows (q_GetUserByEmail email)" "stmt_grows (q_GetUserByID i)"
  "stmt_grows (q_GetRefreshTokenByHash h)" "stmt_grows (q_GetAPIKeyByHash h)" "stmt_grows (q_ListAPIKeysByUser i)"
  by (simp_all add: stmt_grows_def account_stmts Let_def)

lemma distinct_snoc_key: "distinct (map key (rows @ [r])) \<longleftrightarrow> distinct (map key rows) \<and> key r \<notin> key ` set rows"
  by auto

lemma set_map_eqD: "map f xs = map f ys \<Longrightarrow> f ` set xs = f ` set ys"
  by (metis list.set_map)

lemma token_update_keys:
  assumes "\<And>r. r_id (f r) = r_id r \<and> r_token_hash (f r) = r_token_hash r \<and> r_user_id (f r) = r_user_id r"
  shows "wf_accounts (d\<lparr>refresh_tokens := update_where sel f (refresh_tokens d)\<rparr>) = wf_accounts d"
proof -
  have m: "map r_id (update_where sel f (refresh_tokens d)) = map r_id (refresh_tokens d)"
    "map r_token_hash (update_where sel f (refresh_tokens d)) = map r_token_hash (refresh_tokens d)"
    "map r_user_id (update_where sel f (refresh_tokens d)) = map r_user_id (refresh_tokens d)"
    using assms by (simp_all add: update_where_map_key)
  show ?thesis by (simp add: wf_accounts_def m set_map_eqD [OF m(3)])
qed

lemma key_update_keys:
  assumes "\<And>k. k_id (f k) = k_id k \<and> k_key_hash (f k) = k_key_hash k \<and> k_user_id (f k) = k_user_id k"
  shows "wf_accounts (d\<lparr>api_keys := update_where sel f (api_keys d)\<rparr>) = wf_accounts d"
proof -
  have m: "map k_id (update_where sel f (api_keys d)) = map k_id (api_keys d)"
    "map k_key_hash (update_where sel f (api_keys d)) = map k_key_hash (api_keys d)"
    "map k_user_id (update_where sel f (api_keys d)) = map k_user_id (api_keys d)"
    using assms by (simp_all add: update_where_map_key)
  show ?thesis by (simp add: wf_accounts_def m set_map_eqD [OF m(3)])
qed

lemma wf_accounts_stmts [tx_rules]:
  "stmt_keeps wf_accounts (q_CreateUser i email h)" "stmt_keeps wf_accounts (q_CreateRefreshToken i u f h t)"
  "stmt_keeps wf_accounts (q_RevokeRefreshTokenFamily f)"
  "stmt_keeps wf_accounts (q_RotateRefreshTokenIfUnrotated i)"
  "stmt_keeps wf_accounts (q_CreateAPIKey i u h l)" "stmt_keeps wf_accounts (q_RevokeAPIKey i u)"
  "stmt_keeps wf_accounts (q_TouchAPIKeyLastUsed i)"
  by (auto simp: stmt_keeps_def account_stmts Let_def token_update_keys key_update_keys)
     (auto simp: wf_accounts_def)

text \<open>Every operation of this theory keeps both invariants, whatever the connection does.\<close>

lemma revokeReused_keeps [tx_rules]:
  "stmt_keeps I (q_RevokeRefreshTokenFamily f) \<Longrightarrow> keeps_all I (revokeReused msg f)"
  unfolding revokeReused_def by (intro tx_rules)

lemma rotateMark_keeps [tx_rules]:
  assumes "\<And>f. stmt_keeps I (q_RevokeRefreshTokenFamily f)" and "\<And>i. stmt_keeps I (q_RotateRefreshTokenIfUnrotated i)"
  shows "keeps_all I (rotateMark t row)"
  unfolding rotateMark_def by (auto intro!: tx_rules assms)

lemma issueInFamily_keeps [tx_rules]:
  assumes "\<And>u f h e. stmt_keeps I (q_CreateRefreshToken i u f h e)"
  shows "keeps_all I (issueInFamily x c i rand t u f ttl)"
  unfolding issueInFamily_def Let_def by (auto intro!: tx_rules assms split: option.split)

lemma account_ops_keep:
  assumes I: "I = wf_db \<or> I = wf_accounts"
  shows "keeps_all I (Register x c i email pw open)" "keeps_all I (UserEmailByID x uid)"
    "keeps_all I (Authenticate x c email pw)" "keeps_all I (IssueRefreshToken x c i fr rand t uid ttl)"
    "keeps_all I (RotateRefreshToken x c i rand t t' tok ttl)" "keeps_all I (RevokeFamilyByToken c tok)"
    "keeps_all I (CreateAPIKey x c i rand uid label)" "keeps_all I (ListAPIKeys x uid)"
    "keeps_all I (RevokeAPIKey x kid uid)" "keeps_all I (AuthenticateAPIKey x c plain)"
  using I unfolding Register_def UserEmailByID_def Authenticate_def IssueRefreshToken_def RotateRefreshToken_def
    rotateLookup_def RevokeFamilyByToken_def CreateAPIKey_def ListAPIKeys_def RevokeAPIKey_def
    AuthenticateAPIKey_def Let_def
  by (auto intro!: tx_rules split: option.split)

section \<open>Registration and login\<close>

lemma query_InrD:
  "query q s = (Inr x, s') \<Longrightarrow> q (snow s) (sdb s) = (Inr x, sdb s')"
  by (auto simp: query_def split: outcome.splits prod.splits sum.splits)

lemma bind_InrD: "bind m f s = (Inr y, s') \<Longrightarrow> \<exists>x t. m s = (Inr x, t) \<and> f x t = (Inr y, s')"
  by (auto simp: bind_def split: prod.splits sum.splits)

lemma map_err_InrD: "map_err g m s = (Inr y, s') \<Longrightarrow> m s = (Inr y, s')"
  by (auto simp: map_err_def split: prod.splits sum.splits)

text \<open>The documented contract of bcrypt: the hash of a password accepts that password.\<close>

definition bcrypt_verifies :: "cryptolib \<Rightarrow> bool" where
  "bcrypt_verifies c \<longleftrightarrow>
     (\<forall>pw h. GenerateFromPassword c pw = Some h \<longrightarrow> CompareHashAndPassword c h pw)"

lemma Register_InrD:
  assumes "Register x c i email pw open s = (Inr u, s')"
  shows "\<exists>h. open \<and> GenerateFromPassword c pw = Some h \<and>
    normalizeEmail c email \<notin> u_email ` set (users (sdb s)) \<and>
    users (sdb s') = users (sdb s) @ [\<lparr>u_id = i, u_email = normalizeEmail c email, u_password_hash = h,
      u_created_at = snow s, u_updated_at = snow s\<rparr>] \<and>
    u = \<lparr>au_ID = uuidString x i, au_Email = normalizeEmail c email\<rparr>"
  using assms
  by (auto simp: Register_def raise_def ret_def Let_def q_CreateUser_def
      split: if_splits option.splits prod.splits dest!: bind_InrD map_err_InrD query_InrD)
    (drule sym, simp)

text \<open>
  C24. An account that registration created can be logged into with the same password under
  every spelling of the address that trims and lower-cases to the same text, and with no
  password its bcrypt hash refuses; registering the address again is answered ErrEmailTaken.
  Registration succeeds only while it is open, whatever the connection does.
\<close>

theorem register_then_login:
  assumes "bcrypt_verifies c" and "run_res (Register x c i email pw open) now os d = Inr u"
    and "normalizeEmail c email' = normalizeEmail c email"
    and "d' = run_db (Register x c i email pw open) now os d"
  shows "open \<and> run_res (Authenticate x c email' pw) now' [] d' = Inr u \<and>
    (\<exists>h. GenerateFromPassword c pw = Some h \<and>
      (\<forall>wrong. \<not> CompareHashAndPassword c h wrong \<longrightarrow>
         run_res (Authenticate x c email' wrong) now' [] d' = Inl (HttpE ErrInvalidCredentials 401))) \<and>
    (GenerateFromPassword c pw' \<noteq> None \<longrightarrow>
       run_res (Register x c j email' pw' True) now' [] d' = Inl (HttpE ErrEmailTaken 409))"
proof -
  have "Register x c i email pw open \<lparr>sdb = d, snow = now, soutcomes = os\<rparr> =
      (Inr u, snd (Register x c i email pw open \<lparr>sdb = d, snow = now, soutcomes = os\<rparr>))"
    using assms(2) by (simp add: run_res_def prod_eq_iff)
  from Register_InrD [OF this] obtain h row where r: "open" "GenerateFromPassword c pw = Some h"
    "normalizeEmail c email \<notin> u_email ` set (users d)" "u_email row = normalizeEmail c email"
    "u_password_hash row = h" "users d' = users d @ [row]"
    "u = \<lparr>au_ID = uuidString x (u_id row), au_Email = u_email row\<rparr>"
    unfolding assms(4) run_db_def by force
  have "filter (\<lambda>u. u_email u = normalizeEmail c email) (users d') = [row]"
    using r(3,4,6) by (auto simp: filter_empty_conv rev_image_eqI)
  then have auth: "run_res (Authenticate x c email' p) now' [] d' =
      (if CompareHashAndPassword c h p then Inr u else Inl (HttpE ErrInvalidCredentials 401))" for p
    using r(5,7) by (simp add: run_res_def Authenticate_def assms(3) tx_unfold q_GetUserByEmail_def
        first_row_def newHTTPError_def)
  have "run_res (Register x c j email' pw' True) now' [] d' = Inl (HttpE ErrEmailTaken 409)"
    if "GenerateFromPassword c pw' \<noteq> None"
    using that r(4,6) by (auto simp: run_res_def Register_def assms(3) tx_unfold q_CreateUser_def Let_def newHTTPError_def)
  with auth r(1,2) assms(1) show ?thesis by (auto simp: bcrypt_verifies_def)
qed

definition demo_crypto :: cryptolib where
  "demo_crypto = \<lparr>GenerateFromPassword = \<lambda>pw. if length pw > 72 then None else Some (CHR ''#'' # pw),
     CompareHashAndPassword = \<lambda>h pw. h = CHR ''#'' # pw, Sum256 = \<lambda>s. map byte s, UnicodeToLower = \<lambda>s. s\<rparr>"

lemma demo_bcrypt: "bcrypt_verifies demo_crypto"
  by (simp add: bcrypt_verifies_def demo_crypto_def)

theorem register_then_login_witness:
  "run_res (Authenticate demo_ext demo_crypto ''ADA@x.io '' ''pw'') 9 []
     (run_db (Register demo_ext demo_crypto 5 '' ada@X.io'' ''pw'' True) 7 [] empty_db)
   = run_res (Register demo_ext demo_crypto 5 '' ada@X.io'' ''pw'' True) 7 [] empty_db"
proof -
  have r: "run_res (Register demo_ext demo_crypto 5 '' ada@X.io'' ''pw'' True) 7 [] empty_db =
      Inr \<lparr>au_ID = uuidString demo_ext 5, au_Email = ''ada@x.io''\<rparr>"
    and e: "normalizeEmail demo_crypto ''ADA@x.io '' = normalizeEmail demo_crypto '' ada@X.io''"
    by code_simp+
  from register_then_login [OF demo_bcrypt r e refl, of 9 "''pw''" 6] r show ?thesis by simp
qed

section \<open>Replayed refresh tokens\<close>

lemma lookup_quiet:
  assumes "wf_accounts d" and "row \<in> set (refresh_tokens d)" and "hashToken c tok = r_token_hash row"
  shows "rotateLookup c tok (quiet d now) = (Inr row, quiet d now)"
proof -
  have "filter (\<lambda>r. r_token_hash r = r_token_hash row) (refresh_tokens d) = [row]"
    using assms(1,2) by (intro filter_unique_key [of r_token_hash]) (auto simp: wf_accounts_def)
  then show ?thesis
    by (simp add: rotateLookup_def assms(3) tx_unfold q_GetRefreshTokenByHash_def first_row_def)
qed

definition revoke_family :: "uuid \<Rightarrow> gotime \<Rightarrow> refresh_token_row list \<Rightarrow> refresh_token_row list" where
  "revoke_family f now = update_where (\<lambda>r. r_family_id r = f \<and> r_revoked_at r = None) (\<lambda>r. r\<lparr>r_revoked_at := Some now\<rparr>)"

lemma revoke_family_dead:
  assumes "r \<in> set (revoke_family f now rows)" and "r_family_id r = f"
  shows "r_revoked_at r \<noteq> None"
proof -
  obtain r0 where r0: "r = (if r_family_id r0 = f \<and> r_revoked_at r0 = None then r0\<lparr>r_revoked_at := Some now\<rparr> else r0)"
    using update_where_member [OF assms(1) [unfolded revoke_family_def]] by blast
  then have "r_family_id r0 = f" using assms(2) by (cases "r_family_id r0 = f") simp_all
  with r0 show ?thesis by (cases "r_revoked_at r0") simp_all
qed

lemma revoke_family_row:
  "r \<in> set rows \<Longrightarrow> \<exists>r' \<in> set (revoke_family f now rows). r_token_hash r' = r_token_hash r \<and> r_family_id r' = r_family_id r"
  by (rule bexI [of _ "if r_family_id r = f \<and> r_revoked_at r = None then r\<lparr>r_revoked_at := Some now\<rparr> else r"])
    (auto simp: revoke_family_def update_where_set)

lemma revoke_family_wf:
  "wf_accounts (d\<lparr>refresh_tokens := revoke_family f now (refresh_tokens d)\<rparr>) = wf_accounts d"
  by (simp add: revoke_family_def token_update_keys)

definition demo_token :: refresh_token_row where
  "demo_token = \<lparr>r_id = 1, r_user_id = 1, r_family_id = 9, r_token_hash = hex_encode [112],
     r_expires_at = 1000, r_rotated_at = Some 50, r_revoked_at = None, r_created_at = 10\<rparr>"

definition demo_sessions :: db where
  "demo_sessions = demo_db\<lparr>refresh_tokens := [demo_token, demo_token\<lparr>r_id := 2, r_token_hash := hex_encode [113],
     r_rotated_at := None\<rparr>]\<rparr>"

section \<open>Interleaved rotations\<close>

text \<open>
  Between its statements a rotation is in flight: it holds the row it read, or the row it has
  marked rotated and not yet replaced. A step is one part of a call, run with any clock and
  any connection behaviour; a logout or a lost race revokes a family at any time; a process
  may die with calls in flight. A login draws a family id that is not in use.
\<close>

datatype flight = HasRow refresh_token_row | HasRotated refresh_token_row

definition rotating :: "uuid \<Rightarrow> flight \<Rightarrow> bool" where
  "rotating f fl = (case fl of HasRow _ \<Rightarrow> False | HasRotated r \<Rightarrow> r_family_id r = f)"

definition live :: "uuid \<Rightarrow> refresh_token_row \<Rightarrow> bool" where
  "live f r \<longleftrightarrow> r_family_id r = f \<and> r_rotated_at r = None \<and> r_revoked_at r = None"

type_synonym auth_state = "db \<times> flight list"

inductive auth_step :: "extlib \<Rightarrow> cryptolib \<Rightarrow> auth_state \<Rightarrow> auth_state \<Rightarrow> bool" for x c where
  login: "IssueRefreshToken x c i famRand rand t uid ttl \<lparr>sdb = d, snow = now, soutcomes = os\<rparr> = (res, s') \<Longrightarrow>
    (\<And>fam. newRandomUUID famRand = Some fam \<Longrightarrow>
       \<forall>f. scanUUID x fam = Some f \<longrightarrow> f \<notin> r_family_id ` set (refresh_tokens d) \<and> \<not> list_ex (rotating f) fs) \<Longrightarrow>
    auth_step x c (d, fs) (sdb s', fs)"
| lookup: "rotateLookup c tok \<lparr>sdb = d, snow = now, soutcomes = os\<rparr> = (Inr row, s') \<Longrightarrow>
    auth_step x c (d, fs) (sdb s', HasRow row # fs)"
| mark: "rotateMark t row \<lparr>sdb = d, snow = now, soutcomes = os\<rparr> = (Inr rotated, s') \<Longrightarrow>
    auth_step x c (d, fs @ HasRow row # gs) (sdb s', fs @ HasRotated rotated # gs)"
| refuse: "rotateMark t row \<lparr>sdb = d, snow = now, soutcomes = os\<rparr> = (Inl err, s') \<Longrightarrow>
    auth_step x c (d, fs @ HasRow row # gs) (sdb s', fs @ gs)"
| issue: "issueInFamily x c i rand t (uuidString x (r_user_id r)) (uuidString x (r_family_id r)) ttl
      \<lparr>sdb = d, snow = now, soutcomes = os\<rparr> = (res, s') \<Longrightarrow>
    auth_step x c (d, fs @ HasRotated r # gs) (sdb s', fs @ gs)"
| revoke: "query (q_RevokeRefreshTokenFamily f) \<lparr>sdb = d, snow = now, soutcomes = os\<rparr> = (res, s') \<Longrightarrow>
    auth_step x c (d, fs) (sdb s', fs)"
| crash: "auth_step x c (d, fs @ fl # gs) (d, fs @ gs)"

inductive auth_reachable :: "extlib \<Rightarrow> cryptolib \<Rightarrow> auth_state \<Rightarrow> bool" for x c where
  start: "wf_accounts d \<Longrightarrow> refresh_tokens d = [] \<Longrightarrow> auth_reachable x c (d, [])"
| step: "auth_reachable x c st \<Longrightarrow> auth_step x c st st' \<Longrightarrow> auth_reachable x c st'"

inductive_cases auth_stepE: "auth_step x c st st'"

definition live_count :: "uuid \<Rightarrow> auth_state \<Rightarrow> nat" where
  "live_count f st = length (filter (live f) (refresh_tokens (fst st))) + length (filter (rotating f) (snd st))"

lemma rotating_simps [simp]: "\<not> rotating f (HasRow r)" "rotating f (HasRotated r) \<longleftrightarrow> r_family_id r = f"
  by (simp_all add: rotating_def)

text \<open>Statements that cannot make a token live keep every count of live tokens.\<close>

definition less_live :: "db \<Rightarrow> db \<Rightarrow> bool" where
  "less_live d d' \<longleftrightarrow> (\<forall>f. length (filter (live f) (refresh_tokens d')) \<le> length (filter (live f) (refresh_tokens d)))"

lemma less_live_refl [simp]: "less_live d d"
  by (simp add: less_live_def)

lemma less_live_trans: "less_live d1 d2 \<Longrightarrow> less_live d2 d3 \<Longrightarrow> less_live d1 d3"
  unfolding less_live_def by (meson le_trans)

lemma filter_update_le:
  assumes "\<And>r. sel r \<Longrightarrow> \<not> p (f r)"
  shows "length (filter p (update_where sel f rows)) \<le> length (filter p rows)"
  using assms by (induction rows) (auto intro: le_SucI)

lemma revoke_less_live: "less_live d (snd (q_RevokeRefreshTokenFamily f now d))"
  by (simp add: less_live_def q_RevokeRefreshTokenFamily_def filter_update_le live_def)

lemma rotate_less_live: "less_live d (snd (q_RotateRefreshTokenIfUnrotated i now d))"
  by (simp add: less_live_def q_RotateRefreshTokenIfUnrotated_def Let_def filter_update_le live_def)

lemma query_effect: "sdb (snd (query q s)) = sdb s \<or> sdb (snd (query q s)) = snd (q (snow s) (sdb s))"
  by (auto simp: query_def split: outcome.split prod.split sum.split)

lemma query_snow [simp]: "snow (snd (query q s)) = snow s"
  by (auto simp: query_def split: outcome.split prod.split sum.split)

lemma query_less_live:
  assumes "\<And>now d. less_live d (snd (q now d))"
  shows "less_live (sdb s) (sdb (snd (query q s)))"
  using query_effect [of q s] assms by (metis less_live_refl)

lemma revokeReused_less_live: "less_live (sdb s) (sdb (snd (revokeReused msg f s)))"
proof -
  obtain r s' where q: "query (q_RevokeRefreshTokenFamily f) s = (r, s')" by force
  have "less_live (sdb s) (sdb s')"
    using query_less_live [of "q_RevokeRefreshTokenFamily f" s] q by (simp add: revoke_less_live)
  then show ?thesis by (simp add: revokeReused_def bind_def map_err_def raise_def q split: sum.split)
qed

lemma rotateMark_less_live: "less_live (sdb s) (sdb (snd (rotateMark t row s)))"
proof -
  have c: "less_live (sdb s) (sdb (snd (catch (query (q_RotateRefreshTokenIfUnrotated i)) h s)))"
    if h: "\<And>e s. less_live (sdb s) (sdb (snd (h e s)))" for i h
  proof -
    obtain r s' where q: "query (q_RotateRefreshTokenIfUnrotated i) s = (r, s')" by force
    have "less_live (sdb s) (sdb s')"
      using query_less_live [of "q_RotateRefreshTokenIfUnrotated i" s] q by (simp add: rotate_less_live)
    with h show ?thesis by (auto simp: catch_def q intro: less_live_trans split: sum.split)
  qed
  show ?thesis
    by (auto simp: rotateMark_def revokeReused_less_live intro!: c) (simp_all add: raise_def)
qed

text \<open>Marking takes a live token of the family out of the count, exactly once.\<close>

lemma filter_update_one:
  assumes "distinct (map key rows)" and "r \<in> set rows" and "sel r" and "\<And>x. sel x \<Longrightarrow> key x = key r"
    and "p r" and "\<not> p (f r)"
  shows "Suc (length (filter p (update_where sel f rows))) = length (filter p rows)"
  using assms
proof (induction rows)
  case (Cons a rows)
  show ?case
  proof (cases "a = r")
    case True
    have "\<not> sel x" if "x \<in> set rows" for x
      using Cons.prems(1) Cons.prems(4) [of x] True that by (auto simp: rev_image_eqI)
    then have "update_where sel f rows = rows" by (simp add: update_where_def map_idI)
    with True Cons.prems(3,5,6) show ?thesis by simp
  next
    case False
    then have r: "r \<in> set rows" using Cons.prems(2) by simp
    then have "\<not> sel a" using Cons.prems(1) Cons.prems(4) [of a] by (auto simp: rev_image_eqI)
    moreover have "distinct (map key rows)" using Cons.prems(1) by simp
    ultimately show ?thesis using Cons.IH [OF _ r Cons.prems(3-6)] by simp
  qed
qed simp

lemma rotateMark_InrD:
  assumes "wf_accounts (sdb s)" and "rotateMark t row s = (Inr rotated, s')"
  shows "length (filter (live f) (refresh_tokens (sdb s'))) + (if r_family_id rotated = f then 1 else 0)
    \<le> length (filter (live f) (refresh_tokens (sdb s)))"
proof -
  let ?sel = "\<lambda>r. r_id r = r_id row \<and> r_rotated_at r = None \<and> r_revoked_at r = None"
  let ?f = "\<lambda>r. r\<lparr>r_rotated_at := Some (snow s)\<rparr>"
  have "query (q_RotateRefreshTokenIfUnrotated (r_id row)) s = (Inr rotated, s')"
    using assms(2) by (auto simp: rotateMark_def raise_def revokeReused_def catch_def bind_def
        split: if_splits prod.splits sum.splits)
  from query_InrD [OF this] have e: "first_row (map ?f (filter ?sel (refresh_tokens (sdb s)))) = Inr rotated"
      and d': "(sdb s)\<lparr>refresh_tokens := update_where ?sel ?f (refresh_tokens (sdb s))\<rparr> = sdb s'"
    by (simp_all add: q_RotateRefreshTokenIfUnrotated_def Let_def)
  have tok: "refresh_tokens (sdb s') = update_where ?sel ?f (refresh_tokens (sdb s))"
    by (simp add: d' [symmetric])
  from e have "rotated \<in> set (map ?f (filter ?sel (refresh_tokens (sdb s))))"
    by (cases "map ?f (filter ?sel (refresh_tokens (sdb s)))") (simp_all add: first_row_def)
  then obtain r where r: "r \<in> set (refresh_tokens (sdb s))" "?sel r" "rotated = ?f r" by auto
  have "Suc (length (filter (live f) (update_where ?sel ?f (refresh_tokens (sdb s))))) =
      length (filter (live f) (refresh_tokens (sdb s)))" if "r_family_id r = f"
    using assms(1) r that by (intro filter_update_one [of r_id _ r]) (auto simp: wf_accounts_def live_def)
  moreover have "length (filter (live f) (update_where ?sel ?f (refresh_tokens (sdb s)))) \<le>
      length (filter (live f) (refresh_tokens (sdb s)))"
    by (rule filter_update_le) (simp add: live_def)
  ultimately show ?thesis using r(3) by (simp add: tok)
qed

lemma issueInFamily_effect:
  "refresh_tokens (sdb (snd (issueInFamily x c i rand t u fam ttl s))) = refresh_tokens (sdb s) \<or>
   (\<exists>r. scanUUID x fam = Some (r_family_id r) \<and>
      refresh_tokens (sdb (snd (issueInFamily x c i rand t u fam ttl s))) = refresh_tokens (sdb s) @ [r])"
proof -
  have q: "refresh_tokens (sdb (snd (query (q_CreateRefreshToken i uu ff h e) s))) = refresh_tokens (sdb s) \<or>
      (\<exists>r. ff = r_family_id r \<and> refresh_tokens (sdb (snd (query (q_CreateRefreshToken i uu ff h e) s))) =
         refresh_tokens (sdb s) @ [r])" for uu ff h e
    using query_effect [of "q_CreateRefreshToken i uu ff h e" s]
    by (elim disjE) (auto simp: q_CreateRefreshToken_def Let_def)
  have e: "snd (bind (map_err g (query (q_CreateRefreshToken i uu ff h e))) (\<lambda>_. ret z) s) =
      snd (query (q_CreateRefreshToken i uu ff h e) s)" for g uu ff h e and z :: 'z
    by (auto simp: bind_def map_err_def ret_def split: prod.split sum.split)
  have b: "snd (bind (lift_err (pgUUID x z)) k s) = (case scanUUID x z of None \<Rightarrow> s | Some v \<Rightarrow> snd (k v s))"
    for z and k :: "uuid \<Rightarrow> 'b dbm"
    by (auto simp: bind_def lift_err_def pgUUID_def raise_def ret_def split: option.split)
  show ?thesis
    unfolding issueInFamily_def Let_def
    by (cases "newRandomToken rand")
      (auto simp: b e raise_def split: option.split, metis q)
qed

definition auth_inv :: "auth_state \<Rightarrow> bool" where
  "auth_inv st \<longleftrightarrow> wf_accounts (fst st) \<and> (\<forall>f. live_count f st \<le> 1)"

lemma less_live_inv:
  assumes "auth_inv (d, fs)" and "wf_accounts d'" and "less_live d d'"
    and "\<And>f. length (filter (rotating f) fs') \<le> length (filter (rotating f) fs)"
  shows "auth_inv (d', fs')"
proof -
  have "live_count f (d', fs') \<le> live_count f (d, fs)" for f
    using assms(3,4) by (simp add: live_count_def less_live_def add_mono)
  with assms(1,2) show ?thesis unfolding auth_inv_def by (auto intro: order_trans)
qed

lemma accounts_kept:
  "keeps_all wf_accounts m \<Longrightarrow> wf_accounts d \<Longrightarrow> m \<lparr>sdb = d, snow = now, soutcomes = os\<rparr> = (res, s') \<Longrightarrow> wf_accounts (sdb s')"
  unfolding keeps_all_def by (metis sess.select_convs(1) snd_conv)

lemma issued_inv:
  assumes "auth_inv (d, fs)" and "wf_accounts d'"
    and "refresh_tokens d' = refresh_tokens d \<or>
      (\<exists>r. f = r_family_id r \<and> refresh_tokens d' = refresh_tokens d @ [r])"
    and "live_count f (d, fs') = 0"
    and "\<And>g. length (filter (rotating g) fs') \<le> length (filter (rotating g) fs)"
  shows "auth_inv (d', fs')"
  unfolding auth_inv_def
proof (intro conjI allI)
  fix g
  have "live_count g (d, fs') \<le> 1"
    using assms(1,5) unfolding auth_inv_def live_count_def fst_conv snd_conv by (meson add_left_mono order_trans)
  moreover have "live_count g (d', fs') \<le> live_count g (d, fs') + (if g = f then 1 else 0)"
    using assms(3) by (auto simp: live_count_def live_def)
  ultimately show "live_count g (d', fs') \<le> 1" using assms(4) by (cases "g = f") auto
qed (simp add: assms(2))

lemma login_inv:
  assumes inv: "auth_inv (d, fs)"
    and run: "IssueRefreshToken x c i famRand rand t uid ttl \<lparr>sdb = d, snow = now, soutcomes = os\<rparr> = (res, s')"
    and fresh: "\<And>fam. newRandomUUID famRand = Some fam \<Longrightarrow>
       \<forall>f. scanUUID x fam = Some f \<longrightarrow> f \<notin> r_family_id ` set (refresh_tokens d) \<and> \<not> list_ex (rotating f) fs"
  shows "auth_inv (sdb s', fs)"
proof (cases "newRandomUUID famRand")
  case None
  then have "sdb s' = d" using run by (auto simp: IssueRefreshToken_def raise_def)
  with inv show ?thesis by simp
next
  case (Some fam)
  have wf: "wf_accounts (sdb s')"
    using accounts_kept [OF account_ops_keep(4) _ run] inv by (simp add: auth_inv_def)
  from Some have eff: "refresh_tokens (sdb s') = refresh_tokens d \<or>
      (\<exists>r. scanUUID x fam = Some (r_family_id r) \<and> refresh_tokens (sdb s') = refresh_tokens d @ [r])"
    using run issueInFamily_effect [of x c i rand t uid fam ttl "\<lparr>sdb = d, snow = now, soutcomes = os\<rparr>"]
    by (simp add: IssueRefreshToken_def)
  show ?thesis
  proof (cases "scanUUID x fam")
    case None
    with eff have "less_live d (sdb s')" by (simp add: less_live_def)
    with less_live_inv [OF inv wf] show ?thesis by blast
  next
    case sc: (Some f)
    with fresh [OF Some] have "f \<notin> r_family_id ` set (refresh_tokens d)" "\<not> list_ex (rotating f) fs" by blast+
    then have "live_count f (d, fs) = 0"
      by (auto simp: live_count_def filter_empty_conv list_ex_iff live_def)
    moreover have "refresh_tokens (sdb s') = refresh_tokens d \<or>
        (\<exists>r. f = r_family_id r \<and> refresh_tokens (sdb s') = refresh_tokens d @ [r])" using eff sc by auto
    ultimately show ?thesis using issued_inv [OF inv wf] by blast
  qed
qed

lemma auth_step_inv:
  assumes "auth_step x c st st'" and "auth_inv st" and "uuid_roundtrip x"
  shows "auth_inv st'"
  using assms(1,2)
proof (cases rule: auth_step.cases)
  case (login i famRand rand t uid ttl d now os res s' fs)
  then show ?thesis using login_inv [OF _ login(3,4)] assms(2) by simp
next
  case (lookup tok d now os row s' fs)
  have "keeps_all (\<lambda>e. e = d) (rotateLookup c tok)" unfolding rotateLookup_def by (intro tx_rules)
  then have "sdb s' = d" using lookup(3) unfolding keeps_all_def by (metis sess.select_convs(1) snd_conv)
  with lookup(1,2) assms(2) show ?thesis by (simp add: auth_inv_def live_count_def)
next
  case (mark t row d now os rotated s' fs gs)
  let ?s = "\<lparr>sdb = d, snow = now, soutcomes = os\<rparr>"
  have wf: "wf_accounts d" using assms(2) mark(1) by (simp add: auth_inv_def)
  have "wf_accounts (sdb s')" using accounts_kept [OF rotateMark_keeps wf mark(3)] by (simp add: tx_rules)
  moreover have "live_count f st' \<le> live_count f st" for f
    using rotateMark_InrD [of ?s t row rotated s' f] wf mark by (auto simp: live_count_def)
  ultimately show ?thesis using assms(2) mark(2) unfolding auth_inv_def by (auto intro: order_trans)
next
  case (refuse t row d now os err s' fs gs)
  have wf: "wf_accounts d" using assms(2) refuse(1) by (simp add: auth_inv_def)
  have "less_live d (sdb s')"
    using rotateMark_less_live [of "\<lparr>sdb = d, snow = now, soutcomes = os\<rparr>" t row] refuse(3) by simp
  moreover have "wf_accounts (sdb s')" using accounts_kept [OF rotateMark_keeps wf refuse(3)] by (simp add: tx_rules)
  ultimately show ?thesis using less_live_inv [of d "fs @ HasRow row # gs" "sdb s'" "fs @ gs"] refuse(1,2) assms(2) by simp
next
  case (issue i rand t r ttl d now os res s' fs gs)
  have wf: "wf_accounts d" using assms(2) issue(1) by (simp add: auth_inv_def)
  have "refresh_tokens (sdb s') = refresh_tokens d \<or>
      (\<exists>q. r_family_id r = r_family_id q \<and> refresh_tokens (sdb s') = refresh_tokens d @ [q])"
    using issueInFamily_effect [of x c i rand t "uuidString x (r_user_id r)" "uuidString x (r_family_id r)" ttl
        "\<lparr>sdb = d, snow = now, soutcomes = os\<rparr>"] issue(3) assms(3) by (simp add: uuid_roundtrip_def)
  moreover have "live_count (r_family_id r) (d, fs @ gs) = 0"
  proof -
    have "live_count (r_family_id r) (d, fs @ HasRotated r # gs) \<le> 1"
      using assms(2) issue(1) unfolding auth_inv_def by blast
    then show ?thesis by (simp add: live_count_def)
  qed
  moreover have "wf_accounts (sdb s')" using accounts_kept [OF issueInFamily_keeps wf issue(3)] by (simp add: tx_rules)
  ultimately show ?thesis using issued_inv [of d "fs @ HasRotated r # gs" "sdb s'" "r_family_id r" "fs @ gs"]
      issue(1,2) assms(2) by simp
next
  case (revoke f d now os res s' fs)
  have wf: "wf_accounts d" using assms(2) revoke(1) by (simp add: auth_inv_def)
  have "less_live d (sdb s')"
    using query_less_live [of "q_RevokeRefreshTokenFamily f" "\<lparr>sdb = d, snow = now, soutcomes = os\<rparr>"] revoke(3)
    by (simp add: revoke_less_live)
  moreover have "wf_accounts (sdb s')" using accounts_kept [OF keeps_all_query wf revoke(3)] by (simp add: tx_rules)
  ultimately show ?thesis using less_live_inv [of d fs "sdb s'" fs] revoke(1,2) assms(2) by simp
next
  case (crash d fs fl gs)
  then show ?thesis using less_live_inv [of d "fs @ fl # gs" d "fs @ gs"] assms(2) by (simp add: auth_inv_def)
qed

lemma auth_reachable_inv:
  assumes "auth_reachable x c st" and "uuid_roundtrip x"
  shows "auth_inv st"
  using assms(1)
proof induction
  case (start d)
  then show ?case by (simp add: auth_inv_def live_count_def)
next
  case (step st st')
  then show ?case using auth_step_inv assms(2) by blast
qed

text \<open>
  C10. In every state that logins, refreshes, logouts and crashes reach, interleaved between
  the statements of a refresh and under any connection behaviour, a family has at most one
  token that is neither rotated nor revoked, and none while a refresh of the family is between
  marking and inserting: of several requests that present the same token at most one wins.
\<close>

theorem one_live_token:
  assumes "auth_reachable x c (d, fs)" and "uuid_roundtrip x"
  shows "length (filter (live f) (refresh_tokens d)) + length (filter (rotating f) fs) \<le> 1"
  using auth_reachable_inv [OF assms] by (simp add: auth_inv_def live_count_def)

definition demo_ids :: extlib where
  "demo_ids = demo_ext\<lparr>scanUUID := \<lambda>s. Some (length s), uuidString := \<lambda>u. replicate u (CHR ''x'')\<rparr>"

lemma demo_ids_roundtrip: "uuid_roundtrip demo_ids"
  by (simp add: demo_ids_def demo_uuids)

text \<open>A token of family 36 (the length of a formatted UUID) for the demonstration user.\<close>

definition demo_login :: "RefreshToken dbm" where
  "demo_login = IssueRefreshToken demo_ids demo_crypto 1 (Some (replicate 16 0)) (Some [1]) 100 ''x'' 1000"

theorem one_live_token_witness:
  "length (filter (live 36) (refresh_tokens (run_db demo_login 100 [] demo_db))) +
   length (filter (rotating 36) []) \<le> 1"
proof (rule one_live_token [OF auth_reachable.step [OF auth_reachable.start] demo_ids_roundtrip])
  show "wf_accounts demo_db" "refresh_tokens demo_db = []"
    by (simp_all add: wf_accounts_def demo_db_def empty_db_def)
  show "auth_step demo_ids demo_crypto (demo_db, []) (run_db demo_login 100 [] demo_db, [])"
    unfolding run_db_def demo_login_def
    by (rule auth_step.login [OF surjective_pairing]) (simp add: demo_db_def empty_db_def)
qed

lemma rotateMark_quiet:
  assumes r: "wf_accounts e" "r \<in> set (refresh_tokens e)" "live f r" "t' \<le> r_expires_at r"
  shows "rotateMark t' r (quiet e now) = (Inr (r\<lparr>r_rotated_at := Some now\<rparr>), quiet (e\<lparr>refresh_tokens :=
      update_where (\<lambda>q. r_id q = r_id r \<and> r_rotated_at q = None \<and> r_revoked_at q = None) (\<lambda>q. q\<lparr>r_rotated_at := Some now\<rparr>)
        (refresh_tokens e)\<rparr>) now)"
proof -
  have "filter (\<lambda>q. r_id q = r_id r \<and> r_rotated_at q = None \<and> r_revoked_at q = None) (refresh_tokens e) =
      filter (\<lambda>q. r_rotated_at q = None \<and> r_revoked_at q = None) (filter (\<lambda>q. r_id q = r_id r) (refresh_tokens e))"
    by (simp add: conj_commute conj_left_commute)
  also have "filter (\<lambda>q. r_id q = r_id r) (refresh_tokens e) = [r]"
    using r(1,2) by (intro filter_unique_key [of r_id]) (auto simp: wf_accounts_def)
  finally show ?thesis
    using r(3,4) by (simp add: rotateMark_def live_def catch_def tx_unfold q_RotateRefreshTokenIfUnrotated_def Let_def first_row_def)
qed

text \<open>
  C22. A revocation does not reach a refresh in flight. Whenever a refresh has marked a live token
  and its insert has not run yet, a replay of that token is answered ErrRefreshReuse and leaves no
  unrevoked token in the family. The insert then succeeds all the same (the fresh token and id are
  not in use), and until it expires the new token of the revoked family is found and can be rotated
  again.
\<close>

theorem revocation_race:
  assumes "wf_accounts d" and "uuid_roundtrip x" and "row \<in> set (refresh_tokens d)" and "hashToken c tok = r_token_hash row"
    and "live (r_family_id row) row" and "t \<le> r_expires_at row"
    and "d1 = run_db (rotateMark t row) now1 [] d"
    and "d2 = run_db (RotateRefreshToken x c i2 rand2 t2 t2' tok ttl2) now2 [] d1"
    and "issue = issueInFamily x c i3 rand3 t3 (uuidString x (r_user_id row)) (uuidString x (r_family_id row)) ttl"
    and "newRandomToken rand3 = Some plain" and "i3 \<notin> r_id ` set (refresh_tokens d)"
    and "hashToken c plain \<notin> r_token_hash ` set (refresh_tokens d)"
    and "d3 = run_db issue now3 [] d2" and "t4 \<le> t3 + ttl"
  shows "run_res (rotateMark t row) now1 [] d = Inr (row\<lparr>r_rotated_at := Some now1\<rparr>) \<and>
    run_res (RotateRefreshToken x c i2 rand2 t2 t2' tok ttl2) now2 [] d1 = Inl (HttpE ErrRefreshReuse 401) \<and>
    (\<forall>r \<in> set (refresh_tokens d2). r_family_id r = r_family_id row \<longrightarrow> r_revoked_at r \<noteq> None) \<and>
    (\<exists>token. run_res issue now3 [] d2 = Inr token \<and> rt_PlainToken token = plain) \<and>
    (\<exists>new. run_res (rotateLookup c plain) now4 [] d3 = Inr new \<and> live (r_family_id row) new \<and>
       run_res (rotateMark t4 new) now4 [] d3 = Inr (new\<lparr>r_rotated_at := Some now4\<rparr>))"
proof -
  let ?f1 = "\<lambda>q. q\<lparr>r_rotated_at := Some now1\<rparr>"
  let ?sel = "\<lambda>q. r_id q = r_id row \<and> r_rotated_at q = None \<and> r_revoked_at q = None"
  have d1: "d1 = d\<lparr>refresh_tokens := update_where ?sel ?f1 (refresh_tokens d)\<rparr>"
    by (simp add: assms(7) run_db_def rotateMark_quiet [OF assms(1,3,5,6)])
  have wf1: "wf_accounts d1" using assms(1) by (simp add: d1 token_update_keys)
  have row1: "?f1 row \<in> set (refresh_tokens d1)"
    using assms(3,5) by (auto simp: d1 update_where_set live_def intro!: rev_image_eqI)
  have replay: "RotateRefreshToken x c i2 rand2 t2 t2' tok ttl2 (quiet d1 now2) = (Inl (HttpE ErrRefreshReuse 401),
      quiet (d1\<lparr>refresh_tokens := revoke_family (r_family_id row) now2 (refresh_tokens d1)\<rparr>) now2)"
    using assms(4,5) unfolding RotateRefreshToken_def bind_def
    by (subst lookup_quiet [OF wf1 row1]) (simp_all add: rotateMark_def revokeReused_def tx_unfold live_def
        q_RevokeRefreshTokenFamily_def revoke_family_def newHTTPError_def)
  have d2: "d2 = d1\<lparr>refresh_tokens := revoke_family (r_family_id row) now2 (refresh_tokens d1)\<rparr>"
    by (simp add: assms(8) run_db_def replay)
  have keys: "map k (refresh_tokens d2) = map k (refresh_tokens d)"
    if "\<And>r y. k (r\<lparr>r_rotated_at := y\<rparr>) = k r" "\<And>r y. k (r\<lparr>r_revoked_at := y\<rparr>) = k r" for k
    using that by (simp add: d2 d1 revoke_family_def update_where_map_key)
  have fresh: "i3 \<notin> r_id ` set (refresh_tokens d2)" "hashToken c plain \<notin> r_token_hash ` set (refresh_tokens d2)"
    using assms(11,12) set_map_eqD [OF keys [of r_id]] set_map_eqD [OF keys [of r_token_hash]] by simp_all
  have user: "r_user_id row \<in> u_id ` set (users d2)" using assms(1,3) by (auto simp: wf_accounts_def d2 d1)
  define new where "new = \<lparr>r_id = i3, r_user_id = r_user_id row, r_family_id = r_family_id row, r_token_hash = hashToken c plain,
      r_expires_at = t3 + ttl, r_rotated_at = None, r_revoked_at = None, r_created_at = now3\<rparr>"
  have iss: "issue (quiet d2 now3) = (Inr \<lparr>rt_PlainToken = plain, rt_FamilyID = uuidString x (r_family_id row),
      rt_ExpiresAt = t3 + ttl\<rparr>, quiet (d2\<lparr>refresh_tokens := refresh_tokens d2 @ [new]\<rparr>) now3)"
    using assms(2) fresh user by (simp add: assms(9,10) issueInFamily_def Let_def lift_err_def pgUUID_def uuid_roundtrip_def
        tx_unfold q_CreateRefreshToken_def new_def)
  have d3: "d3 = d2\<lparr>refresh_tokens := refresh_tokens d2 @ [new]\<rparr>" by (simp add: assms(13) run_db_def iss)
  have wf2: "wf_accounts d2" using wf1 by (simp add: d2 revoke_family_wf)
  have wf3: "wf_accounts d3" using wf2 fresh user by (auto simp: d3 wf_accounts_def new_def)
  have new: "new \<in> set (refresh_tokens d3)" "hashToken c plain = r_token_hash new" "live (r_family_id row) new" "t4 \<le> r_expires_at new"
    using assms(14) by (simp_all add: d3 new_def live_def)
  have "\<forall>r \<in> set (refresh_tokens d2). r_family_id r = r_family_id row \<longrightarrow> r_revoked_at r \<noteq> None"
    by (auto simp: d2 dest: revoke_family_dead)
  moreover have "run_res (rotateMark t row) now1 [] d = Inr (?f1 row)" by (simp add: run_res_def rotateMark_quiet [OF assms(1,3,5,6)])
  moreover have "run_res (rotateLookup c plain) now4 [] d3 = Inr new" by (simp add: run_res_def lookup_quiet [OF wf3 new(1,2)])
  moreover have "run_res (rotateMark t4 new) now4 [] d3 = Inr (new\<lparr>r_rotated_at := Some now4\<rparr>)"
    by (simp add: run_res_def rotateMark_quiet [OF wf3 new(1,3,4)])
  ultimately show ?thesis using new(3) by (simp add: run_res_def replay iss)
qed

theorem revocation_race_witness:
  "let d = run_db demo_login 100 [] demo_db;
       row = hd (refresh_tokens d);
       d1 = run_db (rotateMark 110 row) 110 [] d;
       d2 = run_db (RotateRefreshToken demo_ids demo_crypto 2 (Some [2]) 111 111 ''01'' 1000) 111 [] d1;
       d3 = run_db (issueInFamily demo_ids demo_crypto 3 (Some [3]) 112 (uuidString demo_ids (r_user_id row))
              (uuidString demo_ids (r_family_id row)) 1000) 112 [] d2
   in run_res (RotateRefreshToken demo_ids demo_crypto 2 (Some [2]) 111 111 ''01'' 1000) 111 [] d1 = Inl (HttpE ErrRefreshReuse 401) \<and>
      (\<exists>new. run_res (rotateLookup demo_crypto ''03'') 120 [] d3 = Inr new \<and> live 36 new)"
proof -
  define d where "d = run_db demo_login 100 [] demo_db"
  define row where "row = hd (refresh_tokens d)"
  have toks: "refresh_tokens d \<noteq> []" "r_family_id row = 36" "live 36 row" "r_expires_at row = 1100"
    "hashToken demo_crypto ''01'' = r_token_hash row" "newRandomToken (Some [3]) = Some ''03''"
    "3 \<notin> r_id ` set (refresh_tokens d)" "hashToken demo_crypto ''03'' \<notin> r_token_hash ` set (refresh_tokens d)"
    unfolding row_def d_def by code_simp+
  have "wf_accounts demo_db" by (simp add: wf_accounts_def demo_db_def empty_db_def)
  then have wf: "wf_accounts d" unfolding d_def demo_login_def by (rule keeps_all_run [OF account_ops_keep(4) [OF disjI2 [OF refl]]])
  have mem: "row \<in> set (refresh_tokens d)" using toks(1) by (simp add: row_def)
  have lv: "live (r_family_id row) row" and ex: "110 \<le> r_expires_at row" using toks(2-4) by simp_all
  from revocation_race [OF wf demo_ids_roundtrip mem toks(5) lv ex refl refl refl toks(6-8) refl,
      where ?now1.0 = 110 and ?i2.0 = 2 and ?rand2.0 = "Some [2]" and ?t2.0 = 111 and t2' = 111 and ?ttl2.0 = 1000 and
        ?now2.0 = 111 and ?t3.0 = 112 and ttl = 1000 and ?now3.0 = 112 and ?t4.0 = 120 and ?now4.0 = 120]
  show ?thesis unfolding Let_def d_def [symmetric] row_def [symmetric] by (auto simp: toks(2))
qed

section \<open>A replay ends the family\<close>

text \<open>Every step keeps what the three writing statements keep.\<close>

lemma run_keeps:
  "keeps_all I m \<Longrightarrow> I d \<Longrightarrow> m \<lparr>sdb = d, snow = now, soutcomes = os\<rparr> = (res, s') \<Longrightarrow> I (sdb s')"
  unfolding keeps_all_def by (metis sess.select_convs(1) snd_conv)

lemma auth_step_keeps:
  assumes "\<And>i u f h e. stmt_keeps I (q_CreateRefreshToken i u f h e)" and "\<And>f. stmt_keeps I (q_RevokeRefreshTokenFamily f)"
    and "\<And>i. stmt_keeps I (q_RotateRefreshTokenIfUnrotated i)" and "auth_step x c st st'" and "I (fst st)"
  shows "I (fst st')"
  using assms(4,5)
proof (cases rule: auth_step.cases)
  case (login i famRand rand t uid ttl d now os res s' fs)
  have "keeps_all I (IssueRefreshToken x c i famRand rand t uid ttl)"
    unfolding IssueRefreshToken_def by (auto intro!: tx_rules assms split: option.split)
  from run_keeps [OF this _ login(3)] login(1,2) assms(5) show ?thesis by simp
next
  case (lookup tok d now os row s' fs)
  have "keeps_all I (rotateLookup c tok)" unfolding rotateLookup_def by (intro tx_rules)
  from run_keeps [OF this _ lookup(3)] lookup(1,2) assms(5) show ?thesis by simp
next
  case (mark t row d now os rotated s' fs gs)
  from run_keeps [OF rotateMark_keeps [OF assms(2,3)] _ mark(3)] mark(1,2) assms(5) show ?thesis by simp
next
  case (refuse t row d now os err s' fs gs)
  from run_keeps [OF rotateMark_keeps [OF assms(2,3)] _ refuse(3)] refuse(1,2) assms(5) show ?thesis by simp
next
  case (issue i rand t r ttl d now os res s' fs gs)
  from run_keeps [OF issueInFamily_keeps [OF assms(1)] _ issue(3)] issue(1,2) assms(5) show ?thesis by simp
next
  case (revoke f d now os res s' fs)
  from run_keeps [OF keeps_all_query [OF assms(2)] _ revoke(3)] revoke(1,2) assms(5) show ?thesis by simp
next
  case (crash d fs fl gs)
  then show ?thesis using assms(5) by simp
qed

definition dead_token :: "string \<Rightarrow> db \<Rightarrow> bool" where
  "dead_token h d \<longleftrightarrow> (\<exists>r \<in> set (refresh_tokens d). r_token_hash r = h) \<and>
     (\<forall>r \<in> set (refresh_tokens d). r_token_hash r = h \<longrightarrow> r_revoked_at r \<noteq> None)"

lemma dead_token_update:
  assumes "dead_token h d" and "\<And>r. r_token_hash (f r) = r_token_hash r"
    and "\<And>r. r_revoked_at r \<noteq> None \<Longrightarrow> r_revoked_at (f r) \<noteq> None"
  shows "dead_token h (d\<lparr>refresh_tokens := update_where sel f (refresh_tokens d)\<rparr>)"
proof -
  have m: "map r_token_hash (update_where sel f (refresh_tokens d)) = map r_token_hash (refresh_tokens d)"
    using assms(2) by (simp add: update_where_map_key)
  have "h \<in> r_token_hash ` set (refresh_tokens d)" using assms(1) by (auto simp: dead_token_def)
  then have "h \<in> r_token_hash ` set (update_where sel f (refresh_tokens d))" by (simp add: set_map_eqD [OF m])
  moreover have "r_revoked_at r \<noteq> None" if r: "r \<in> set (update_where sel f (refresh_tokens d))" "r_token_hash r = h" for r
  proof -
    obtain r0 where r0: "r0 \<in> set (refresh_tokens d)" "r = (if sel r0 then f r0 else r0)"
      using update_where_member [OF r(1)] by blast
    then have "r_token_hash r0 = h" using r(2) assms(2) by (cases "sel r0") simp_all
    with assms(1,3) r0 show ?thesis by (cases "sel r0") (simp_all add: dead_token_def)
  qed
  ultimately show ?thesis by (auto simp: dead_token_def)
qed

lemma dead_token_stmts:
  "stmt_keeps (dead_token h) (q_CreateRefreshToken i u f g e)" "stmt_keeps (dead_token h) (q_RevokeRefreshTokenFamily f)"
  "stmt_keeps (dead_token h) (q_RotateRefreshTokenIfUnrotated i)"
  by (auto simp: stmt_keeps_def q_CreateRefreshToken_def q_RevokeRefreshTokenFamily_def q_RotateRefreshTokenIfUnrotated_def Let_def
      intro!: dead_token_update) (auto simp: dead_token_def)

lemma dead_token_stays:
  assumes "rtranclp (auth_step x c) st st'" and "dead_token h (fst st)" and "wf_accounts (fst st)"
  shows "dead_token h (fst st') \<and> wf_accounts (fst st')"
  using assms
proof (induction rule: rtranclp_induct)
  case (step st1 st2)
  then show ?case
    using auth_step_keeps [OF dead_token_stmts step.hyps(2)] auth_step_keeps [OF wf_accounts_stmts(2,3,4) step.hyps(2)] by simp
qed simp

lemma dead_token_refused:
  assumes "wf_accounts d" and "dead_token (hashToken c tok) d"
  shows "RotateRefreshToken x c i rand t t' tok ttl (quiet d now) = (Inl (HttpE ErrInvalidRefreshToken 401), quiet d now)"
proof -
  obtain r where r: "r \<in> set (refresh_tokens d)" "hashToken c tok = r_token_hash r" "r_revoked_at r \<noteq> None"
    using assms(2) by (auto simp: dead_token_def)
  then show ?thesis
    unfolding RotateRefreshToken_def bind_def lookup_quiet [OF assms(1) r(1,2)]
    by (simp add: rotateMark_def raise_def newHTTPError_def)
qed

text \<open>
  C11. Replaying a refresh token that has already been rotated, on a connection that holds, is
  answered ErrRefreshReuse, and revokes every token of its family that is stored then and no token
  of another family. None of these tokens, used or not, can be rotated ever after: whatever logins,
  refreshes (those in flight included), logouts and crashes follow, it is answered
  ErrInvalidRefreshToken and nothing changes. (A token that a refresh in flight has yet to insert is
  not among them.)
\<close>

theorem reuse_revokes_family:
  assumes "wf_accounts d" and "row \<in> set (refresh_tokens d)" and "hashToken c tok = r_token_hash row"
    and "r_rotated_at row \<noteq> None" and "r_revoked_at row = None"
    and "d' = run_db (RotateRefreshToken x c i rand t t' tok ttl) now [] d"
    and "rtranclp (auth_step x c) (d', flights) (later, flights')"
  shows "run_res (RotateRefreshToken x c i rand t t' tok ttl) now [] d = Inl (HttpE ErrRefreshReuse 401) \<and>
    d' = d\<lparr>refresh_tokens := revoke_family (r_family_id row) now (refresh_tokens d)\<rparr> \<and>
    (\<forall>r \<in> set (refresh_tokens d'). r_family_id r = r_family_id row \<longrightarrow> r_revoked_at r \<noteq> None) \<and>
    filter (\<lambda>r. r_family_id r \<noteq> r_family_id row) (refresh_tokens d') =
      filter (\<lambda>r. r_family_id r \<noteq> r_family_id row) (refresh_tokens d) \<and>
    (\<forall>other \<in> set (refresh_tokens d). r_family_id other = r_family_id row \<longrightarrow>
       hashToken c tok' = r_token_hash other \<longrightarrow>
       run_res (RotateRefreshToken x c j rand' u u' tok' ttl') now' [] later = Inl (HttpE ErrInvalidRefreshToken 401) \<and>
       run_db (RotateRefreshToken x c j rand' u u' tok' ttl') now' [] later = later)"
proof -
  let ?d = "d\<lparr>refresh_tokens := revoke_family (r_family_id row) now (refresh_tokens d)\<rparr>"
  have r: "RotateRefreshToken x c i rand t t' tok ttl (quiet d now) = (Inl (HttpE ErrRefreshReuse 401), quiet ?d now)"
    using assms(4,5) unfolding RotateRefreshToken_def bind_def lookup_quiet [OF assms(1-3)]
    by (simp add: rotateMark_def revokeReused_def tx_unfold q_RevokeRefreshTokenFamily_def revoke_family_def
        newHTTPError_def)
  then have d': "d' = ?d" by (simp add: assms(6) run_db_def)
  have wf': "wf_accounts d'" using assms(1) by (simp add: d' revoke_family_wf)
  have "dead_token (r_token_hash other) d'"
    if other: "other \<in> set (refresh_tokens d)" "r_family_id other = r_family_id row" for other
  proof -
    obtain r' where r': "r' \<in> set (refresh_tokens d')" "r_token_hash r' = r_token_hash other" "r_family_id r' = r_family_id row"
      using revoke_family_row [OF other(1), of "r_family_id row" now] other(2) by (auto simp: d')
    have only: "q = r'" if "q \<in> set (refresh_tokens d')" "r_token_hash q = r_token_hash other" for q
      using wf' that r'(1,2) unfolding wf_accounts_def distinct_map inj_on_def by metis
    have "r_revoked_at r' \<noteq> None" using revoke_family_dead [of r' "r_family_id row" now "refresh_tokens d"] r'(1,3) by (simp add: d')
    with only r'(1,2) show ?thesis unfolding dead_token_def by blast
  qed
  then have dead: "dead_token (r_token_hash other) later \<and> wf_accounts later"
    if "other \<in> set (refresh_tokens d)" "r_family_id other = r_family_id row" for other
    using dead_token_stays [OF assms(7), of "r_token_hash other"] that wf' by simp
  have refused: "RotateRefreshToken x c j rand' u u' tok' ttl' (quiet later now') = (Inl (HttpE ErrInvalidRefreshToken 401), quiet later now')"
    if "other \<in> set (refresh_tokens d)" "r_family_id other = r_family_id row" "hashToken c tok' = r_token_hash other" for other
    using dead [OF that(1,2)] that(3) by (intro dead_token_refused) simp_all
  moreover have "filter (\<lambda>r. r_family_id r \<noteq> f) (revoke_family f n rows) = filter (\<lambda>r. r_family_id r \<noteq> f) rows" for f n rows
    by (induction rows) (auto simp: revoke_family_def)
  ultimately show ?thesis using r d'
    by (auto simp: run_res_def run_db_def dest: revoke_family_dead)
qed

theorem reuse_revokes_family_witness:
  "run_res (RotateRefreshToken demo_ext demo_crypto 5 (Some [1]) 70 70 ''p'' 100) 70 [] demo_sessions
     = Inl (HttpE ErrRefreshReuse 401) \<and>
   run_res (RotateRefreshToken demo_ext demo_crypto 6 (Some [2]) 80 80 ''q'' 100) 80 []
     (run_db (RotateRefreshToken demo_ext demo_crypto 5 (Some [1]) 70 70 ''p'' 100) 70 [] demo_sessions)
     = Inl (HttpE ErrInvalidRefreshToken 401)"
proof -
  have wf: "wf_accounts demo_sessions"
    by (simp add: wf_accounts_def demo_sessions_def demo_db_def empty_db_def demo_user_def demo_token_def hex_encode_def
        hex_digit_def)
  have mem: "demo_token \<in> set (refresh_tokens demo_sessions)"
    "demo_token\<lparr>r_id := 2, r_token_hash := hex_encode [113], r_rotated_at := None\<rparr> \<in> set (refresh_tokens demo_sessions)"
    by (simp_all add: demo_sessions_def)
  have h: "hashToken demo_crypto ''p'' = r_token_hash demo_token" "hashToken demo_crypto ''q'' = hex_encode [113]"
    by code_simp+
  have "r_rotated_at demo_token \<noteq> None" "r_revoked_at demo_token = None" by (simp_all add: demo_token_def)
  note reuse = reuse_revokes_family [OF wf mem(1) h(1) this refl rtranclp.rtrancl_refl, of demo_ext 5 "Some [1]" 70 70 100 70
      "''q''" 6 "Some [2]" 80 80 100 80]
  show ?thesis using reuse mem(2) h(2) by force
qed

section \<open>API keys stay revoked\<close>

text \<open>What clients do with API keys; each call has its clock and its connection.\<close>

datatype key_op = KCreate uuid "nat list option" string string | KRevoke string string
  | KAuthenticate string | KList string

definition key_call :: "extlib \<Rightarrow> cryptolib \<Rightarrow> key_op \<Rightarrow> unit dbm" where
  "key_call x c kop = (case kop of
      KCreate i rand user label \<Rightarrow> discard (CreateAPIKey x c i rand user label)
    | KRevoke i user \<Rightarrow> RevokeAPIKey x i user
    | KAuthenticate plain \<Rightarrow> discard (AuthenticateAPIKey x c plain)
    | KList user \<Rightarrow> discard (ListAPIKeys x user))"

fun key_calls :: "extlib \<Rightarrow> cryptolib \<Rightarrow> (key_op \<times> gotime \<times> outcome list) list \<Rightarrow> db \<Rightarrow> db" where
  "key_calls x c [] d = d"
| "key_calls x c ((kop, now, os) # rest) d = key_calls x c rest (run_db (key_call x c kop) now os d)"

definition revoked_hash :: "string \<Rightarrow> db \<Rightarrow> bool" where
  "revoked_hash h d \<longleftrightarrow> (\<exists>k \<in> set (api_keys d). k_key_hash k = h) \<and>
     (\<forall>k \<in> set (api_keys d). k_key_hash k = h \<longrightarrow> k_revoked_at k \<noteq> None)"

lemma revoked_hash_update:
  assumes "revoked_hash h d" and "\<And>k. k_key_hash (f k) = k_key_hash k"
    and "\<And>k. k_revoked_at k \<noteq> None \<Longrightarrow> k_revoked_at (f k) \<noteq> None"
  shows "revoked_hash h (d\<lparr>api_keys := update_where sel f (api_keys d)\<rparr>)"
proof -
  obtain k where k: "k \<in> set (api_keys d)" "k_key_hash k = h" using assms(1) by (auto simp: revoked_hash_def)
  have "(if sel k then f k else k) \<in> set (update_where sel f (api_keys d))" using k(1) by (auto simp: update_where_set)
  moreover have "k_key_hash (if sel k then f k else k) = h" using k(2) assms(2) by simp
  moreover have "k_revoked_at q \<noteq> None" if qm: "q \<in> set (update_where sel f (api_keys d))" "k_key_hash q = h" for q
  proof -
    obtain q0 where q0: "q0 \<in> set (api_keys d)" "q = (if sel q0 then f q0 else q0)"
      using update_where_member [OF qm(1)] by blast
    then have "k_key_hash q0 = h" using qm(2) assms(2) by (cases "sel q0") simp_all
    with assms(1,3) q0 show ?thesis by (cases "sel q0") (simp_all add: revoked_hash_def)
  qed
  ultimately show ?thesis by (auto simp: revoked_hash_def)
qed

lemma revoked_hash_stmts [tx_rules]:
  "stmt_keeps (revoked_hash h) (q_CreateAPIKey i u g l)" "stmt_keeps (revoked_hash h) (q_RevokeAPIKey i u)"
  "stmt_keeps (revoked_hash h) (q_TouchAPIKeyLastUsed i)"
  by (auto simp: stmt_keeps_def q_CreateAPIKey_def q_RevokeAPIKey_def q_TouchAPIKeyLastUsed_def Let_def
      intro!: revoked_hash_update) (auto simp: revoked_hash_def)

lemma key_call_keeps: "keeps_all (revoked_hash h) (key_call x c kop)"
  unfolding key_call_def discard_def CreateAPIKey_def RevokeAPIKey_def AuthenticateAPIKey_def ListAPIKeys_def
  by (auto intro!: tx_rules split: key_op.split option.split)

lemma key_calls_keep: "revoked_hash h d \<Longrightarrow> revoked_hash h (key_calls x c calls d)"
proof (induction calls arbitrary: d)
  case (Cons e calls)
  then show ?case by (cases e) (simp add: keeps_all_run [OF key_call_keeps])
qed simp

lemma RevokeAPIKey_InrD:
  assumes "wf_accounts d" and "run_res (RevokeAPIKey x kid user) now os d = Inr ()"
    and "k \<in> set (api_keys d)" and "scanUUID x kid = Some (k_id k)"
  shows "revoked_hash (k_key_hash k) (run_db (RevokeAPIKey x kid user) now os d)"
proof -
  let ?s = "\<lparr>sdb = d, snow = now, soutcomes = os\<rparr>"
  obtain uu where u: "scanUUID x user = Some uu"
    and r: "RevokeAPIKey x kid user ?s = bind (map_err (WrapE ''store: revoke api key'') (query (q_RevokeAPIKey (k_id k) uu)))
      (\<lambda>n. if n = 0 then raise not_found else ret ()) ?s"
    using assms(2,4) by (cases "scanUUID x user") (auto simp: run_res_def RevokeAPIKey_def parseMonitorIDs_def uuid_or_404_def
        pgUUID_def bind_def ret_def raise_def)
  let ?sel = "\<lambda>q. k_id q = k_id k \<and> k_user_id q = uu \<and> k_revoked_at q = None"
  have "RevokeAPIKey x kid user ?s = (Inr (), snd (RevokeAPIKey x kid user ?s))"
    using assms(2) by (simp add: run_res_def prod_eq_iff)
  from bind_InrD [OF this [unfolded r]] obtain n s' where qn: "query (q_RevokeAPIKey (k_id k) uu) ?s = (Inr n, s')"
    and "n \<noteq> 0" and s': "s' = snd (RevokeAPIKey x kid user ?s)" unfolding r
    by (auto dest!: map_err_InrD simp: raise_def ret_def split: if_splits)
  have q: "q_RevokeAPIKey (k_id k) uu now d = (Inr n, run_db (RevokeAPIKey x kid user) now os d)"
    using query_InrD [OF qn] by (simp add: run_db_def s')
  then have d': "run_db (RevokeAPIKey x kid user) now os d =
      d\<lparr>api_keys := update_where ?sel (\<lambda>q. q\<lparr>k_revoked_at := Some now\<rparr>) (api_keys d)\<rparr>"
    and "filter ?sel (api_keys d) \<noteq> []" using \<open>n \<noteq> 0\<close> by (auto simp: q_RevokeAPIKey_def Let_def)
  then obtain k' where k': "k' \<in> set (api_keys d)" "?sel k'" by (auto simp: filter_empty_conv)
  have inj: "q = k" if "q \<in> set (api_keys d)" "k_id q = k_id k \<or> k_key_hash q = k_key_hash k" for q
    using assms(1,3) that unfolding wf_accounts_def distinct_map inj_on_def by metis
  with k' have "?sel k" by blast
  then have m: "k\<lparr>k_revoked_at := Some now\<rparr> \<in> set (api_keys (run_db (RevokeAPIKey x kid user) now os d))"
    using assms(3) by (auto simp: d' update_where_set intro!: image_eqI [of _ _ k])
  have "k_revoked_at q \<noteq> None"
    if qm: "q \<in> set (api_keys (run_db (RevokeAPIKey x kid user) now os d))" "k_key_hash q = k_key_hash k" for q
  proof -
    obtain q0 where q0: "q0 \<in> set (api_keys d)" "q = (if ?sel q0 then q0\<lparr>k_revoked_at := Some now\<rparr> else q0)"
      using qm(1) update_where_member unfolding d' by fastforce
    then have "k_key_hash q0 = k_key_hash k" using qm(2) by (cases "?sel q0") simp_all
    then have "q0 = k" using inj q0(1) by blast
    with \<open>?sel k\<close> q0(2) show ?thesis by simp
  qed
  then show ?thesis unfolding revoked_hash_def by (intro conjI ballI impI bexI [OF _ m]) simp_all
qed

text \<open>
  C23. After its owner's successful revocation an API key never authenticates again, whatever
  keys are created, revoked, listed or used afterwards and whatever the connection does; on a
  working connection the answer is 401.
\<close>

theorem revoked_key_rejected:
  assumes "wf_accounts d" and "run_res (RevokeAPIKey x kid user) now os d = Inr ()"
    and "k \<in> set (api_keys d)" and "scanUUID x kid = Some (k_id k)" and "hashToken c plain = k_key_hash k"
    and "d' = key_calls x c calls (run_db (RevokeAPIKey x kid user) now os d)"
  shows "(\<forall>r. run_res (AuthenticateAPIKey x c plain) now' os' d' \<noteq> Inr r) \<and>
    run_res (AuthenticateAPIKey x c plain) now' [] d' = Inl invalid_api_key"
proof -
  have "revoked_hash (k_key_hash k) d'"
    unfolding assms(6) by (intro key_calls_keep RevokeAPIKey_InrD assms)
  then have f: "filter (\<lambda>q. k_key_hash q = k_key_hash k \<and> k_revoked_at q = None) (api_keys d') = []"
    by (auto simp: revoked_hash_def filter_empty_conv)
  then have "q_GetAPIKeyByHash (hashToken c plain) n d' = (Inl NoRows, d')" for n
    by (simp add: q_GetAPIKeyByHash_def assms(5) first_row_def)
  then show ?thesis
    by (auto simp: run_res_def AuthenticateAPIKey_def bind_def map_err_def query_def next_outcome_def
        split: outcome.splits list.splits)
qed

definition demo_key :: api_key_row where
  "demo_key = \<lparr>k_id = 3, k_user_id = 1, k_key_hash = hex_encode [112], k_label = ''ci'', k_last_used_at = None,
     k_revoked_at = None, k_created_at = 10\<rparr>"

theorem revoked_key_rejected_witness:
  "run_res (AuthenticateAPIKey demo_ids demo_crypto ''p'') 40 []
     (key_calls demo_ids demo_crypto [(KCreate 4 (Some [1]) ''x'' ''new'', 30, []), (KList ''x'', 31, [FailsBefore])]
        (run_db (RevokeAPIKey demo_ids ''xxx'' ''x'') 20 [] (demo_db\<lparr>api_keys := [demo_key]\<rparr>)))
   = Inl invalid_api_key"
proof (rule revoked_key_rejected [THEN conjunct2])
  show "wf_accounts (demo_db\<lparr>api_keys := [demo_key]\<rparr>)"
    by (simp add: wf_accounts_def demo_db_def empty_db_def demo_user_def demo_key_def)
  show "demo_key \<in> set (api_keys (demo_db\<lparr>api_keys := [demo_key]\<rparr>))" by simp
  show "run_res (RevokeAPIKey demo_ids ''xxx'' ''x'') 20 [] (demo_db\<lparr>api_keys := [demo_key]\<rparr>) = Inr ()"
    "scanUUID demo_ids ''xxx'' = Some (k_id demo_key)" "hashToken demo_crypto ''p'' = k_key_hash demo_key"
    by code_simp+
qed (rule refl)

end
