(* ===== verification/Alerter.thy ===== *)
theory Alerter
  imports Monitor_Store
begin

text \<open>
  Delivering the outbox: src/backend/store/alerter.go, the dispatch pass of
  src/backend/worker/alerter/alerter.go and the error classification of
  src/backend/alert/channel.go. The mail channel is an argument that answers each message;
  \<open>dispatch\<close> returns the messages it handed to the channel, so that what is sent is part of
  the model's result.
\<close>

section \<open>The store side\<close>

record AlertJob =
  aj_ID :: int
  aj_MonitorID :: string
  aj_EventID :: int
  aj_Recipient :: string
  aj_MonitorName :: string
  aj_MonitorSlug :: string
  aj_MonitorState :: string
  aj_AlertsMuted :: bool
  aj_EventType :: string
  aj_IsReminder :: bool
  aj_EventAt :: gotime
  aj_TLSExpiresAt :: "gotime option"
  aj_Attempts :: int

text \<open>Documents without a tls_expires_at member decode to the zero time.\<close>

definition decodeTLSExpiresAt :: "event_meta \<Rightarrow> gotime option" where
  "decodeTLSExpiresAt meta = (case meta of MetaTLS t \<Rightarrow> if time_IsZero t then None else Some t | _ \<Rightarrow> None)"

definition alert_job :: "extlib \<Rightarrow> ClaimDueAlertsRow \<Rightarrow> AlertJob" where
  "alert_job x r =
    \<lparr>aj_ID = ca_ID r, aj_MonitorID = uuidString x (ca_MonitorID r), aj_EventID = ca_EventID r,
     aj_Recipient = ca_Recipient r, aj_MonitorName = ca_MonitorName r,
     aj_MonitorSlug = ca_MonitorSlug r, aj_MonitorState = ca_MonitorState r,
     aj_AlertsMuted = ca_AlertsMuted r, aj_EventType = ca_EventType r,
     aj_IsReminder = ca_IsReminder r, aj_EventAt = ca_EventCreatedAt r,
     aj_TLSExpiresAt = decodeTLSExpiresAt (ca_EventMeta r), aj_Attempts = ca_Attempts r\<rparr>"

definition ClaimDueAlerts :: "extlib \<Rightarrow> (int \<Rightarrow> bool) \<Rightarrow> gotime \<Rightarrow> int \<Rightarrow> AlertJob list dbm" where
  "ClaimDueAlerts x locked t limit = withTx
     (bind (map_err (WrapE ''store: claim due alerts'') (query (q_ClaimDueAlerts locked t limit)))
       (\<lambda>rows. ret (map (alert_job x) rows)))"

definition MarkAlertSent :: "int \<Rightarrow> unit dbm" where
  "MarkAlertSent i = map_err (WrapE ''store: mark alert sent'') (query (q_MarkAlertSent i))"

definition SuppressAlert :: "int \<Rightarrow> unit dbm" where
  "SuppressAlert i = map_err (WrapE ''store: suppress alert'') (query (q_SuppressAlert i))"

definition RescheduleAlert :: "int \<Rightarrow> gotime \<Rightarrow> unit dbm" where
  "RescheduleAlert i nextAttempt =
     map_err (WrapE ''store: reschedule alert'') (query (q_RescheduleAlert i nextAttempt))"

definition failBody :: "int \<Rightarrow> uuid \<Rightarrow> string \<Rightarrow> unit dbm" where
  "failBody i mid reason =
     bind (map_err (WrapE ''store: mark alert failed'') (query (q_MarkAlertFailed i))) (\<lambda>_.
     let msg = (if reason \<noteq> '''' then ''Alert delivery failed: '' @ reason else ''Alert delivery failed'') in
     bind (recordEvent mid ''alert_failed'' msg) (\<lambda>_. ret ()))"

definition FailAlert :: "extlib \<Rightarrow> int \<Rightarrow> string \<Rightarrow> string \<Rightarrow> unit dbm" where
  "FailAlert x i monitorID reason =
     bind (lift_err (pgUUID x monitorID)) (\<lambda>mid. withTx (failBody i mid reason))"

definition ResolveDowntime :: "extlib \<Rightarrow> string \<Rightarrow> gotime \<Rightarrow> duration dbm" where
  "ResolveDowntime x monitorID recoveredAt =
     bind (lift_err (pgUUID x monitorID)) (\<lambda>mid.
     catch (bind (query (q_LatestDownEventBefore mid recoveredAt))
             (\<lambda>ev. ret (max (time_Sub recoveredAt (e_created_at ev)) 0)))
       (\<lambda>err. if is_no_rows err then ret 0 else raise (WrapE ''store: latest down event'' err)))"

definition EnqueueDownReminders :: "gotime \<Rightarrow> nat dbm" where
  "EnqueueDownReminders t = withTx
     (bind (map_err (WrapE ''store: enqueue down reminders'') (query (q_EnqueueDownReminders t)))
       (\<lambda>rows. ret (length rows)))"

section \<open>The channel\<close>

text \<open>What a channel answers: nil is None; errors may be wrapped.\<close>

datatype senderr = SendError bool string | ErrNotConfigured | SendOther string | SendWrap string senderr

fun IsRetryable :: "senderr \<Rightarrow> bool" where
  "IsRetryable (SendError retryable op) = retryable"
| "IsRetryable (SendWrap msg e) = IsRetryable e"
| "IsRetryable _ = False"

datatype alert_kind = KindDown | KindUp | KindTLSExpiry | KindReminder | KindTest

record Notification =
  no_Kind :: alert_kind
  no_MonitorName :: string
  no_MonitorSlug :: string
  no_Reason :: string
  no_Downtime :: duration
  no_TLSExpiresAt :: gotime
  no_At :: gotime
  no_DashboardURL :: string

type_synonym channel = "Notification \<Rightarrow> string \<Rightarrow> senderr option"

section \<open>The worker side\<close>

definition alerter_claimLimit :: int where
  "alerter_claimLimit = 100"

definition maxAttempts :: int where
  "maxAttempts = 3"

definition baseBackoff :: duration where
  "baseBackoff = Minute"

definition backoffMult :: int where
  "backoffMult = 5"

fun backoff_loop :: "nat \<Rightarrow> duration \<Rightarrow> duration" where
  "backoff_loop 0 d = d"
| "backoff_loop (Suc n) d = backoff_loop n (wrap64 (d * backoffMult))"

definition backoff :: "int \<Rightarrow> duration" where
  "backoff attempts = backoff_loop (nat attempts) baseBackoff"

definition dashboardURL :: "string \<Rightarrow> string \<Rightarrow> string" where
  "dashboardURL baseURL slug = (if baseURL = '''' \<or> slug = '''' then '''' else baseURL @ ''/monitors/'' @ slug)"

definition render :: "extlib \<Rightarrow> string \<Rightarrow> gotime \<Rightarrow> AlertJob \<Rightarrow> Notification dbm" where
  "render x baseURL t job =
    (let n = \<lparr>no_Kind = KindDown, no_MonitorName = aj_MonitorName job, no_MonitorSlug = aj_MonitorSlug job,
              no_Reason = '''', no_Downtime = 0, no_TLSExpiresAt = 0, no_At = aj_EventAt job,
              no_DashboardURL = dashboardURL baseURL (aj_MonitorSlug job)\<rparr> in
     if aj_IsReminder job then
       bind (map_err (WrapE ''resolve downtime'') (ResolveDowntime x (aj_MonitorID job) t)) (\<lambda>dt.
       ret (n\<lparr>no_Kind := KindReminder, no_Downtime := dt\<rparr>))
     else if aj_EventType job = ''up'' then
       bind (map_err (WrapE ''resolve downtime'') (ResolveDowntime x (aj_MonitorID job) (aj_EventAt job))) (\<lambda>dt.
       ret (n\<lparr>no_Kind := KindUp, no_Downtime := dt\<rparr>))
     else if aj_EventType job = ''tls_expiry'' then
       ret (n\<lparr>no_Kind := KindTLSExpiry,
              no_TLSExpiresAt := (case aj_TLSExpiresAt job of Some e \<Rightarrow> e | None \<Rightarrow> 0)\<rparr>)
     else ret n)"

text \<open>A store error inside dispatch is logged and dropped.\<close>

definition logged :: "unit dbm \<Rightarrow> unit dbm" where
  "logged m = catch m (\<lambda>_. ret ())"

definition fail :: "extlib \<Rightarrow> AlertJob \<Rightarrow> string \<Rightarrow> unit dbm" where
  "fail x job reason = logged (FailAlert x (aj_ID job) (aj_MonitorID job) reason)"

text \<open>
  \<open>dispatch\<close>: \<open>t\<close> is the clock read while rendering, \<open>t'\<close> the one read to reschedule. The
  result lists the messages handed to the channel (at most one).
\<close>

definition dispatch ::
  "extlib \<Rightarrow> channel option \<Rightarrow> string \<Rightarrow> gotime \<Rightarrow> gotime \<Rightarrow> AlertJob \<Rightarrow> (Notification \<times> string) list dbm"
where
  "dispatch x ch baseURL t t' job =
    (if aj_AlertsMuted job then bind (logged (SuppressAlert (aj_ID job))) (\<lambda>_. ret [])
     else case ch of
       None \<Rightarrow> bind (fail x job ''email delivery is not configured'') (\<lambda>_. ret [])
     | Some send \<Rightarrow>
         bind (catch (bind (render x baseURL t job) (\<lambda>n. ret (Some n))) (\<lambda>_. ret None)) (\<lambda>rendered.
         case rendered of
           None \<Rightarrow> bind (fail x job ''could not build notification'') (\<lambda>_. ret [])
         | Some n \<Rightarrow>
             (case send n (aj_Recipient job) of
                None \<Rightarrow> bind (logged (MarkAlertSent (aj_ID job))) (\<lambda>_. ret [(n, aj_Recipient job)])
              | Some sendErr \<Rightarrow>
                  (let nextAttempt = aj_Attempts job + 1 in
                   if IsRetryable sendErr \<and> nextAttempt < maxAttempts
                   then bind (logged (RescheduleAlert (aj_ID job) (t' + backoff (aj_Attempts job))))
                          (\<lambda>_. ret [(n, aj_Recipient job)])
                   else bind (fail x job ''mail server rejected the message'')
                          (\<lambda>_. ret [(n, aj_Recipient job)])))))"

text \<open>The loop over the claimed jobs stops when the context is done before job k.\<close>

fun dispatchAll ::
  "extlib \<Rightarrow> channel option \<Rightarrow> string \<Rightarrow> (nat \<Rightarrow> gotime) \<Rightarrow> (nat \<Rightarrow> bool) \<Rightarrow> nat \<Rightarrow> AlertJob list \<Rightarrow>
     (Notification \<times> string) list dbm" where
  "dispatchAll x ch baseURL clock cancelled k [] = ret []"
| "dispatchAll x ch baseURL clock cancelled k (job # jobs) =
     (if cancelled k then raise (MsgE ''context canceled'')
      else bind (dispatch x ch baseURL (clock (2 * k)) (clock (2 * k + 1)) job) (\<lambda>sent.
           bind (dispatchAll x ch baseURL clock cancelled (Suc k) jobs) (\<lambda>rest. ret (sent @ rest))))"

definition alerter_tick ::
  "extlib \<Rightarrow> channel option \<Rightarrow> string \<Rightarrow> (int \<Rightarrow> bool) \<Rightarrow> gotime \<Rightarrow> gotime \<Rightarrow> (nat \<Rightarrow> gotime) \<Rightarrow>
     (nat \<Rightarrow> bool) \<Rightarrow> (Notification \<times> string) list dbm" where
  "alerter_tick x ch baseURL locked t1 t2 clock cancelled =
     bind (catch (bind (EnqueueDownReminders t1) (\<lambda>_. ret ())) (\<lambda>_. ret ())) (\<lambda>_.
     bind (ClaimDueAlerts x locked t2 alerter_claimLimit) (dispatchAll x ch baseURL clock cancelled 0))"

section \<open>The schema is kept\<close>

lemma alerter_store_wf [tx_rules]:
  "keeps_all wf_db (ClaimDueAlerts x lk t n)" "keeps_all wf_db (MarkAlertSent i)"
  "keeps_all wf_db (SuppressAlert i)" "keeps_all wf_db (RescheduleAlert i t)"
  "keeps_all wf_db (FailAlert x i mid reason)" "keeps_all wf_db (EnqueueDownReminders t)"
  "keeps_all wf_db (ResolveDowntime x mids t)"
  unfolding ClaimDueAlerts_def MarkAlertSent_def SuppressAlert_def RescheduleAlert_def FailAlert_def
    EnqueueDownReminders_def ResolveDowntime_def failBody_def Let_def
  by (auto intro!: tx_rules keeps_all_withTx)

lemma dispatch_wf [tx_rules]: "keeps_all wf_db (dispatch x ch b t t' job)"
  unfolding dispatch_def fail_def logged_def render_def Let_def
  by (auto intro!: tx_rules split: option.split)

lemma dispatchAll_wf [tx_rules]: "keeps_all wf_db (dispatchAll x ch b clock c k jobs)"
  by (induction jobs arbitrary: k) (auto intro!: tx_rules)

lemma alerter_tick_wf [tx_rules]: "keeps_all wf_db (alerter_tick x ch b lk t1 t2 clock c)"
  unfolding alerter_tick_def by (intro tx_rules)

section \<open>What a dispatch does\<close>

definition delivered :: "senderr option \<Rightarrow> gotime \<Rightarrow> gotime \<Rightarrow> alert_row \<Rightarrow> alert_row" where
  "delivered answer t' now a = (case answer of
      None \<Rightarrow> a\<lparr>a_status := ''sent'', a_sent_at := Some now, a_attempts := a_attempts a + 1\<rparr>
    | Some err \<Rightarrow> if IsRetryable err \<and> a_attempts a + 1 < maxAttempts
        then a\<lparr>a_attempts := a_attempts a + 1, a_next_attempt_at := t' + backoff (a_attempts a)\<rparr>
        else a\<lparr>a_status := ''failed'', a_attempts := a_attempts a + 1\<rparr>)"

definition gives_up :: "senderr option \<Rightarrow> alert_row \<Rightarrow> bool" where
  "gives_up answer a = (case answer of None \<Rightarrow> False
     | Some err \<Rightarrow> \<not> (IsRetryable err \<and> a_attempts a + 1 < maxAttempts))"

lemma join_alert_SomeD:
  assumes "join_alert d a = Some r"
  shows "ca_ID r = a_id a \<and> ca_MonitorID r = a_monitor_id a \<and> ca_Attempts r = a_attempts a \<and>
    (\<exists>m \<in> set (monitors d). m_id m = a_monitor_id a \<and> ca_AlertsMuted r = m_alerts_muted m)"
  using assms the_row_SomeD [of _ "monitors d"]
  by (auto simp: join_alert_def split: option.splits) blast

lemma update_alerts_quiet:
  assumes "q now = update_alerts sel f now"
    and "\<And>a. a \<in> set (alerts d) \<Longrightarrow> sel a \<Longrightarrow> int32_range (a_attempts (f a))"
  shows "query q (quiet d now) = (Inr (), quiet (d\<lparr>alerts := update_where sel f (alerts d)\<rparr>) now)"
  using assms by (auto simp: tx_unfold update_alerts_def list_all_iff)

text \<open>The notification of a claimed row: the monitor it names and what it announces.\<close>

definition announces :: "ClaimDueAlertsRow \<Rightarrow> Notification \<Rightarrow> bool" where
  "announces r n \<longleftrightarrow> no_MonitorName n = ca_MonitorName r \<and> no_MonitorSlug n = ca_MonitorSlug r \<and>
     no_Kind n = (if ca_IsReminder r then KindReminder else if ca_EventType r = ''up'' then KindUp
       else if ca_EventType r = ''tls_expiry'' then KindTLSExpiry else KindDown)"

lemma render_quiet:
  assumes "scanUUID x (aj_MonitorID (alert_job x r)) = Some mid"
  shows "\<exists>n. render x b t (alert_job x r) (quiet d now) = (Inr n, quiet d now) \<and> announces r n"
proof -
  have r: "\<exists>dt. ResolveDowntime x (aj_MonitorID (alert_job x r)) t0 (quiet d now) = (Inr dt, quiet d now)" for t0
    by (auto simp: ResolveDowntime_def lift_err_def pgUUID_def assms tx_unfold q_LatestDownEventBefore_def
        split: option.split)
  obtain dt1 dt2 where dt: "ResolveDowntime x (aj_MonitorID (alert_job x r)) t (quiet d now) = (Inr dt1, quiet d now)"
    "ResolveDowntime x (aj_MonitorID (alert_job x r)) (aj_EventAt (alert_job x r)) (quiet d now) = (Inr dt2, quiet d now)"
    using r by blast
  have j: "aj_IsReminder (alert_job x r) = ca_IsReminder r" "aj_EventType (alert_job x r) = ca_EventType r"
    "aj_MonitorName (alert_job x r) = ca_MonitorName r" "aj_MonitorSlug (alert_job x r) = ca_MonitorSlug r"
    by (simp_all add: alert_job_def)
  from dt show ?thesis by (simp add: render_def Let_def bind_def map_err_def ret_def announces_def j)
qed

lemma wf_alert_unique:
  "wf_db d \<Longrightarrow> a \<in> set (alerts d) \<Longrightarrow> a' \<in> set (alerts d) \<Longrightarrow> a_id a' = a_id a \<Longrightarrow> a' = a"
  by (simp add: wf_db_def wf_alerts_def) (metis distinct_map inj_on_def)

lemma wf_alert_attempts: "wf_db d \<Longrightarrow> a \<in> set (alerts d) \<Longrightarrow> int32_range (a_attempts a)"
  by (simp add: wf_db_def wf_alerts_def)

lemma mark_quiet:
  assumes wf: "wf_db d" and a: "a \<in> set (alerts d)" and k: "a_attempts a < max_int32"
  shows "MarkAlertSent (a_id a) (quiet d now) = (Inr (), quiet (d\<lparr>alerts := update_where (\<lambda>r. a_id r = a_id a)
      (delivered None t' now) (alerts d)\<rparr>) now)"
    and "SuppressAlert (a_id a) (quiet d now) = (Inr (), quiet (d\<lparr>alerts := update_where (\<lambda>r. a_id r = a_id a)
      (\<lambda>r. r\<lparr>a_status := ''sent''\<rparr>) (alerts d)\<rparr>) now)"
    and "query (q_RescheduleAlert (a_id a) tt) (quiet d now) = (Inr (), quiet (d\<lparr>alerts :=
      update_where (\<lambda>r. a_id r = a_id a) (\<lambda>r. r\<lparr>a_attempts := a_attempts r + 1, a_next_attempt_at := tt\<rparr>)
       (alerts d)\<rparr>) now)"
    and "query (q_MarkAlertFailed (a_id a)) (quiet d now) = (Inr (), quiet (d\<lparr>alerts :=
      update_where (\<lambda>r. a_id r = a_id a) (\<lambda>r. r\<lparr>a_status := ''failed'', a_attempts := a_attempts r + 1\<rparr>)
       (alerts d)\<rparr>) now)"
proof -
  have r: "int32_range (a_attempts r + 1) \<and> int32_range (a_attempts r)"
    if "r \<in> set (alerts d)" "a_id r = a_id a" for r
    using wf_alert_unique [OF wf a that] wf_alert_attempts [OF wf a] k
    by (simp add: int32_range_def max_int32_def)
  show "MarkAlertSent (a_id a) (quiet d now) = (Inr (), quiet (d\<lparr>alerts := update_where (\<lambda>r. a_id r = a_id a)
      (delivered None t' now) (alerts d)\<rparr>) now)"
    unfolding MarkAlertSent_def map_err_def delivered_def [abs_def] option.case
    by (subst update_alerts_quiet [OF q_MarkAlertSent_def]) (use r in auto)
  show "SuppressAlert (a_id a) (quiet d now) = (Inr (), quiet (d\<lparr>alerts := update_where (\<lambda>r. a_id r = a_id a)
      (\<lambda>r. r\<lparr>a_status := ''sent''\<rparr>) (alerts d)\<rparr>) now)"
    unfolding SuppressAlert_def map_err_def
    by (subst update_alerts_quiet [OF fun_cong [OF q_SuppressAlert_def]]) (use r in auto)
  show "query (q_RescheduleAlert (a_id a) tt) (quiet d now) = (Inr (), quiet (d\<lparr>alerts :=
      update_where (\<lambda>r. a_id r = a_id a) (\<lambda>r. r\<lparr>a_attempts := a_attempts r + 1, a_next_attempt_at := tt\<rparr>)
       (alerts d)\<rparr>) now)"
    by (subst update_alerts_quiet [OF fun_cong [OF q_RescheduleAlert_def]]) (use r in auto)
  show "query (q_MarkAlertFailed (a_id a)) (quiet d now) = (Inr (), quiet (d\<lparr>alerts :=
      update_where (\<lambda>r. a_id r = a_id a) (\<lambda>r. r\<lparr>a_status := ''failed'', a_attempts := a_attempts r + 1\<rparr>)
       (alerts d)\<rparr>) now)"
    by (subst update_alerts_quiet [OF fun_cong [OF q_MarkAlertFailed_def]]) (use r in auto)
qed

lemma FailAlert_quiet:
  assumes "wf_db d" and "a \<in> set (alerts d)" and "a_attempts a < max_int32"
    and "scanUUID x mid = Some (a_monitor_id a)"
  shows "FailAlert x (a_id a) mid reason (quiet d now) =
    (Inr (), quiet (with_event (a_monitor_id a) ''alert_failed''
       (if reason \<noteq> '''' then ''Alert delivery failed: '' @ reason else ''Alert delivery failed'') MetaEmpty now
       (d\<lparr>alerts := update_where (\<lambda>r. a_id r = a_id a)
          (\<lambda>r. r\<lparr>a_status := ''failed'', a_attempts := a_attempts r + 1\<rparr>) (alerts d)\<rparr>)) now)"
proof -
  have "has_monitor d' (a_monitor_id a)" if "monitors d' = monitors d" for d'
    using assms(1,2) that by (auto simp: wf_db_def wf_alerts_def has_monitor_def)
  then show ?thesis
    by (simp add: FailAlert_def lift_err_def pgUUID_def assms(4) bind_def ret_def withTx_unfold failBody_def
        map_err_def mark_quiet(4) [OF assms(1-3)] Let_def recordEvent_def recordEventMeta_quiet)
qed

lemma update_alert_row_cong:
  assumes "wf_db d" and "a \<in> set (alerts d)" and "f a = g a"
  shows "update_where (\<lambda>r. a_id r = a_id a) f (alerts d) = update_where (\<lambda>r. a_id r = a_id a) g (alerts d)"
  using assms wf_alert_unique [OF assms(1,2)] by (intro update_where_cong) metis

lemma dispatch_quiet:
  assumes "wf_db d" and "a \<in> set (alerts d)" and "a_attempts a < max_int32" and "join_alert d a = Some r"
    and "scanUUID x (uuidString x (a_monitor_id a)) = Some (a_monitor_id a)"
  shows "\<exists>sent d'. dispatch x (Some send) b t t' (alert_job x r) (quiet d now) = (Inr sent, quiet d' now) \<and>
    (if ca_AlertsMuted r
     then sent = [] \<and> events d' = events d \<and> alerts d' = update_where (\<lambda>q. a_id q = a_id a)
            (\<lambda>q. q\<lparr>a_status := ''sent''\<rparr>) (alerts d)
     else \<exists>n. sent = [(n, ca_Recipient r)] \<and> announces r n \<and>
       alerts d' = update_where (\<lambda>q. a_id q = a_id a) (delivered (send n (ca_Recipient r)) t' now) (alerts d) \<and>
       map e_type (events d') = map e_type (events d) @
         (if gives_up (send n (ca_Recipient r)) a then [''alert_failed''] else []))"
proof (cases "ca_AlertsMuted r")
  case True
  have j: "aj_ID (alert_job x r) = a_id a" "aj_AlertsMuted (alert_job x r) = ca_AlertsMuted r"
    using join_alert_SomeD [OF assms(4)] by (simp_all add: alert_job_def)
  show ?thesis
    by (simp add: dispatch_def j True bind_def logged_def catch_def ret_def mark_quiet(2) [OF assms(1-3)])
next
  case False
  have j: "aj_ID (alert_job x r) = a_id a" "aj_Attempts (alert_job x r) = a_attempts a"
    "aj_MonitorID (alert_job x r) = uuidString x (a_monitor_id a)" "aj_Recipient (alert_job x r) = ca_Recipient r"
    "aj_AlertsMuted (alert_job x r) = ca_AlertsMuted r"
    using join_alert_SomeD [OF assms(4)] by (simp_all add: alert_job_def)
  have mid: "scanUUID x (aj_MonitorID (alert_job x r)) = Some (a_monitor_id a)" using assms(5) j by simp
  obtain n where n: "render x b t (alert_job x r) (quiet d now) = (Inr n, quiet d now)" and an: "announces r n"
    using render_quiet [OF mid] by blast
  note cong = update_alert_row_cong [OF assms(1,2)]
  show ?thesis
  proof (cases "send n (ca_Recipient r)")
    case None
    then show ?thesis using False an
      by (simp add: dispatch_def j bind_def logged_def catch_def ret_def n gives_up_def
          mark_quiet(1) [OF assms(1-3), where t' = t'])
  next
    case (Some err)
    show ?thesis
    proof (cases "IsRetryable err \<and> a_attempts a + 1 < maxAttempts")
      case True
      then have "update_where (\<lambda>q. a_id q = a_id a) (\<lambda>q. q\<lparr>a_attempts := a_attempts q + 1,
            a_next_attempt_at := t' + backoff (a_attempts a)\<rparr>) (alerts d) =
          update_where (\<lambda>q. a_id q = a_id a) (delivered (Some err) t' now) (alerts d)"
        by (intro cong) (simp add: delivered_def)
      with True False Some an show ?thesis
        by (simp add: dispatch_def j bind_def logged_def catch_def ret_def n gives_up_def Let_def
            RescheduleAlert_def map_err_def mark_quiet(3) [OF assms(1-3)])
    next
      case giving: False
      then have "update_where (\<lambda>q. a_id q = a_id a) (\<lambda>q. q\<lparr>a_status := ''failed'',
            a_attempts := a_attempts q + 1\<rparr>) (alerts d) =
          update_where (\<lambda>q. a_id q = a_id a) (delivered (Some err) t' now) (alerts d)"
        by (intro cong) (auto simp: delivered_def)
      with giving False Some an show ?thesis
        by (auto simp: dispatch_def j bind_def logged_def catch_def ret_def n gives_up_def Let_def fail_def
            FailAlert_quiet [OF assms(1-3,5)] with_event_def bump_defs)
    qed
  qed
qed

lemma dispatch_rows:
  assumes "wf_db d" and "a \<in> set (alerts d)" and "a_attempts a < max_int32" and "join_alert d a = Some r"
    and "scanUUID x (uuidString x (a_monitor_id a)) = Some (a_monitor_id a)"
  shows "\<exists>sent d' f. dispatch x (Some send) b t t' (alert_job x r) (quiet d now) = (Inr sent, quiet d' now) \<and>
    length sent \<le> 1 \<and> alerts d' = update_where (\<lambda>q. a_id q = a_id a) f (alerts d) \<and>
    (f = (\<lambda>q. q\<lparr>a_status := ''sent''\<rparr>) \<or> (\<exists>ans. f = delivered ans t' now))"
proof -
  obtain sent d' where run: "dispatch x (Some send) b t t' (alert_job x r) (quiet d now) = (Inr sent, quiet d' now)"
    and out: "if ca_AlertsMuted r
     then sent = [] \<and> events d' = events d \<and> alerts d' = update_where (\<lambda>q. a_id q = a_id a)
            (\<lambda>q. q\<lparr>a_status := ''sent''\<rparr>) (alerts d)
     else \<exists>n. sent = [(n, ca_Recipient r)] \<and> announces r n \<and>
       alerts d' = update_where (\<lambda>q. a_id q = a_id a) (delivered (send n (ca_Recipient r)) t' now) (alerts d) \<and>
       map e_type (events d') = map e_type (events d) @
         (if gives_up (send n (ca_Recipient r)) a then [''alert_failed''] else [])"
    using dispatch_quiet [OF assms, of send b t t' now] by blast
  show ?thesis
  proof (cases "ca_AlertsMuted r")
    case True
    with run out show ?thesis by (intro exI [of _ sent] exI [of _ d'] exI conjI) auto
  next
    case False
    with out obtain n where "sent = [(n, ca_Recipient r)]"
      "alerts d' = update_where (\<lambda>q. a_id q = a_id a) (delivered (send n (ca_Recipient r)) t' now) (alerts d)"
      by auto
    with run show ?thesis by (intro exI [of _ sent] exI [of _ d'] exI conjI) auto
  qed
qed

text \<open>
  C8. Dispatching a claimed alert, when the connection holds: a muted monitor's alert is never
  handed to the channel and leaves the outbox with sent_at NULL; otherwise exactly one message
  goes to the monitor's owner, naming the monitor and the kind of event, and its outbox row becomes sent when the channel accepts it,
  stays pending with one more attempt and a later attempt time when the failure is retryable
  and the attempt budget of three is not used up, and is failed together with an alert_failed
  event in every other case. No other outbox row changes.
\<close>

theorem dispatch_outcome:
  assumes "wf_db d" and "a \<in> set (alerts d)" and "a_attempts a < max_int32" and "join_alert d a = Some r"
    and "scanUUID x (uuidString x (a_monitor_id a)) = Some (a_monitor_id a)"
  shows "\<exists>sent d'. dispatch x (Some send) b t t' (alert_job x r) (quiet d now) = (Inr sent, quiet d' now) \<and>
    (if ca_AlertsMuted r
     then sent = [] \<and> events d' = events d \<and> alerts d' = update_where (\<lambda>q. a_id q = a_id a)
            (\<lambda>q. q\<lparr>a_status := ''sent''\<rparr>) (alerts d)
     else \<exists>n. sent = [(n, ca_Recipient r)] \<and> announces r n \<and>
       alerts d' = update_where (\<lambda>q. a_id q = a_id a) (delivered (send n (ca_Recipient r)) t' now) (alerts d) \<and>
       map e_type (events d') = map e_type (events d) @
         (if gives_up (send n (ca_Recipient r)) a then [''alert_failed''] else []))"
  using assms by (rule dispatch_quiet)

definition demo_event :: event_row where
  "demo_event = \<lparr>e_id = 1, e_monitor_id = 7, e_type = ''down'', e_message = ''m'', e_meta = MetaEmpty, e_created_at = 50\<rparr>"

definition demo_alert :: alert_row where
  "demo_alert = new_alert 1 7 1 ''default'' False 50"

definition demo_outbox :: db where
  "demo_outbox = demo_db\<lparr>monitors := [demo_monitor\<lparr>m_state := ''down'', m_next_deadline := None\<rparr>],
     events := [demo_event], alerts := [demo_alert],
     seqs := \<lparr>seq_checkins = 1, seq_probe_results = 1, seq_events = 2, seq_alerts = 2\<rparr>\<rparr>"

definition demo_busy :: channel where
  "demo_busy = (\<lambda>_ _. Some (SendError True ''dial''))"

lemma demo_outbox_wf: "wf_db demo_outbox"
  by (simp add: wf_db_def wf_table_defs demo_outbox_def demo_db_def empty_db_def demo_user_def
      demo_monitor_def demo_event_def demo_alert_def new_alert_def monitor_checks_def int32_range_def)

lemma demo_ext_roundtrip:
  assumes "int64_range (int u)" shows "scanUUID demo_ext (uuidString demo_ext u) = Some u"
  using ParseInt64_show_int [OF assms] by (simp add: demo_ext_def)

theorem dispatch_outcome_witness:
  "\<exists>sent d'. run_res (dispatch demo_ext (Some demo_busy) '''' 60 60
        (alert_job demo_ext (the (join_alert demo_outbox demo_alert)))) 70 [] demo_outbox = Inr sent \<and>
     length sent = 1 \<and> d' = run_db (dispatch demo_ext (Some demo_busy) '''' 60 60
        (alert_job demo_ext (the (join_alert demo_outbox demo_alert)))) 70 [] demo_outbox \<and>
     map a_status (alerts d') = [''pending''] \<and> map a_attempts (alerts d') = [1]"
proof -
  obtain r where r: "join_alert demo_outbox demo_alert = Some r" "\<not> ca_AlertsMuted r"
    by (simp add: join_alert_def demo_outbox_def demo_db_def demo_user_def demo_monitor_def demo_event_def
        demo_alert_def new_alert_def)
  have a: "demo_alert \<in> set (alerts demo_outbox)" "a_attempts demo_alert < max_int32" "a_monitor_id demo_alert = 7"
    by (simp_all add: demo_outbox_def demo_alert_def new_alert_def max_int32_def)
  have u: "scanUUID demo_ext (uuidString demo_ext (a_monitor_id demo_alert)) = Some (a_monitor_id demo_alert)"
    by (rule demo_ext_roundtrip) (simp add: a(3) int64_range_def)
  obtain sent d' n where run: "dispatch demo_ext (Some demo_busy) '''' 60 60 (alert_job demo_ext r) (quiet demo_outbox 70) =
      (Inr sent, quiet d' 70)" and sent: "sent = [(n, ca_Recipient r)]"
    and al: "alerts d' = update_where (\<lambda>q. a_id q = a_id demo_alert)
        (delivered (demo_busy n (ca_Recipient r)) 60 70) (alerts demo_outbox)"
    using dispatch_outcome [OF demo_outbox_wf a(1,2) r(1) u, of demo_busy "''''" 60 60 70] r(2) by auto
  have "alerts demo_outbox = [demo_alert]" by (simp add: demo_outbox_def)
  then have "alerts d' = [delivered (Some (SendError True ''dial'')) 60 70 demo_alert]"
    by (simp add: al demo_busy_def)
  then have "map a_status (alerts d') = [''pending''] \<and> map a_attempts (alerts d') = [1]"
    by (simp add: delivered_def maxAttempts_def demo_alert_def new_alert_def)
  with run sent r(1) show ?thesis by (simp add: run_res_def run_db_def)
qed

section \<open>Retries\<close>

text \<open>
  Retries are scheduled one minute and then five minutes after a failed attempt; the third
  failure is terminal, so the 25-minute step of the backoff sequence is never reached.
\<close>

lemma retry_delays:
  assumes "wf_db d" and "a \<in> set (alerts d)" and "a_attempts a < max_int32" and "join_alert d a = Some r"
    and "scanUUID x (uuidString x (a_monitor_id a)) = Some (a_monitor_id a)" and "0 \<le> a_attempts a"
    and "q \<in> set (alerts (run_db (dispatch x (Some send) b t t' (alert_job x r)) now [] d))"
    and "a_id q = a_id a" and "a_status q = ''pending''"
  shows "a_attempts a = 0 \<and> a_next_attempt_at q = t' + Minute \<or>
         a_attempts a = 1 \<and> a_next_attempt_at q = t' + 5 * Minute"
proof -
  obtain sent d' f where "dispatch x (Some send) b t t' (alert_job x r) (quiet d now) = (Inr sent, quiet d' now)"
    and "alerts d' = update_where (\<lambda>q. a_id q = a_id a) f (alerts d)"
    and f: "f = (\<lambda>q. q\<lparr>a_status := ''sent''\<rparr>) \<or> (\<exists>ans. f = delivered ans t' now)"
    using dispatch_rows [OF assms(1-5), of send b t t' now] by blast
  then have al: "alerts (run_db (dispatch x (Some send) b t t' (alert_job x r)) now [] d) =
      update_where (\<lambda>q. a_id q = a_id a) f (alerts d)" by (simp add: run_db_def)
  have same: "a_id (f p) = a_id p" for p using f by (auto simp: delivered_def split: option.split)
  from assms(7) obtain p where p: "p \<in> set (alerts d)" "q = (if a_id p = a_id a then f p else p)"
    unfolding al by (blast dest: update_where_member)
  then have "a_id p = a_id a" using assms(8) same by (auto split: if_splits)
  then have q: "q = f a" using p wf_alert_unique [OF assms(1,2)] by auto
  then obtain err where ans: "f = delivered (Some err) t' now"
    using f assms(9) by (auto simp: delivered_def split: option.splits)
  then have k: "IsRetryable err \<and> a_attempts a + 1 < maxAttempts"
    using assms(9) q by (auto simp: delivered_def split: if_splits)
  moreover have "wrap64 (Minute * 5) = 5 * Minute" by (simp add: duration_units wrap64_def)
  moreover have "a_attempts a = 0 \<or> a_attempts a = 1" using k assms(6) by (auto simp: maxAttempts_def)
  ultimately show ?thesis using q ans
    by (auto simp: delivered_def backoff_def baseBackoff_def backoffMult_def maxAttempts_def)
qed

lemma retry_delays_witness:
  "\<exists>q \<in> set (alerts (run_db (dispatch demo_ext (Some demo_busy) '''' 60 60
        (alert_job demo_ext (the (join_alert demo_outbox demo_alert)))) 70 [] demo_outbox)).
     a_next_attempt_at q = 60 + Minute"
proof -
  define d' where "d' = run_db (dispatch demo_ext (Some demo_busy) '''' 60 60
        (alert_job demo_ext (the (join_alert demo_outbox demo_alert)))) 70 [] demo_outbox"
  obtain r where r: "join_alert demo_outbox demo_alert = Some r"
    by (simp add: join_alert_def demo_outbox_def demo_db_def demo_user_def demo_monitor_def demo_event_def
        demo_alert_def new_alert_def)
  have a: "demo_alert \<in> set (alerts demo_outbox)" "a_attempts demo_alert < max_int32" "0 \<le> a_attempts demo_alert"
    by (simp_all add: demo_outbox_def demo_alert_def new_alert_def max_int32_def)
  have u: "scanUUID demo_ext (uuidString demo_ext (a_monitor_id demo_alert)) = Some (a_monitor_id demo_alert)"
    by (rule demo_ext_roundtrip) (simp add: demo_alert_def new_alert_def int64_range_def)
  have q: "alerts d' \<noteq> [] \<and> a_id (hd (alerts d')) = a_id demo_alert \<and> a_status (hd (alerts d')) = ''pending''"
    unfolding d'_def by code_simp
  then have "hd (alerts d') \<in> set (alerts d')" by simp
  then have h: "hd (alerts d') \<in> set (alerts (run_db (dispatch demo_ext (Some demo_busy) '''' 60 60
      (alert_job demo_ext r)) 70 [] demo_outbox))" by (simp add: d'_def r)
  from retry_delays [OF demo_outbox_wf a(1,2) r u a(3) h] q h
  have "a_next_attempt_at (hd (alerts d')) = 60 + Minute"
    by (auto simp: demo_alert_def new_alert_def)
  with q show ?thesis unfolding d'_def [symmetric] by (intro bexI [of _ "hd (alerts d')"]) auto
qed

section \<open>A lost mark\<close>






section \<open>Reminders\<close>

definition new_reminders :: "gotime \<Rightarrow> gotime \<Rightarrow> db \<Rightarrow> alert_row list" where
  "new_reminders t now d = number_reminders now (seq_alerts (seqs d))
     (List.map_filter (reminder_source d t) (monitors d))"

lemma EnqueueDownReminders_quiet:
  "EnqueueDownReminders t (quiet d now) = (Inr (length (new_reminders t now d)),
     quiet (d\<lparr>alerts := alerts d @ new_reminders t now d, seqs := (seqs d)\<lparr>seq_alerts :=
       seq_alerts (seqs d) + int (length (new_reminders t now d))\<rparr>\<rparr>) now)"
  by (simp add: EnqueueDownReminders_def withTx_unfold tx_unfold q_EnqueueDownReminders_def Let_def new_reminders_def)

lemma number_reminders_monitors: "map a_monitor_id (number_reminders now i src) = map fst src"
  by (induction src arbitrary: i) (auto simp: new_alert_def)

lemma reminder_monitors:
  "map fst (List.map_filter (reminder_source d t) ms) = map m_id (filter (\<lambda>m. reminder_source d t m \<noteq> None) ms)"
  by (induction ms) (auto simp: map_filter_def reminder_source_def)

text \<open>
  C19. Enqueuing reminders appends at most one pending row per monitor, only for monitors that
  are down, unmuted and have a cadence, each tied to a down event of its monitor, and only when
  every earlier outbox row of the monitor is at least one cadence old; the rows already in the
  outbox are untouched.
\<close>

theorem reminder_cadence:
  assumes "wf_db d" and "d' = run_db (EnqueueDownReminders t) now [] d"
  shows "\<exists>rs. alerts d' = alerts d @ rs \<and> distinct (map a_monitor_id rs) \<and>
    run_res (EnqueueDownReminders t) now [] d = Inr (length rs) \<and>
    (\<forall>a \<in> set rs. a_is_reminder a \<and> a_status a = ''pending'' \<and> a_created_at a = now \<and>
       (\<exists>m \<in> set (monitors d). m_id m = a_monitor_id a \<and> m_state m = ''down'' \<and> \<not> m_alerts_muted m \<and>
          m_reminder_every_s m > 0 \<and>
          (\<exists>e \<in> set (events d). e_id e = a_event_id a \<and> e_monitor_id e = m_id m \<and> e_type e = ''down'') \<and>
          (\<forall>b \<in> set (alerts d). a_monitor_id b = m_id m \<longrightarrow>
             a_created_at b + m_reminder_every_s m * Second \<le> t)))"
proof -
  let ?rs = "new_reminders t now d"
  have "distinct (map a_monitor_id ?rs)"
    using wf_db_monitor_ids [OF assms(1)]
    by (simp add: new_reminders_def number_reminders_monitors reminder_monitors distinct_map_filter)
  moreover have "a_is_reminder a \<and> a_status a = ''pending'' \<and> a_created_at a = now \<and>
       (\<exists>m \<in> set (monitors d). m_id m = a_monitor_id a \<and> m_state m = ''down'' \<and> \<not> m_alerts_muted m \<and>
          m_reminder_every_s m > 0 \<and>
          (\<exists>e \<in> set (events d). e_id e = a_event_id a \<and> e_monitor_id e = m_id m \<and> e_type e = ''down'') \<and>
          (\<forall>b \<in> set (alerts d). a_monitor_id b = m_id m \<longrightarrow>
             a_created_at b + m_reminder_every_s m * Second \<le> t))" if mem: "a \<in> set ?rs" for a
  proof -
    obtain m where m: "m \<in> set (monitors d)" "reminder_due d t m" "a_monitor_id a = m_id m"
      "\<exists>e \<in> set (events d). e_id e = a_event_id a \<and> e_monitor_id e = m_id m \<and> e_type e = ''down''"
      using reminder_row [OF mem [unfolded new_reminders_def]] by blast
    have "a_created_at b + m_reminder_every_s m * Second \<le> t"
      if "b \<in> set (alerts d)" "a_monitor_id b = m_id m" for b
    proof -
      have "\<not> a_created_at b > t - m_reminder_every_s m * Second"
        using m(2) that unfolding reminder_due_def list_ex_iff by blast
      then show ?thesis by linarith
    qed
    with m number_reminders_rows [OF mem [unfolded new_reminders_def]] show ?thesis
      by (auto simp: reminder_due_def intro!: bexI [of _ m])
  qed
  ultimately show ?thesis
    unfolding assms(2) by (intro exI [of _ ?rs]) (simp add: run_db_def run_res_def EnqueueDownReminders_quiet)
qed

theorem reminder_cadence_witness:
  "\<exists>rs. alerts (run_db (EnqueueDownReminders (2 * Day)) (2 * Day) [] demo_outbox) = demo_alert # rs \<and>
     map a_monitor_id rs = [7] \<and> map a_is_reminder rs = [True]"
proof -
  have "case run_res (EnqueueDownReminders (2 * Day)) (2 * Day) [] demo_outbox of Inr n \<Rightarrow> n = 1 | Inl _ \<Rightarrow> False" by code_simp
  then have one: "run_res (EnqueueDownReminders (2 * Day)) (2 * Day) [] demo_outbox = Inr 1" by (simp split: sum.splits)
  obtain rs where rs: "alerts (run_db (EnqueueDownReminders (2 * Day)) (2 * Day) [] demo_outbox) = alerts demo_outbox @ rs"
    "length rs = 1" "\<forall>a \<in> set rs. a_is_reminder a \<and> (\<exists>m \<in> set (monitors demo_outbox). m_id m = a_monitor_id a)"
    using reminder_cadence [OF demo_outbox_wf refl, of "2 * Day" "2 * Day"] one that by (elim exE conjE) fastforce
  then show ?thesis by (auto simp: demo_outbox_def demo_monitor_def length_Suc_conv)
qed

section \<open>Bounded delivery\<close>

text \<open>What one dispatch may do to its row: use up an attempt, or take it out of the outbox.\<close>

definition attempted :: "alert_row \<Rightarrow> alert_row \<Rightarrow> bool" where
  "attempted a a' \<longleftrightarrow> a_id a' = a_id a \<and>
     (a_attempts a' = a_attempts a + 1 \<and> (a_status a' = ''pending'' \<longrightarrow> a_status a = ''pending'' \<and> a_attempts a' < 3) \<or>
      a_attempts a' = a_attempts a \<and> a_status a' = ''sent'')"

definition job_for :: "extlib \<Rightarrow> AlertJob \<Rightarrow> alert_row \<Rightarrow> bool" where
  "job_for x job a \<longleftrightarrow> aj_ID job = a_id a \<and> aj_Attempts job = a_attempts a \<and> aj_MonitorID job = uuidString x (a_monitor_id a)"

lemma render_ok:
  assumes "scanUUID x (aj_MonitorID job) = Some mid"
  shows "\<exists>n. render x b t job (quiet d now) = (Inr n, quiet d now)"
proof -
  have "\<exists>dt. ResolveDowntime x (aj_MonitorID job) t0 (quiet d now) = (Inr dt, quiet d now)" for t0
    by (auto simp: ResolveDowntime_def lift_err_def pgUUID_def assms tx_unfold q_LatestDownEventBefore_def
        split: option.split)
  then obtain dt1 dt2 where "ResolveDowntime x (aj_MonitorID job) t (quiet d now) = (Inr dt1, quiet d now)"
    "ResolveDowntime x (aj_MonitorID job) (aj_EventAt job) (quiet d now) = (Inr dt2, quiet d now)" by blast
  then show ?thesis by (simp add: render_def Let_def bind_def map_err_def ret_def)
qed

text \<open>A job without a channel, or whose message is refused for good, ends in \<open>fail\<close>.\<close>

lemma dispatch_gives_up:
  assumes "render x b t job (quiet d now) = (Inr n, quiet d now)" and "\<not> aj_AlertsMuted job"
    and "\<nexists>send. ch = Some send \<and> (send n (aj_Recipient job) = None \<or>
        (\<exists>err. send n (aj_Recipient job) = Some err \<and> IsRetryable err \<and> aj_Attempts job + 1 < maxAttempts))"
  obtains reason sent where "dispatch x ch b t t' job (quiet d now) =
      (case fail x job reason (quiet d now) of (Inl e, s) \<Rightarrow> (Inl e, s) | (Inr _, s) \<Rightarrow> (Inr sent, s))" and "length sent \<le> 1"
proof (cases ch)
  case None
  show ?thesis
    by (rule that [where reason = "''email delivery is not configured''" and sent = "[]"])
      (use None assms(2) in \<open>auto simp: dispatch_def bind_def ret_def split: prod.split sum.split\<close>)
next
  case (Some send)
  then obtain err where "send n (aj_Recipient job) = Some err" "\<not> (IsRetryable err \<and> aj_Attempts job + 1 < maxAttempts)"
    using assms(3) by (cases "send n (aj_Recipient job)") auto
  with Some assms(1,2) show ?thesis
    by (intro that [where reason = "''mail server rejected the message''" and sent = "[(n, aj_Recipient job)]"])
      (auto simp: dispatch_def bind_def ret_def catch_def Let_def split: prod.split sum.split)
qed

lemma dispatch_job:
  assumes "wf_db d" and "a \<in> set (alerts d)" and "a_attempts a < max_int32" and "job_for x job a" and "uuid_roundtrip x"
  shows "\<exists>sent d' f. dispatch x ch b t t' job (quiet d now) = (Inr sent, quiet d' now) \<and> wf_db d' \<and>
    alerts d' = update_where (\<lambda>q. a_id q = a_id a) f (alerts d) \<and> attempted a (f a) \<and>
    int (length sent) \<le> a_attempts (f a) - a_attempts a"
proof -
  have j: "aj_ID job = a_id a" "aj_Attempts job = a_attempts a" "scanUUID x (aj_MonitorID job) = Some (a_monitor_id a)"
    using assms(4,5) by (simp_all add: job_for_def uuid_roundtrip_def)
  have wf': "wf_db d'" if "dispatch x ch b t t' job (quiet d now) = (Inr sent, quiet d' now)" for sent d'
    using dispatch_wf [of x ch b t t' job] that assms(1) unfolding keeps_all_def
    by (metis sess.select_convs(1) snd_conv)
  obtain n where n: "render x b t job (quiet d now) = (Inr n, quiet d now)" using render_ok [OF j(3)] by blast
  have fail: "\<exists>d'. fail x job reason (quiet d now) = (Inr (), quiet d' now) \<and> alerts d' =
      update_where (\<lambda>r. a_id r = a_id a) (\<lambda>r. r\<lparr>a_status := ''failed'', a_attempts := a_attempts r + 1\<rparr>) (alerts d)" for reason
    by (simp add: fail_def logged_def catch_def j(1) FailAlert_quiet [OF assms(1-3) j(3)])
  have finish: ?thesis if "dispatch x ch b t t' job (quiet d now) = (Inr sent, quiet d' now)"
    "alerts d' = update_where (\<lambda>q. a_id q = a_id a) f (alerts d)" "attempted a (f a)"
    "int (length sent) \<le> a_attempts (f a) - a_attempts a" for sent d' f
    using that wf' [OF that(1)] by blast
  note run = dispatch_def j(1,2) bind_def logged_def catch_def ret_def n
  show ?thesis
  proof (cases "aj_AlertsMuted job")
    case True
    then have r: "dispatch x ch b t t' job (quiet d now) = (Inr [], quiet (d\<lparr>alerts := update_where (\<lambda>r. a_id r = a_id a)
        (\<lambda>r. r\<lparr>a_status := ''sent''\<rparr>) (alerts d)\<rparr>) now)"
      by (simp add: run mark_quiet(2) [OF assms(1-3)])
    show ?thesis by (rule finish [where f = "\<lambda>r. r\<lparr>a_status := ''sent''\<rparr>", OF r]) (simp_all add: attempted_def)
  next
    case False
    show ?thesis
    proof (cases "\<exists>send. ch = Some send \<and> (send n (aj_Recipient job) = None \<or>
        (\<exists>err. send n (aj_Recipient job) = Some err \<and> IsRetryable err \<and> a_attempts a + 1 < maxAttempts))")
      case True
      then obtain send where ch: "ch = Some send" and ans: "send n (aj_Recipient job) = None \<or>
        (\<exists>err. send n (aj_Recipient job) = Some err \<and> IsRetryable err \<and> a_attempts a + 1 < maxAttempts)" by blast
      show ?thesis
      proof (cases "send n (aj_Recipient job)")
        case None
        then have r: "dispatch x ch b t t' job (quiet d now) = (Inr [(n, aj_Recipient job)], quiet (d\<lparr>alerts :=
            update_where (\<lambda>r. a_id r = a_id a) (delivered None t' now) (alerts d)\<rparr>) now)"
          using False ch by (simp add: run mark_quiet(1) [OF assms(1-3), where t' = t'])
        show ?thesis by (rule finish [where f = "delivered None t' now", OF r]) (simp_all add: attempted_def delivered_def)
      next
        case (Some err)
        then have r: "dispatch x ch b t t' job (quiet d now) = (Inr [(n, aj_Recipient job)], quiet (d\<lparr>alerts :=
            update_where (\<lambda>r. a_id r = a_id a) (\<lambda>r. r\<lparr>a_attempts := a_attempts r + 1,
              a_next_attempt_at := t' + backoff (a_attempts a)\<rparr>) (alerts d)\<rparr>) now)"
          using False ch ans by (simp add: run Let_def RescheduleAlert_def map_err_def mark_quiet(3) [OF assms(1-3)])
        show ?thesis using ans Some
          by (intro finish [where f = "\<lambda>r. r\<lparr>a_attempts := a_attempts r + 1,
              a_next_attempt_at := t' + backoff (a_attempts a)\<rparr>", OF r]) (simp_all add: attempted_def maxAttempts_def)
      qed
    next
      case gives_up: False
      obtain reason sent where r: "dispatch x ch b t t' job (quiet d now) =
          (case fail x job reason (quiet d now) of (Inl e, s) \<Rightarrow> (Inl e, s) | (Inr _, s) \<Rightarrow> (Inr sent, s))" and len: "length sent \<le> 1"
        using dispatch_gives_up [OF n False gives_up [folded j(2)]] by blast
      obtain d' where d': "fail x job reason (quiet d now) = (Inr (), quiet d' now)" "alerts d' =
          update_where (\<lambda>r. a_id r = a_id a) (\<lambda>r. r\<lparr>a_status := ''failed'', a_attempts := a_attempts r + 1\<rparr>) (alerts d)"
        using fail by blast
      from r d'(1) have r': "dispatch x ch b t t' job (quiet d now) = (Inr sent, quiet d' now)" by simp
      show ?thesis using len by (intro finish [OF r' d'(2)]) (simp_all add: attempted_def)
    qed
  qed
qed

definition attempts_total :: "db \<Rightarrow> int" where
  "attempts_total d = sum_list (map a_attempts (alerts d))"

definition within_budget :: "db \<Rightarrow> bool" where
  "within_budget d \<longleftrightarrow> list_all (\<lambda>a. 0 \<le> a_attempts a \<and> a_attempts a \<le> 3 \<and> (a_status a = ''pending'' \<longrightarrow> a_attempts a < 3)) (alerts d)"

lemma sum_update_where:
  fixes v :: "'r \<Rightarrow> int"
  assumes "distinct (map key rows)" and "r \<in> set rows"
  shows "sum_list (map v (update_where (\<lambda>q. key q = key r) f rows)) = sum_list (map v rows) + v (f r) - v r"
  using assms
proof (induction rows)
  case (Cons q qs)
  show ?case
  proof (cases "q = r")
    case True
    with Cons.prems(1) have "update_where (\<lambda>q. key q = key r) f qs = qs"
      unfolding update_where_def by (intro map_idI) (auto simp: True rev_image_eqI)
    with True show ?thesis by simp
  next
    case False
    with Cons.prems have "key q \<noteq> key r" by force
    with False Cons show ?thesis by simp
  qed
qed simp

lemma dispatchAll_rows:
  assumes "wf_db d" and "uuid_roundtrip x" and "distinct (map aj_ID jobs)"
    and "\<And>job. job \<in> set jobs \<Longrightarrow> \<exists>a \<in> set (alerts d). job_for x job a \<and> a_attempts a < max_int32"
  shows "\<exists>sent d' g. dispatchAll x ch b clock (\<lambda>_. False) k jobs (quiet d now) = (Inr sent, quiet d' now) \<and> wf_db d' \<and>
    alerts d' = map g (alerts d) \<and>
    (\<forall>a \<in> set (alerts d). if a_id a \<in> aj_ID ` set jobs then attempted a (g a) else g a = a) \<and>
    int (length sent) \<le> attempts_total d' - attempts_total d"
  using assms
proof (induction jobs arbitrary: d k)
  case Nil
  then show ?case by (intro exI [of _ "[]"] exI [of _ d] exI [of _ id]) (simp add: ret_def)
next
  case (Cons job jobs)
  obtain a where a: "a \<in> set (alerts d)" "job_for x job a" "a_attempts a < max_int32" using Cons.prems(4) by force
  obtain s1 d1 f where run1: "dispatch x ch b (clock (2 * k)) (clock (2 * k + 1)) job (quiet d now) = (Inr s1, quiet d1 now)"
    and wf1: "wf_db d1" and al1: "alerts d1 = update_where (\<lambda>q. a_id q = a_id a) f (alerts d)"
    and at1: "attempted a (f a)" and len1: "int (length s1) \<le> a_attempts (f a) - a_attempts a"
    using dispatch_job [OF Cons.prems(1) a(1,3,2) Cons.prems(2)] by blast
  have id: "aj_ID job = a_id a" using a(2) by (simp add: job_for_def)
  have d1: "alerts d1 = map (\<lambda>q. if a_id q = a_id a then f q else q) (alerts d)" by (simp add: al1 update_where_def)
  have others: "\<exists>q \<in> set (alerts d1). job_for x job' q \<and> a_attempts q < max_int32" if job': "job' \<in> set jobs" for job'
  proof -
    obtain q where q: "q \<in> set (alerts d)" "job_for x job' q" "a_attempts q < max_int32" using Cons.prems(4) [of job'] job' by auto
    have "a_id q \<noteq> a_id a" using Cons.prems(3) job' q(2) id by (force simp: job_for_def)
    with q show ?thesis unfolding d1 by (intro bexI [of _ q]) (auto intro: rev_image_eqI)
  qed
  obtain s2 d2 g where run2: "dispatchAll x ch b clock (\<lambda>_. False) (Suc k) jobs (quiet d1 now) = (Inr s2, quiet d2 now)"
    and wf2: "wf_db d2" and al2: "alerts d2 = map g (alerts d1)"
    and at2: "\<And>q. q \<in> set (alerts d1) \<Longrightarrow> if a_id q \<in> aj_ID ` set jobs then attempted q (g q) else g q = q"
    and len2: "int (length s2) \<le> attempts_total d2 - attempts_total d1"
    using Cons.IH [OF wf1 Cons.prems(2) _ others] Cons.prems(3) by force
  let ?g = "\<lambda>q. g (if a_id q = a_id a then f q else q)"
  have "attempts_total d1 = attempts_total d + a_attempts (f a) - a_attempts a"
    using sum_update_where [OF _ a(1), of a_id a_attempts f] Cons.prems(1)
    by (simp add: attempts_total_def al1 wf_db_def wf_alerts_def)
  then have len: "int (length (s1 @ s2)) \<le> attempts_total d2 - attempts_total d" using len1 len2 by simp
  have "if a_id q \<in> aj_ID ` set (job # jobs) then attempted q (?g q) else ?g q = q" if q: "q \<in> set (alerts d)" for q
  proof (cases "a_id q = a_id a")
    case True
    then have qa: "q = a" using wf_alert_unique [OF Cons.prems(1) a(1) q] by simp
    have "f a \<in> set (alerts d1)" using a(1) by (force simp: d1)
    moreover have "a_id (f a) \<notin> aj_ID ` set jobs" using at1 Cons.prems(3) id by (simp add: attempted_def)
    ultimately have "g (f a) = f a" using at2 [of "f a"] by simp
    with at1 qa id show ?thesis by simp
  next
    case False
    then have "q \<in> set (alerts d1)" using q by (force simp: d1)
    from at2 [OF this] False id show ?thesis by auto
  qed
  then show ?case
    using wf2 len al2 unfolding d1
    by (intro exI [of _ "s1 @ s2"] exI [of _ d2] exI [of _ ?g]) (simp add: bind_def run1 [simplified] run2 ret_def)
qed

text \<open>
  Ticks one after the other, each with its own channel, skipped rows and clock readings, on a
  connection that holds and without shutdown in between: the messages handed to the channel, the ids
  of the rows each tick claimed, and the database. A tick that fails would give None.
\<close>

record tick_env =
  te_channel :: "channel option"
  te_locked :: "int \<Rightarrow> bool"
  te_reminders :: gotime
  te_claim :: gotime
  te_clock :: "nat \<Rightarrow> gotime"
  te_now :: gotime

definition claimed_ids :: "extlib \<Rightarrow> tick_env \<Rightarrow> db \<Rightarrow> int list" where
  "claimed_ids x env d =
    (case run_res (ClaimDueAlerts x (te_locked env) (te_claim env) alerter_claimLimit) (te_now env) []
        (run_db (EnqueueDownReminders (te_reminders env)) (te_now env) [] d) of
       Inl _ \<Rightarrow> [] | Inr jobs \<Rightarrow> map aj_ID jobs)"

fun alerter_ticks :: "extlib \<Rightarrow> string \<Rightarrow> tick_env list \<Rightarrow> db \<Rightarrow> ((Notification \<times> string) list \<times> int list \<times> db) option" where
  "alerter_ticks x b [] d = Some ([], [], d)"
| "alerter_ticks x b (env # envs) d =
    (case alerter_tick x (te_channel env) b (te_locked env) (te_reminders env) (te_claim env) (te_clock env) (\<lambda>_. False)
        (quiet d (te_now env)) of
       (Inl _, _) \<Rightarrow> None
     | (Inr sent, s) \<Rightarrow> (case alerter_ticks x b envs (sdb s) of None \<Rightarrow> None
         | Some (sent', ids, d') \<Rightarrow> Some (sent @ sent', claimed_ids x env d @ ids, d')))"

lemma claim_rows:
  assumes "wf_db d"
  obtains rows where "ClaimDueAlerts x locked t alerter_claimLimit (quiet d now) = (Inr (map (alert_job x) rows), quiet d now)"
    and "distinct (map ca_ID rows)"
    and "\<And>r. r \<in> set rows \<Longrightarrow> \<exists>a \<in> set (alerts d). a_status a = ''pending'' \<and> join_alert d a = Some r"
proof -
  define as where "as = filter (\<lambda>a. \<not> locked (a_id a)) (sort_key a_next_attempt_at
      (filter (\<lambda>a. a_status a = ''pending'' \<and> a_next_attempt_at a < t) (alerts d)))"
  define rows where "rows = take 100 (List.map_filter (join_alert d) as)"
  have run: "ClaimDueAlerts x locked t alerter_claimLimit (quiet d now) = (Inr (map (alert_job x) rows), quiet d now)"
    by (simp add: ClaimDueAlerts_def withTx_unfold tx_unfold q_ClaimDueAlerts_def reading_def sql_limit_def
        alerter_claimLimit_def rows_def as_def)
  have sorted: "distinct (map a_id (sort_key a_next_attempt_at xs))" if "distinct (map a_id xs)" for xs
    using that by (simp add: distinct_map)
  have "distinct (map a_id (alerts d))" using assms by (simp add: wf_db_def wf_alerts_def)
  then have "distinct (map a_id as)" unfolding as_def by (intro distinct_map_filter sorted)
  moreover have "map ca_ID (List.map_filter (join_alert d) zs) = map a_id (filter (\<lambda>a. join_alert d a \<noteq> None) zs)" for zs
    by (induction zs) (auto simp: map_filter_simps dest: join_alert_SomeD split: option.split)
  ultimately have "distinct (map ca_ID (List.map_filter (join_alert d) as))" by (simp add: distinct_map_filter)
  then have dist: "distinct (map ca_ID rows)" unfolding rows_def take_map [symmetric] by (rule distinct_take)
  have "\<exists>a \<in> set (alerts d). a_status a = ''pending'' \<and> join_alert d a = Some r" if "r \<in> set rows" for r
    using in_set_takeD [OF that [unfolded rows_def]] by (auto simp: map_filter_def as_def)
  with run dist show thesis by (rule that)
qed

text \<open>One tick, row by row.\<close>

lemma alerter_tick_rows:
  assumes "wf_db d" and "uuid_roundtrip x" and "within_budget d"
  shows "\<exists>sent d' g new. alerter_tick x (te_channel env) b (te_locked env) (te_reminders env) (te_claim env) (te_clock env)
      (\<lambda>_. False) (quiet d (te_now env)) = (Inr sent, quiet d' (te_now env)) \<and> wf_db d' \<and> within_budget d' \<and>
    alerts d' = map g (alerts d) @ new \<and> distinct (claimed_ids x env d) \<and>
    (\<forall>a \<in> set (alerts d). if a_id a \<in> set (claimed_ids x env d) then a_status a = ''pending'' \<and> attempted a (g a) else g a = a) \<and>
    int (length sent) \<le> attempts_total d' - attempts_total d"
proof -
  let ?now = "te_now env"
  define rs where "rs = new_reminders (te_reminders env) ?now d"
  define d1 where "d1 = d\<lparr>alerts := alerts d @ rs, seqs := (seqs d)\<lparr>seq_alerts := seq_alerts (seqs d) + int (length rs)\<rparr>\<rparr>"
  have enq: "EnqueueDownReminders (te_reminders env) (quiet d ?now) = (Inr (length rs), quiet d1 ?now)"
    by (simp add: EnqueueDownReminders_quiet rs_def d1_def)
  have wf1: "wf_db d1"
    using keeps_all_run [OF alerter_store_wf(6) assms(1), of "te_reminders env" ?now "[]"] by (simp add: run_db_def enq)
  have rs0: "a_attempts a = 0" if "a \<in> set rs" for a
    using number_reminders_rows that unfolding rs_def new_reminders_def by blast
  have tot1: "attempts_total d1 = attempts_total d" using rs0 by (simp add: attempts_total_def d1_def sum_list_0 cong: map_cong)
  have bud1: "within_budget d1"
    using assms(3) rs0 by (auto simp: within_budget_def d1_def list_all_iff)
  obtain rows where claim: "ClaimDueAlerts x (te_locked env) (te_claim env) alerter_claimLimit (quiet d1 ?now) =
      (Inr (map (alert_job x) rows), quiet d1 ?now)" and dist: "distinct (map ca_ID rows)"
    and rows: "\<And>r. r \<in> set rows \<Longrightarrow> \<exists>a \<in> set (alerts d1). a_status a = ''pending'' \<and> join_alert d1 a = Some r"
    using claim_rows [OF wf1] by metis
  have ids: "claimed_ids x env d = map ca_ID rows"
    by (simp add: claimed_ids_def run_db_def run_res_def enq claim alert_job_def)
  have jobs: "\<exists>a \<in> set (alerts d1). job_for x job a \<and> a_attempts a < max_int32" if job: "job \<in> set (map (alert_job x) rows)" for job
  proof -
    obtain r a where r: "job = alert_job x r" "a \<in> set (alerts d1)" "join_alert d1 a = Some r" using job rows by force
    then have "job_for x job a" using join_alert_SomeD [OF r(3)] by (simp add: job_for_def alert_job_def)
    moreover have "a_attempts a < max_int32" using bud1 r(2) by (force simp: within_budget_def list_all_iff max_int32_def)
    ultimately show ?thesis using r(2) by blast
  qed
  have idset: "aj_ID ` set (map (alert_job x) rows) = set (claimed_ids x env d)" by (force simp: ids alert_job_def)
  have dj: "distinct (map aj_ID (map (alert_job x) rows))" using dist by (simp add: alert_job_def comp_def)
  obtain sent d' g where all: "dispatchAll x (te_channel env) b (te_clock env) (\<lambda>_. False) 0 (map (alert_job x) rows) (quiet d1 ?now) =
      (Inr sent, quiet d' ?now)" and wf': "wf_db d'" and al: "alerts d' = map g (alerts d1)"
    and at: "\<And>a. a \<in> set (alerts d1) \<Longrightarrow> if a_id a \<in> set (claimed_ids x env d) then attempted a (g a) else g a = a"
    and len: "int (length sent) \<le> attempts_total d' - attempts_total d1"
    using dispatchAll_rows [OF wf1 assms(2) dj jobs] unfolding idset by blast
  have pend: "a_status a = ''pending''" if a: "a \<in> set (alerts d1)" "a_id a \<in> set (claimed_ids x env d)" for a
  proof -
    obtain r where "r \<in> set rows" "ca_ID r = a_id a" using a(2) by (auto simp: ids)
    with rows obtain q where q: "q \<in> set (alerts d1)" "a_status q = ''pending''" "join_alert d1 q = Some r" by blast
    then have "a_id q = a_id a" using join_alert_SomeD \<open>ca_ID r = a_id a\<close> by fastforce
    with wf_alert_unique [OF wf1 a(1) q(1)] q(2) show ?thesis by simp
  qed
  have "within_budget d'"
    using bud1 at pend unfolding within_budget_def al list_all_iff
    by (fastforce simp: attempted_def split: if_splits)
  moreover have "alerts d' = map g (alerts d) @ map g rs" by (simp add: al d1_def)
  moreover have "alerter_tick x (te_channel env) b (te_locked env) (te_reminders env) (te_claim env) (te_clock env)
      (\<lambda>_. False) (quiet d ?now) = (Inr sent, quiet d' ?now)"
    by (simp add: alerter_tick_def bind_def catch_def ret_def enq claim all)
  moreover have "if a_id a \<in> set (claimed_ids x env d) then a_status a = ''pending'' \<and> attempted a (g a) else g a = a"
    if "a \<in> set (alerts d)" for a
    using at [of a] pend [of a] that by (auto simp: d1_def)
  moreover have "distinct (claimed_ids x env d)" using dist by (simp add: ids)
  ultimately show ?thesis using wf' len tot1 by metis
qed

lemma count_distinct: "distinct xs \<Longrightarrow> count_list xs i = (if i \<in> set xs then 1 else 0)"
  by (induction xs) auto

lemma alerter_ticks_rows:
  assumes "wf_db d" and "uuid_roundtrip x" and "within_budget d"
  shows "\<exists>sent ids d'. alerter_ticks x b envs d = Some (sent, ids, d') \<and> wf_db d' \<and> within_budget d' \<and>
    int (length sent) \<le> attempts_total d' - attempts_total d \<and>
    (\<forall>a \<in> set (alerts d). \<exists>a' \<in> set (alerts d'). a_id a' = a_id a \<and>
       (a_status a' = ''pending'' \<longrightarrow> a_status a = ''pending'' \<and> int (count_list ids (a_id a)) \<le> a_attempts a' - a_attempts a))"
  using assms
proof (induction envs arbitrary: d)
  case Nil
  then show ?case by auto
next
  case (Cons env envs)
  obtain s1 d1 g new where run1: "alerter_tick x (te_channel env) b (te_locked env) (te_reminders env) (te_claim env) (te_clock env)
      (\<lambda>_. False) (quiet d (te_now env)) = (Inr s1, quiet d1 (te_now env))" and wf1: "wf_db d1" and bud1: "within_budget d1"
    and al1: "alerts d1 = map g (alerts d) @ new" and dist: "distinct (claimed_ids x env d)"
    and at1: "\<And>a. a \<in> set (alerts d) \<Longrightarrow>
      if a_id a \<in> set (claimed_ids x env d) then a_status a = ''pending'' \<and> attempted a (g a) else g a = a"
    and len1: "int (length s1) \<le> attempts_total d1 - attempts_total d"
    using alerter_tick_rows [OF Cons.prems] by blast
  obtain s2 ids d2 where run2: "alerter_ticks x b envs d1 = Some (s2, ids, d2)" and wf2: "wf_db d2" "within_budget d2"
    and len2: "int (length s2) \<le> attempts_total d2 - attempts_total d1"
    and at2: "\<And>a. a \<in> set (alerts d1) \<Longrightarrow> \<exists>a' \<in> set (alerts d2). a_id a' = a_id a \<and>
       (a_status a' = ''pending'' \<longrightarrow> a_status a = ''pending'' \<and> int (count_list ids (a_id a)) \<le> a_attempts a' - a_attempts a)"
    using Cons.IH [OF wf1 Cons.prems(2) bud1] by blast
  have "\<exists>a' \<in> set (alerts d2). a_id a' = a_id a \<and> (a_status a' = ''pending'' \<longrightarrow> a_status a = ''pending'' \<and>
      int (count_list (claimed_ids x env d @ ids) (a_id a)) \<le> a_attempts a' - a_attempts a)" if a: "a \<in> set (alerts d)" for a
  proof -
    have "g a \<in> set (alerts d1)" using a by (simp add: al1)
    then obtain a' where a': "a' \<in> set (alerts d2)" "a_id a' = a_id (g a)" "a_status a' = ''pending'' \<longrightarrow>
        a_status (g a) = ''pending'' \<and> int (count_list ids (a_id (g a))) \<le> a_attempts a' - a_attempts (g a)"
      using at2 by blast
    have "count_list (claimed_ids x env d) (a_id a) = (if a_id a \<in> set (claimed_ids x env d) then 1 else 0)"
      using dist by (simp add: count_distinct)
    with a' at1 [OF a] show ?thesis
      by (intro bexI [OF _ a'(1)]) (auto simp: attempted_def split: if_splits)
  qed
  with run1 run2 wf2 len1 len2 show ?case by simp
qed

text \<open>
  C18. Delivery is bounded, over any number of ticks of the alerter on a connection that holds,
  whatever the mail servers answer and whenever the ticks run: every tick completes, no row ever has
  more than three attempts, and no more messages are sent than attempts are counted. A row still in the outbox has left it once it has been claimed three times, less
  the attempts made before.
\<close>

theorem delivery_bounded:
  assumes "wf_db d" and "uuid_roundtrip x" and "within_budget d"
  shows "\<exists>sent ids d'. alerter_ticks x b envs d = Some (sent, ids, d') \<and>
    (\<forall>a \<in> set (alerts d'). a_attempts a \<le> 3) \<and>
    int (length sent) \<le> sum_list (map a_attempts (alerts d')) - sum_list (map a_attempts (alerts d)) \<and>
    (\<forall>a \<in> set (alerts d). 3 \<le> int (count_list ids (a_id a)) + a_attempts a \<longrightarrow>
       (\<forall>q \<in> set (alerts d'). a_id q = a_id a \<longrightarrow> a_status q \<noteq> ''pending''))"
proof -
  obtain sent ids d' where run: "alerter_ticks x b envs d = Some (sent, ids, d')" and wf: "wf_db d'" and bud: "within_budget d'"
    and len: "int (length sent) \<le> attempts_total d' - attempts_total d"
    and at: "\<And>a. a \<in> set (alerts d) \<Longrightarrow> \<exists>a' \<in> set (alerts d'). a_id a' = a_id a \<and>
       (a_status a' = ''pending'' \<longrightarrow> a_status a = ''pending'' \<and> int (count_list ids (a_id a)) \<le> a_attempts a' - a_attempts a)"
    using alerter_ticks_rows [OF assms] by blast
  have "a_status q \<noteq> ''pending''"
    if a: "a \<in> set (alerts d)" "3 \<le> int (count_list ids (a_id a)) + a_attempts a" and q: "q \<in> set (alerts d')" "a_id q = a_id a" for a q
  proof -
    obtain a' where a': "a' \<in> set (alerts d')" "a_id a' = a_id a" "a_status a' = ''pending'' \<longrightarrow>
        int (count_list ids (a_id a)) \<le> a_attempts a' - a_attempts a" using at [OF a(1)] by blast
    have "q = a'" using wf_alert_unique [OF wf a'(1) q(1)] a'(2) q(2) by simp
    with a'(3) a(2) bud q(1) show ?thesis by (auto simp: within_budget_def list_all_iff)
  qed
  then show ?thesis
    using run len bud by (intro exI [of _ sent] exI [of _ ids] exI [of _ d'])
      (auto simp: attempts_total_def within_budget_def list_all_iff)
qed

definition demo_tick :: "gotime \<Rightarrow> tick_env" where
  "demo_tick t = \<lparr>te_channel = Some demo_busy, te_locked = (\<lambda>_. False), te_reminders = t, te_claim = t, te_clock = (\<lambda>_. t), te_now = t\<rparr>"

theorem delivery_bounded_witness:
  "\<exists>sent ids d'. alerter_ticks (demo_ext\<lparr>scanUUID := \<lambda>s. Some (length s), uuidString := \<lambda>u. replicate u (CHR ''x'')\<rparr>) ''''
      [demo_tick 60, demo_tick (10 * Minute), demo_tick Hour, demo_tick Day] demo_outbox = Some (sent, ids, d') \<and>
    count_list ids 1 = 3 \<and> length sent = 3 \<and> map a_status (alerts d') = [''failed'']"
proof -
  let ?x = "demo_ext\<lparr>scanUUID := \<lambda>s. Some (length s), uuidString := \<lambda>u. replicate u (CHR ''x'')\<rparr>"
  let ?envs = "[demo_tick 60, demo_tick (10 * Minute), demo_tick Hour, demo_tick Day]"
  have "within_budget demo_outbox" by code_simp
  then obtain sent ids d' where run: "alerter_ticks ?x '''' ?envs demo_outbox = Some (sent, ids, d')"
    and "\<forall>a \<in> set (alerts demo_outbox). 3 \<le> int (count_list ids (a_id a)) + a_attempts a \<longrightarrow>
       (\<forall>q \<in> set (alerts d'). a_id q = a_id a \<longrightarrow> a_status q \<noteq> ''pending'')"
    using delivery_bounded [OF demo_outbox_wf demo_uuids] by blast
  moreover have "(case alerter_ticks ?x '''' ?envs demo_outbox of None \<Rightarrow> False
      | Some (sent, ids, d') \<Rightarrow> count_list ids 1 = 3 \<and> length sent = 3 \<and> map a_status (alerts d') = [''failed''])"
    by code_simp
  ultimately show ?thesis by auto
qed

end
