(* ===== verification/Auth_Api.thy ===== *)
theory Auth_Api
  imports Http Accounts Alerter Calendar
begin

text \<open>
  Ping ingestion (src/backend/server/checkin.go), the account endpoints (src/backend/server/auth.go),
  access tokens (src/backend/server/jwt.go), the authentication middleware
  (src/backend/server/auth_middleware.go), API key management (src/backend/server/apikey.go), the
  test email (src/backend/server/alerting.go) and the header middleware
  (src/backend/server/middleware.go).
\<close>

section \<open>Ping ingestion\<close>

definition maxCheckinBody :: nat where "maxCheckinBody = 10240"
definition pingRateLimit :: int where "pingRateLimit = 120"
definition pingRateWindow :: duration where "pingRateWindow = Minute"

text \<open>A ping request; \<open>pq_Body\<close> is what can be read of the body before an end or an error.\<close>

record ping_request =
  pq_Slug :: string
  pq_Method :: string
  pq_RemoteAddr :: string
  pq_UserAgent :: string
  pq_Body :: string

definition readTruncatedBody :: "ping_request \<Rightarrow> string" where
  "readTruncatedBody req = take maxCheckinBody (pq_Body req)"

definition writeCheckinOK :: "ping_request \<Rightarrow> 'b response" where
  "writeCheckinOK req = writeJSON 200 (if pq_Method req \<noteq> ''HEAD'' then Text ''OK'' else NoBody)"

definition checkin_params :: "ping_request \<Rightarrow> string \<Rightarrow> gotime \<Rightarrow> RecordCheckinParams" where
  "checkin_params req kind now =
    \<lparr>rp_Slug = pq_Slug req, rp_Kind = kind, rp_SourceIP = clientIP (pq_RemoteAddr req),
     rp_UserAgent = pq_UserAgent req,
     rp_Body = (if pq_Method req \<noteq> ''HEAD'' then readTruncatedBody req else ''''), rp_Now = now\<rparr>"

text \<open>Every error of \<open>RecordCheckin\<close> is at most logged.\<close>

definition ingest ::
  "schedlib \<Rightarrow> extlib \<Rightarrow> 'r redis option \<Rightarrow> ping_request \<Rightarrow> string \<Rightarrow> gotime \<Rightarrow> ('r, unit) handler" where
  "ingest lib x redis req kind now =
     limited redis (''rate:ping:'' @ clientIP (pq_RemoteAddr req)) pingRateLimit pingRateWindow (\<lambda>w.
       case RecordCheckin lib x (checkin_params req kind now) (fst w) of
         (_, s) \<Rightarrow> (writeCheckinOK req, s, snd w))"

definition ping_success :: "schedlib \<Rightarrow> extlib \<Rightarrow> 'r redis option \<Rightarrow> ping_request \<Rightarrow> gotime \<Rightarrow> ('r, unit) handler" where
  "ping_success lib x redis req now = ingest lib x redis req ''success'' now"

definition ping_start :: "schedlib \<Rightarrow> extlib \<Rightarrow> 'r redis option \<Rightarrow> ping_request \<Rightarrow> gotime \<Rightarrow> ('r, unit) handler" where
  "ping_start lib x redis req now = ingest lib x redis req ''start'' now"

definition ping_fail :: "schedlib \<Rightarrow> extlib \<Rightarrow> 'r redis option \<Rightarrow> ping_request \<Rightarrow> gotime \<Rightarrow> ('r, unit) handler" where
  "ping_fail lib x redis req now = ingest lib x redis req ''fail'' now"

text \<open>\<^verbatim>\<open>strconv.Atoi\<close> of the path segment: an error counts as success.\<close>

definition exitCode ::
  "schedlib \<Rightarrow> extlib \<Rightarrow> 'r redis option \<Rightarrow> ping_request \<Rightarrow> string \<Rightarrow> gotime \<Rightarrow> ('r, unit) handler" where
  "exitCode lib x redis req code now =
     ingest lib x redis req (case ParseInt64 code of
        Some n \<Rightarrow> if n \<noteq> 0 then ''fail'' else ''success'' | None \<Rightarrow> ''success'') now"

section \<open>Access tokens\<close>

definition jwtIssuer :: string where "jwtIssuer = ''ping''"
definition jwtAudience :: string where "jwtAudience = ''ping-api''"

record accessClaims =
  ac_Subject :: string
  ac_ID :: string
  ac_IssuedAt :: gotime
  ac_ExpiresAt :: gotime
  ac_Issuer :: string
  ac_Audience :: "string list"

text \<open>
  The JWT library with the server's key pair: \<open>SignedString\<close> signs claims with RS256 (None for
  an error), \<open>ParseWithClaims methods issuer audience now token\<close> gives the claims of a token
  that passes every check at that instant.
\<close>

record jwtlib =
  SignedString :: "accessClaims \<Rightarrow> string option"
  ParseWithClaims :: "string list \<Rightarrow> string \<Rightarrow> string \<Rightarrow> gotime \<Rightarrow> string \<Rightarrow> accessClaims option"

text \<open>Eight random bytes in hex, or the formatted clock when crypto/rand fails.\<close>

definition newRequestID :: "nat list option \<Rightarrow> string \<Rightarrow> string" where
  "newRequestID rand fallback = (case rand of None \<Rightarrow> fallback | Some b \<Rightarrow> hex_encode b)"

text \<open>\<^verbatim>\<open>jwt.NewNumericDate\<close> truncates to whole seconds.\<close>

definition issueAccessToken :: "jwtlib \<Rightarrow> string \<Rightarrow> gotime \<Rightarrow> string \<Rightarrow> duration \<Rightarrow> gerror + string" where
  "issueAccessToken J jti now userID ttl =
    (case SignedString J \<lparr>ac_Subject = userID, ac_ID = jti, ac_IssuedAt = time_Truncate now Second,
             ac_ExpiresAt = time_Truncate (now + ttl) Second, ac_Issuer = jwtIssuer, ac_Audience = [jwtAudience]\<rparr> of
       None \<Rightarrow> Inl (MsgE ''server: sign access token'')
     | Some str \<Rightarrow> Inr str)"

definition parseAccessToken :: "jwtlib \<Rightarrow> gotime \<Rightarrow> string \<Rightarrow> accessClaims option" where
  "parseAccessToken J now token = ParseWithClaims J [''RS256''] jwtIssuer jwtAudience now token"

section \<open>Account endpoints\<close>

definition refreshCookieName :: string where "refreshCookieName = ''ping_refresh''"
definition refreshCookiePath :: string where "refreshCookiePath = ''/api/v1/auth''"
definition authRateLimit :: int where "authRateLimit = 5"
definition authRateWindow :: duration where "authRateWindow = Minute"
definition minPasswordLen :: nat where "minPasswordLen = 12"

text \<open>The dependencies of the handlers, with \<^verbatim>\<open>mail.ParseAddress\<close> as a test.\<close>

record auth_env =
  av_ext :: extlib
  av_crypto :: cryptolib
  av_jwt :: jwtlib
  mail_ParseAddress :: "string \<Rightarrow> bool"
  JWTAccessTTL :: duration
  JWTRefreshTTL :: duration
  RegistrationOpen :: bool
  CookieSecure :: bool
  AuthRateLimitDisabled :: bool

text \<open>What one request draws: a row id, randomness for the family, the token and the jti, and its clock.\<close>

record draws =
  dw_id :: uuid
  dw_user_id :: uuid
  dw_family :: "nat list option"
  dw_token :: "nat list option"
  dw_jti :: string
  dw_now :: gotime

record emailPasswordRequest =
  eq_Email :: string
  eq_Password :: string

record authResponse =
  ar_AccessToken :: string
  ar_UserID :: string
  ar_Email :: string

definition setRefreshCookie :: "string \<Rightarrow> gotime \<Rightarrow> bool \<Rightarrow> cookie" where
  "setRefreshCookie value expiresAt secure =
    \<lparr>ck_Name = refreshCookieName, ck_Value = value, ck_Path = refreshCookiePath, ck_Expires = Some expiresAt,
     ck_MaxAge = 0, ck_HttpOnly = True, ck_Secure = secure, ck_SameSiteLax = True\<rparr>"

definition clearRefreshCookie :: "bool \<Rightarrow> cookie" where
  "clearRefreshCookie secure =
    \<lparr>ck_Name = refreshCookieName, ck_Value = '''', ck_Path = refreshCookiePath, ck_Expires = None,
     ck_MaxAge = -1, ck_HttpOnly = True, ck_Secure = secure, ck_SameSiteLax = True\<rparr>"

definition checkRateLimit :: "auth_env \<Rightarrow> 'r redis option \<Rightarrow> string \<Rightarrow> ('r, 'b) handler \<Rightarrow> ('r, 'b) handler" where
  "checkRateLimit A redis key k =
    (if AuthRateLimitDisabled A then k else limited redis key authRateLimit authRateWindow k)"

definition decodeJSON :: "'q option \<Rightarrow> ('q \<Rightarrow> ('r, 'b) handler) \<Rightarrow> ('r, 'b) handler" where
  "decodeJSON body k = (case body of None \<Rightarrow> reply (errorResponse 400 ''invalid request body'') | Some req \<Rightarrow> k req)"

definition validEmailPassword :: "auth_env \<Rightarrow> emailPasswordRequest \<Rightarrow> 'b response option" where
  "validEmailPassword A req =
    (if \<not> mail_ParseAddress A (eq_Email req) then Some (errorResponse 422 ''invalid email address'')
     else if length (eq_Password req) < minPasswordLen
       then Some (errorResponse 422 ''password must be at least 12 characters'')
     else None)"

definition issueTokenPair :: "auth_env \<Rightarrow> draws \<Rightarrow> nat \<Rightarrow> string \<Rightarrow> string \<Rightarrow> ('r, authResponse) handler" where
  "issueTokenPair A D status userID email =
    (case issueAccessToken (av_jwt A) (dw_jti D) (dw_now D) userID (JWTAccessTTL A) of
       Inl e \<Rightarrow> reply (writeError e)
     | Inr access \<Rightarrow>
         call (IssueRefreshToken (av_ext A) (av_crypto A) (dw_id D) (dw_family D) (dw_token D) (dw_now D) userID
                 (JWTRefreshTTL A)) (\<lambda>rt.
         reply ((writeJSON status (Payload \<lparr>ar_AccessToken = access, ar_UserID = userID, ar_Email = email\<rparr>))
           \<lparr>rs_cookie := Some (setRefreshCookie (rt_PlainToken rt) (rt_ExpiresAt rt) (CookieSecure A))\<rparr>)))"

definition register ::
  "auth_env \<Rightarrow> 'r redis option \<Rightarrow> draws \<Rightarrow> string \<Rightarrow> emailPasswordRequest option \<Rightarrow> ('r, authResponse) handler" where
  "register A redis D remoteAddr body =
     checkRateLimit A redis (''rate:register:'' @ clientIP remoteAddr)
      (decodeJSON body (\<lambda>req.
        case validEmailPassword A req of
          Some rsp \<Rightarrow> reply rsp
        | None \<Rightarrow>
            call (Register (av_ext A) (av_crypto A) (dw_user_id D) (eq_Email req) (eq_Password req) (RegistrationOpen A))
              (\<lambda>user. issueTokenPair A D 201 (au_ID user) (au_Email user))))"

definition login ::
  "auth_env \<Rightarrow> 'r redis option \<Rightarrow> draws \<Rightarrow> string \<Rightarrow> emailPasswordRequest option \<Rightarrow> ('r, authResponse) handler" where
  "login A redis D remoteAddr body =
     checkRateLimit A redis (''rate:login:'' @ clientIP remoteAddr)
      (decodeJSON body (\<lambda>req.
        call (Authenticate (av_ext A) (av_crypto A) (eq_Email req) (eq_Password req))
          (\<lambda>user. issueTokenPair A D 200 (au_ID user) (au_Email user))))"

text \<open>The cookie is None when the request carries none.\<close>

definition refresh :: "auth_env \<Rightarrow> draws \<Rightarrow> string option \<Rightarrow> ('r, authResponse) handler" where
  "refresh A D cookie w =
    (case cookie of
       None \<Rightarrow> (errorResponse 401 ''missing refresh token'', w)
     | Some value \<Rightarrow>
         (case RotateRefreshToken (av_ext A) (av_crypto A) (dw_id D) (dw_token D) (dw_now D) (dw_now D) value
                 (JWTRefreshTTL A) (fst w) of
            (Inl e, s) \<Rightarrow> ((writeError e)\<lparr>rs_cookie := Some (clearRefreshCookie (CookieSecure A))\<rparr>, s, snd w)
          | (Inr (rt, userID), s) \<Rightarrow>
              (case issueAccessToken (av_jwt A) (dw_jti D) (dw_now D) userID (JWTAccessTTL A) of
                 Inl e \<Rightarrow> (writeError e, s, snd w)
               | Inr access \<Rightarrow>
                   ((writeJSON 200 (Payload \<lparr>ar_AccessToken = access, ar_UserID = userID, ar_Email = ''''\<rparr>))
                      \<lparr>rs_cookie := Some (setRefreshCookie (rt_PlainToken rt) (rt_ExpiresAt rt) (CookieSecure A))\<rparr>,
                    s, snd w))))"

definition logout :: "auth_env \<Rightarrow> string option \<Rightarrow> ('r, unit) handler" where
  "logout A cookie w =
    (let s = (case cookie of None \<Rightarrow> fst w | Some value \<Rightarrow> snd (RevokeFamilyByToken (av_crypto A) value (fst w))) in
     ((writeJSON 200 NoBody)\<lparr>rs_cookie := Some (clearRefreshCookie (CookieSecure A))\<rparr>, s, snd w))"

section \<open>Authentication middleware\<close>

definition bearerPrefix :: string where "bearerPrefix = ''Bearer ''"
definition apiKeyRateLimit :: int where "apiKeyRateLimit = 300"
definition apiKeyRateWindow :: duration where "apiKeyRateWindow = Minute"

definition bearerToken :: "string \<Rightarrow> string option" where
  "bearerToken authorization =
    (if take (length bearerPrefix) authorization = bearerPrefix \<and> drop (length bearerPrefix) authorization \<noteq> ''''
     then Some (drop (length bearerPrefix) authorization) else None)"

text \<open>\<open>next\<close> is the wrapped handler; it gets the user id that the context carries.\<close>

definition requireAuth :: "auth_env \<Rightarrow> gotime \<Rightarrow> string \<Rightarrow> (string \<Rightarrow> ('r, 'b) handler) \<Rightarrow> ('r, 'b) handler" where
  "requireAuth A now authorization nxt =
    (case bearerToken authorization of
       None \<Rightarrow> reply (errorResponse 401 ''missing or malformed authorization header'')
     | Some token \<Rightarrow>
         (case parseAccessToken (av_jwt A) now token of
            None \<Rightarrow> reply (errorResponse 401 ''invalid or expired access token'')
          | Some claims \<Rightarrow> nxt (ac_Subject claims)))"

definition requireAuthOrAPIKey ::
  "auth_env \<Rightarrow> 'r redis option \<Rightarrow> gotime \<Rightarrow> string \<Rightarrow> (string \<Rightarrow> ('r, 'b) handler) \<Rightarrow> ('r, 'b) handler" where
  "requireAuthOrAPIKey A redis now authorization nxt =
    (case bearerToken authorization of
       None \<Rightarrow> reply (errorResponse 401 ''missing or malformed authorization header'')
     | Some token \<Rightarrow>
         if take 3 token = ''pk_'' then
           call (AuthenticateAPIKey (av_ext A) (av_crypto A) token) (\<lambda>authed.
           limited redis (''rate:apikey:'' @ aa_KeyID authed) apiKeyRateLimit apiKeyRateWindow (nxt (aa_UserID authed)))
         else
           (case parseAccessToken (av_jwt A) now token of
              None \<Rightarrow> reply (errorResponse 401 ''invalid or expired access token'')
            | Some claims \<Rightarrow> nxt (ac_Subject claims)))"

section \<open>API key management\<close>

definition maxAPIKeyLabelLen :: nat where "maxAPIKeyLabelLen = 100"

record createAPIKeyResponse =
  ck_ID :: string
  ck_Label :: string
  ck_Key :: string
  ck_CreatedAt :: string

record apiKeyResponse =
  kr_ID :: string
  kr_Label :: string
  kr_LastUsedAt :: "string option"
  kr_RevokedAt :: "string option"
  kr_CreatedAt :: string

definition formatTimePtr :: "gotime option \<Rightarrow> string option" where
  "formatTimePtr t = map_option format_RFC3339 t"

text \<open>The request body is just the label.\<close>

definition apikey_create :: "auth_env \<Rightarrow> draws \<Rightarrow> string \<Rightarrow> string option \<Rightarrow> ('r, createAPIKeyResponse) handler" where
  "apikey_create A D user body =
     decodeJSON body (\<lambda>raw. let label = str_TrimSpace raw in
       if label = '''' then reply (writeJSON 422 (FieldErrorBody ''label is required'' ''label''))
       else if length label > maxAPIKeyLabelLen
         then reply (writeJSON 422 (FieldErrorBody ''label must be 100 characters or fewer'' ''label''))
       else call (CreateAPIKey (av_ext A) (av_crypto A) (dw_id D) (dw_token D) user label) (\<lambda>created.
         reply (writeJSON 201 (Payload \<lparr>ck_ID = ak_ID (cak_APIKey created), ck_Label = ak_Label (cak_APIKey created),
           ck_Key = cak_PlainKey created, ck_CreatedAt = format_RFC3339 (ak_CreatedAt (cak_APIKey created))\<rparr>))))"

definition apikey_list :: "auth_env \<Rightarrow> string \<Rightarrow> ('r, apiKeyResponse list) handler" where
  "apikey_list A user =
     call (ListAPIKeys (av_ext A) user) (\<lambda>keys.
     reply (writeJSON 200 (Payload (map (\<lambda>k. \<lparr>kr_ID = ak_ID k, kr_Label = ak_Label k,
       kr_LastUsedAt = formatTimePtr (ak_LastUsedAt k), kr_RevokedAt = formatTimePtr (ak_RevokedAt k),
       kr_CreatedAt = format_RFC3339 (ak_CreatedAt k)\<rparr>) keys))))"

definition apikey_revoke :: "auth_env \<Rightarrow> string \<Rightarrow> string \<Rightarrow> ('r, unit) handler" where
  "apikey_revoke A user i = call (RevokeAPIKey (av_ext A) i user) (\<lambda>_. reply (writeJSON 204 NoBody))"

section \<open>The test email\<close>

fun is_not_configured :: "senderr \<Rightarrow> bool" where
  "is_not_configured ErrNotConfigured = True"
| "is_not_configured (SendWrap _ e) = is_not_configured e"
| "is_not_configured _ = False"

definition not_configured :: "'b response" where
  "not_configured = errorResponse 503 ''email delivery is not configured (set SMTP_HOST and SMTP_FROM)''"

definition writeSendError :: "senderr \<Rightarrow> 'b response" where
  "writeSendError err =
    (if is_not_configured err then not_configured
     else if IsRetryable err
       then errorResponse 503 ''could not deliver test email: the mail server was temporarily unavailable, try again''
     else errorResponse 502 ''could not deliver test email: the mail server rejected it (check SMTP settings)'')"

definition sendTest :: "auth_env \<Rightarrow> channel option \<Rightarrow> gotime \<Rightarrow> string \<Rightarrow> ('r, string) handler" where
  "sendTest A ch now userID =
    (case ch of
       None \<Rightarrow> reply not_configured
     | Some send \<Rightarrow>
         call (UserEmailByID (av_ext A) userID) (\<lambda>to.
         case send \<lparr>no_Kind = KindTest, no_MonitorName = '''', no_MonitorSlug = '''', no_Reason = '''', no_Downtime = 0,
                    no_TLSExpiresAt = 0, no_At = now, no_DashboardURL = ''''\<rparr> to of
           Some err \<Rightarrow> reply (writeSendError err)
         | None \<Rightarrow> reply (writeJSON 200 (Payload to))))"

section \<open>Header middleware\<close>

text \<open>
  Headers as an association list, the newest entry of a name first; the second component says
  whether the request goes on to the next handler (False: answered with 204).
\<close>

definition corsMiddleware :: "string \<Rightarrow> string \<Rightarrow> string \<Rightarrow> (string \<times> string) list \<Rightarrow> (string \<times> string) list \<times> bool" where
  "corsMiddleware allowedOrigin origin meth headers =
    ((if origin \<noteq> '''' \<and> origin = allowedOrigin
      then [(''Vary'', ''Origin''), (''Access-Control-Allow-Headers'', ''Content-Type, Authorization''),
            (''Access-Control-Allow-Methods'', ''GET, POST, PUT, PATCH, DELETE, OPTIONS''),
            (''Access-Control-Allow-Credentials'', ''true''), (''Access-Control-Allow-Origin'', origin)] @ headers
      else headers), meth \<noteq> ''OPTIONS'')"

definition securityHeadersMiddleware :: "bool \<Rightarrow> (string \<times> string) list \<Rightarrow> (string \<times> string) list" where
  "securityHeadersMiddleware tls headers =
    (if tls then [(''Strict-Transport-Security'', ''max-age=31536000; includeSubDomains'')] else []) @
    [(''Referrer-Policy'', ''strict-origin-when-cross-origin''), (''X-Frame-Options'', ''DENY''),
     (''X-Content-Type-Options'', ''nosniff''),
     (''Content-Security-Policy'', ''default-src '' @ [CHR 0x27] @ ''self'' @ [CHR 0x27])] @ headers"

section \<open>A ping is answered\<close>

text \<open>Stored bodies never exceed the limit.\<close>

definition bodies_ok :: "db \<Rightarrow> bool" where
  "bodies_ok d \<longleftrightarrow> list_all (\<lambda>c. length (text_value (c_body c)) \<le> maxCheckinBody) (checkins d)"

lemma bodies_ok_checkins: "checkins d' = checkins d \<Longrightarrow> bodies_ok d' = bodies_ok d"
  by (simp add: bodies_ok_def)

lemma bodies_ok_stmts [tx_rules]:
  "stmt_keeps bodies_ok (q_UpdateMonitorOnCheckin st t dl n i)"
  "stmt_keeps bodies_ok (q_InsertEvent mid ty msg meta)"
  "stmt_keeps bodies_ok (q_InsertAlert mid ev ch)"
  by (auto simp: stmt_keeps_def q_UpdateMonitorOnCheckin_def sql_exec_def update_monitors_def q_InsertEvent_def
      q_InsertAlert_def Let_def bump_defs elim!: bodies_ok_checkins [THEN iffD2, rotated] split: sum.split)

lemma bodies_ok_InsertCheckin [tx_rules]:
  "length (text_value body) \<le> maxCheckinBody \<Longrightarrow> stmt_keeps bodies_ok (q_InsertCheckin mid kind ip ua body)"
  by (auto simp: stmt_keeps_def q_InsertCheckin_def Let_def bump_defs bodies_ok_def)

lemma RecordCheckin_bodies:
  assumes "length (rp_Body p) \<le> maxCheckinBody"
  shows "keeps_all bodies_ok (RecordCheckin lib x p)"
proof -
  have stable: "rollback_stable bodies_ok"
    by (auto simp: rollback_stable_def tables_kept_simps elim!: bodies_ok_checkins [THEN iffD2, rotated])
  have body: "length (text_value (textOrNull (rp_Body p))) \<le> maxCheckinBody"
    using assms by (simp add: textOrNull_def)
  show ?thesis
    unfolding RecordCheckin_def
    by (rule keeps_all_withTx [OF stable _ checkinBody_rules(2)])
      (auto simp: checkinBody_def applySuccess_def applyFail_def recordTransition_def recordEvent_def
        recordEventMeta_def Let_def intro!: tx_rules body split: sum.split)
qed

text \<open>
  C14. With a Redis server that counts, the first 120 pings an address sends in a window are all
  answered 200, whatever the monitor lookup, the transaction or the connection do, and each of
  them runs one check-in; every further ping is answered 429 and does not touch the database.
  No ping stores more than 10 KiB of its body.
\<close>

theorem ping_answered:
  assumes "counting c (''rate:ping:'' @ clientIP (pq_RemoteAddr req)) n" and "bodies_ok (sdb s)"
    and "ingest lib x (Some c) req kind now (s, r) = (rsp, s', r')"
  shows "n r' = n r + 1 \<and> bodies_ok (sdb s') \<and>
    (if n r < 120 then rs_status rsp = 200 \<and> s' = snd (RecordCheckin lib x (checkin_params req kind now) s)
     else rs_status rsp = 429 \<and> s' = s)"
proof -
  let ?A = "Allow (Some c) (''rate:ping:'' @ clientIP (pq_RemoteAddr req)) pingRateLimit pingRateWindow r"
  have step: "fst (fst ?A) \<longleftrightarrow> n r < 120" "n (snd ?A) = n r + 1"
    using Allow_step [OF assms(1), of pingRateLimit pingRateWindow r] by (simp_all add: pingRateLimit_def)
  have "length (rp_Body (checkin_params req kind now)) \<le> maxCheckinBody"
    by (simp add: checkin_params_def readTruncatedBody_def)
  then have "bodies_ok (sdb (snd (RecordCheckin lib x (checkin_params req kind now) s)))"
    using RecordCheckin_bodies assms(2) by (auto simp: keeps_all_def)
  with assms(2,3) step show ?thesis
    by (auto simp: ingest_def limited_def writeCheckinOK_def writeJSON_def writeRateLimited_def errorResponse_def
        split: prod.splits if_splits)
qed

definition demo_request :: ping_request where
  "demo_request = \<lparr>pq_Slug = ''s'', pq_Method = ''POST'', pq_RemoteAddr = ''10.0.0.1:5000'', pq_UserAgent = ''curl'',
     pq_Body = ''done''\<rparr>"

theorem ping_answered_witness:
  "rs_status (fst (ingest demo_lib demo_ext (Some demo_redis) demo_request ''fail'' 60 (quiet demo_db 60, 0))) = 200 \<and>
   rs_status (fst (ingest demo_lib demo_ext (Some demo_redis) demo_request ''fail'' 60 (quiet demo_db 60, 120))) = 429"
proof -
  have "bodies_ok (sdb (quiet demo_db 60))" by (simp add: bodies_ok_def demo_db_def empty_db_def)
  note ans = ping_answered [where req = demo_request, OF demo_counting this]
  obtain rsp s' r' rsp2 s2 r2 where
    runs: "ingest demo_lib demo_ext (Some demo_redis) demo_request ''fail'' 60 (quiet demo_db 60, 0) = (rsp, s', r')"
      "ingest demo_lib demo_ext (Some demo_redis) demo_request ''fail'' 60 (quiet demo_db 60, 120) = (rsp2, s2, r2)"
    by (metis prod.collapse)
  from ans [OF runs(1)] ans [OF runs(2)] runs show ?thesis by simp
qed

section \<open>Dead keys open nothing\<close>

definition live_key :: "cryptolib \<Rightarrow> string \<Rightarrow> db \<Rightarrow> api_key_row list" where
  "live_key c token d = filter (\<lambda>k. k_key_hash k = hashToken c token \<and> k_revoked_at k = None) (api_keys d)"

text \<open>A signed token has three segments separated by dots.\<close>

definition jwt_dotted :: "jwtlib \<Rightarrow> bool" where
  "jwt_dotted J \<longleftrightarrow> (\<forall>methods iss aud now token. CHR ''.'' \<notin> set token \<longrightarrow>
     ParseWithClaims J methods iss aud now token = None)"

lemma bearerToken_append: "token \<noteq> '''' \<Longrightarrow> bearerToken (''Bearer '' @ token) = Some token"
  by (simp add: bearerToken_def bearerPrefix_def)

lemma pk_nonempty: "take 3 token = ''pk_'' \<Longrightarrow> token \<noteq> ''''"
  by auto

lemma AuthenticateAPIKey_dead:
  assumes "live_key c token (sdb s) = []"
  shows "AuthenticateAPIKey x c token s =
    (Inl (if next_outcome s = Succeeds then invalid_api_key
          else WrapE ''store: get api key by hash'' (DbE ConnFailure)), consume s)"
  using assms
  by (auto simp: AuthenticateAPIKey_def bind_def map_err_def query_def q_GetAPIKeyByHash_def reading_def
      first_row_def live_key_def split: outcome.split list.split)

text \<open>
  C32. A request that carries an API key which is unknown or revoked never reaches a handler: the
  middleware of the management API answers 401 (500 when the lookup fails) and writes nothing. On
  the routes that manage API keys even a live key is refused with 401, because they take access
  tokens only.
\<close>

theorem dead_key_locked_out:
  assumes "take 3 token = ''pk_''" and "live_key (av_crypto A) token (sdb s) = []"
    and "jwt_dotted (av_jwt A)" and "CHR ''.'' \<notin> set token"
  shows "(\<exists>rsp. requireAuthOrAPIKey A redis now (''Bearer '' @ token) nxt (s, r) = (rsp, consume s, r) \<and>
      rs_status rsp = (if next_outcome s = Succeeds then 401 else 500)) \<and>
    requireAuth A now (''Bearer '' @ token) nxt' w = (errorResponse 401 ''invalid or expired access token'', w)"
proof
  have b: "bearerToken (''Bearer '' @ token) = Some token"
    by (rule bearerToken_append [OF pk_nonempty [OF assms(1)]])
  show "\<exists>rsp. requireAuthOrAPIKey A redis now (''Bearer '' @ token) nxt (s, r) = (rsp, consume s, r) \<and>
      rs_status rsp = (if next_outcome s = Succeeds then 401 else 500)"
    unfolding requireAuthOrAPIKey_def b
    using assms(1) by (simp add: call_def AuthenticateAPIKey_dead [OF assms(2)] writeError_status
        invalid_api_key_def newHTTPError_def)
  show "requireAuth A now (''Bearer '' @ token) nxt' w = (errorResponse 401 ''invalid or expired access token'', w)"
    unfolding requireAuth_def b
    using assms(3,4) by (simp add: parseAccessToken_def jwt_dotted_def reply_def)
qed

definition demo_jwt :: jwtlib where
  "demo_jwt = \<lparr>SignedString = \<lambda>cl. Some (''h.s.'' @ ac_Subject cl),
     ParseWithClaims = \<lambda>_ iss aud _ token. if take 4 token = ''h.s.''
       then Some \<lparr>ac_Subject = drop 4 token, ac_ID = '''', ac_IssuedAt = 0, ac_ExpiresAt = 0, ac_Issuer = iss,
              ac_Audience = [aud]\<rparr> else None\<rparr>"

definition demo_auth :: auth_env where
  "demo_auth = \<lparr>av_ext = demo_ids, av_crypto = demo_crypto, av_jwt = demo_jwt, mail_ParseAddress = (\<lambda>_. True),
     JWTAccessTTL = 15 * Minute, JWTRefreshTTL = 30 * Day, RegistrationOpen = True, CookieSecure = True,
     AuthRateLimitDisabled = False\<rparr>"

lemma demo_jwt_dotted: "jwt_dotted demo_jwt"
  unfolding jwt_dotted_def demo_jwt_def
  by simp (metis in_set_takeD list.set_intros(1,2))

theorem dead_key_locked_out_witness:
  "rs_status (fst (requireAuthOrAPIKey demo_auth (Some demo_redis) 60 ''Bearer pk_00'' (\<lambda>_. reply (writeJSON 200 (NoBody :: unit payload)))
     (quiet demo_db 60, 0))) = 401"
proof -
  have "live_key (av_crypto demo_auth) ''pk_00'' (sdb (quiet demo_db 60)) = []"
    by (simp add: live_key_def demo_db_def empty_db_def)
  moreover have "jwt_dotted (av_jwt demo_auth)" by (simp add: demo_auth_def demo_jwt_dotted)
  ultimately show ?thesis
    using dead_key_locked_out [of "''pk_00''" demo_auth "quiet demo_db 60" "Some demo_redis" 60
        "\<lambda>_. reply (writeJSON 200 (NoBody :: unit payload))" 0, THEN conjunct1] by auto
qed

section \<open>A login opens a session\<close>

text \<open>What the JWT library promises: a signed token is accepted until it expires, with its subject.\<close>

definition jwt_roundtrip :: "jwtlib \<Rightarrow> bool" where
  "jwt_roundtrip J \<longleftrightarrow> (\<forall>cl token now. SignedString J cl = Some token \<longrightarrow> now < ac_ExpiresAt cl \<longrightarrow>
     token \<noteq> '''' \<and> take 3 token \<noteq> ''pk_'' \<and>
     (\<exists>cl'. ParseWithClaims J [''RS256''] (ac_Issuer cl) (hd (ac_Audience cl)) now token = Some cl' \<and>
            ac_Subject cl' = ac_Subject cl))"

lemma IssueRefreshToken_InrD:
  assumes "IssueRefreshToken x c i famRand rand t uid ttl s = (Inr rt, s')"
  obtains row where "row \<in> set (refresh_tokens (sdb s'))" "r_token_hash row = hashToken c (rt_PlainToken rt)"
    "scanUUID x uid = Some (r_user_id row)" "r_rotated_at row = None" "r_revoked_at row = None"
proof -
  obtain fam plain where fam: "newRandomUUID famRand = Some fam" "newRandomToken rand = Some plain"
    using assms by (auto simp: IssueRefreshToken_def issueInFamily_def raise_def split: option.splits)
  obtain uu fu where ids: "scanUUID x uid = Some uu" "scanUUID x fam = Some fu"
    using assms fam by (auto simp: IssueRefreshToken_def issueInFamily_def Let_def bind_def lift_err_def pgUUID_def
        ret_def raise_def split: option.splits)
  have run: "bind (map_err (WrapE ''store: create refresh token'')
      (query (q_CreateRefreshToken i uu fu (hashToken c plain) (t + ttl))))
      (\<lambda>_. ret \<lparr>rt_PlainToken = plain, rt_FamilyID = fam, rt_ExpiresAt = t + ttl\<rparr>) s = (Inr rt, s')"
    using assms fam ids by (simp add: IssueRefreshToken_def issueInFamily_def Let_def bind_def lift_err_def pgUUID_def
        ret_def)
  obtain row s1 where row: "query (q_CreateRefreshToken i uu fu (hashToken c plain) (t + ttl)) s = (Inr row, s1)"
    "s' = s1" "rt = \<lparr>rt_PlainToken = plain, rt_FamilyID = fam, rt_ExpiresAt = t + ttl\<rparr>"
    using run by (auto simp: bind_def map_err_def ret_def split: prod.splits sum.splits)
  then have "row \<in> set (refresh_tokens (sdb s'))" "r_token_hash row = hashToken c plain" "r_user_id row = uu"
    "r_rotated_at row = None" "r_revoked_at row = None"
    by (auto simp: query_def q_CreateRefreshToken_def Let_def split: outcome.splits if_splits)
  with ids(1) row(3) show ?thesis by (intro that) simp_all
qed

lemma issueTokenPair_ok:
  assumes "issueTokenPair A D st uid email (s, r) = (rsp, s', r')" and "rs_body rsp = Payload ar"
  shows "issueAccessToken (av_jwt A) (dw_jti D) (dw_now D) uid (JWTAccessTTL A) = Inr (ar_AccessToken ar)"
    and "ar_UserID ar = uid"
    and "\<exists>row ck. row \<in> set (refresh_tokens (sdb s')) \<and> rs_cookie rsp = Some ck \<and>
      r_token_hash row = hashToken (av_crypto A) (ck_Value ck) \<and> scanUUID (av_ext A) uid = Some (r_user_id row) \<and>
      r_rotated_at row = None \<and> r_revoked_at row = None"
proof -
  obtain acc where acc: "issueAccessToken (av_jwt A) (dw_jti D) (dw_now D) uid (JWTAccessTTL A) = Inr acc"
    using assms by (auto simp: issueTokenPair_def reply_def writeError_def errorResponse_def writeJSON_def
        split: sum.splits option.splits)
  let ?issue = "IssueRefreshToken (av_ext A) (av_crypto A) (dw_id D) (dw_family D) (dw_token D) (dw_now D) uid (JWTRefreshTTL A)"
  obtain rt where rt: "?issue s = (Inr rt, s')"
  proof (cases "?issue s")
    case (Pair res s1)
    with assms acc that show ?thesis
      by (cases res) (auto simp: issueTokenPair_def call_def reply_def writeError_def errorResponse_def writeJSON_def
          split: option.splits)
  qed
  have rsp: "rsp = (writeJSON st (Payload \<lparr>ar_AccessToken = acc, ar_UserID = uid, ar_Email = email\<rparr>))
      \<lparr>rs_cookie := Some (setRefreshCookie (rt_PlainToken rt) (rt_ExpiresAt rt) (CookieSecure A))\<rparr>"
    using assms(1) acc by (simp add: issueTokenPair_def call_def rt reply_def)
  with assms(2) acc show "issueAccessToken (av_jwt A) (dw_jti D) (dw_now D) uid (JWTAccessTTL A) = Inr (ar_AccessToken ar)"
    "ar_UserID ar = uid" by (auto simp: writeJSON_def)
  obtain row where "row \<in> set (refresh_tokens (sdb s'))" "r_token_hash row = hashToken (av_crypto A) (rt_PlainToken rt)"
    "scanUUID (av_ext A) uid = Some (r_user_id row)" "r_rotated_at row = None" "r_revoked_at row = None"
    by (rule IssueRefreshToken_InrD [OF rt])
  then show "\<exists>row ck. row \<in> set (refresh_tokens (sdb s')) \<and> rs_cookie rsp = Some ck \<and>
      r_token_hash row = hashToken (av_crypto A) (ck_Value ck) \<and> scanUUID (av_ext A) uid = Some (r_user_id row) \<and>
      r_rotated_at row = None \<and> r_revoked_at row = None"
    using rsp by (auto simp: setRefreshCookie_def)
qed

lemma Authenticate_InrD:
  assumes "Authenticate x c email pw s = (Inr au, s')"
  obtains u where "u \<in> set (users (sdb s))" "u_email u = normalizeEmail c email"
    "CompareHashAndPassword c (u_password_hash u) pw" "au_ID au = uuidString x (u_id u)"
  using assms
  by (auto simp: Authenticate_def bind_def map_err_def query_def q_GetUserByEmail_def reading_def first_row_def ret_def
      raise_def split: outcome.splits list.splits if_splits dest!: filter_eq_ConsD) blast

text \<open>
  C33. A login that answers with a session has checked the password of the account with the
  normalised email; the access token it hands out is accepted by both authentication
  middlewares as that user until it expires, and the cookie it sets belongs to a stored,
  unused refresh token of that user.
\<close>

theorem login_session:
  assumes "jwt_roundtrip (av_jwt A)" and "login A redis D addr (Some req) (s, r) = (rsp, s', r')"
    and "rs_body rsp = Payload ar"
  shows "\<exists>u row ck. u \<in> set (users (sdb s)) \<and> u_email u = normalizeEmail (av_crypto A) (eq_Email req) \<and>
    CompareHashAndPassword (av_crypto A) (u_password_hash u) (eq_Password req) \<and>
    ar_UserID ar = uuidString (av_ext A) (u_id u) \<and>
    (\<forall>t. t < time_Truncate (dw_now D + JWTAccessTTL A) Second \<longrightarrow>
       requireAuth A t (''Bearer '' @ ar_AccessToken ar) nxt w = nxt (ar_UserID ar) w \<and>
       requireAuthOrAPIKey A redis t (''Bearer '' @ ar_AccessToken ar) nxt w = nxt (ar_UserID ar) w) \<and>
    row \<in> set (refresh_tokens (sdb s')) \<and> rs_cookie rsp = Some ck \<and>
    r_token_hash row = hashToken (av_crypto A) (ck_Value ck) \<and>
    scanUUID (av_ext A) (ar_UserID ar) = Some (r_user_id row) \<and> r_rotated_at row = None \<and> r_revoked_at row = None"
proof -
  let ?auth = "Authenticate (av_ext A) (av_crypto A) (eq_Email req) (eq_Password req)"
  obtain r1 where run: "call ?auth (\<lambda>user. issueTokenPair A D 200 (au_ID user) (au_Email user)) (s, r1) = (rsp, s', r')"
    using assms(2,3) by (auto simp: login_def checkRateLimit_def decodeJSON_def limited_def writeRateLimited_def
        errorResponse_def writeJSON_def split: if_splits prod.splits)
  obtain au s1 where au: "?auth s = (Inr au, s1)"
  proof (cases "?auth s")
    case (Pair res s1)
    with run assms(3) that show ?thesis
      by (cases res) (auto simp: call_def writeError_def errorResponse_def writeJSON_def split: option.splits)
  qed
  then obtain u where u: "u \<in> set (users (sdb s))" "u_email u = normalizeEmail (av_crypto A) (eq_Email req)"
    "CompareHashAndPassword (av_crypto A) (u_password_hash u) (eq_Password req)" "au_ID au = uuidString (av_ext A) (u_id u)"
    by (rule Authenticate_InrD)
  have pair: "issueTokenPair A D 200 (au_ID au) (au_Email au) (s1, r1) = (rsp, s', r')"
    using run by (simp add: call_def au)
  note ok = issueTokenPair_ok [OF pair assms(3)]
  obtain row ck where row: "row \<in> set (refresh_tokens (sdb s'))" "rs_cookie rsp = Some ck"
    "r_token_hash row = hashToken (av_crypto A) (ck_Value ck)" "scanUUID (av_ext A) (ar_UserID ar) = Some (r_user_id row)"
    "r_rotated_at row = None" "r_revoked_at row = None" using ok(2,3) by auto
  have parse: "\<exists>cl. ar_AccessToken ar \<noteq> '''' \<and> take 3 (ar_AccessToken ar) \<noteq> ''pk_'' \<and>
      parseAccessToken (av_jwt A) t (ar_AccessToken ar) = Some cl \<and> ac_Subject cl = ar_UserID ar"
    if "t < time_Truncate (dw_now D + JWTAccessTTL A) Second" for t
    using ok(1,2) assms(1) that
    by (fastforce simp: issueAccessToken_def jwt_roundtrip_def parseAccessToken_def split: option.splits)
  have "requireAuth A t (''Bearer '' @ ar_AccessToken ar) nxt w = nxt (ar_UserID ar) w \<and>
       requireAuthOrAPIKey A redis t (''Bearer '' @ ar_AccessToken ar) nxt w = nxt (ar_UserID ar) w"
    if t: "t < time_Truncate (dw_now D + JWTAccessTTL A) Second" for t
  proof -
    obtain cl where cl: "ar_AccessToken ar \<noteq> ''''" "take 3 (ar_AccessToken ar) \<noteq> ''pk_''"
      "parseAccessToken (av_jwt A) t (ar_AccessToken ar) = Some cl" "ac_Subject cl = ar_UserID ar"
      using parse [OF t] by blast
    from cl(2-4) show ?thesis
      unfolding requireAuth_def requireAuthOrAPIKey_def bearerToken_append [OF cl(1)] by simp
  qed
  with u(1-3) u(4) ok(2) row show ?thesis by (intro exI [of _ u] exI [of _ row] exI [of _ ck]) simp
qed

lemma demo_jwt_roundtrip: "jwt_roundtrip demo_jwt"
  by (simp add: jwt_roundtrip_def demo_jwt_def)

definition demo_draws :: draws where
  "demo_draws = \<lparr>dw_id = 1, dw_user_id = 2, dw_family = Some (replicate 16 0), dw_token = Some [1], dw_jti = ''j'',
     dw_now = 100 * Day\<rparr>"

definition demo_accounts :: db where
  "demo_accounts = demo_db\<lparr>users := [demo_user\<lparr>u_password_hash := ''#correct horse''\<rparr>]\<rparr>"

definition demo_credentials :: emailPasswordRequest where
  "demo_credentials = \<lparr>eq_Email = '' A@B '', eq_Password = ''correct horse''\<rparr>"

lemma demo_login_answer:
  "(case login demo_auth (Some demo_redis) demo_draws ''10.0.0.1:5000'' (Some demo_credentials) (quiet demo_accounts 60, 1) of
     (rsp, _, _) \<Rightarrow> rs_body rsp = Payload \<lparr>ar_AccessToken = ''h.s.x'', ar_UserID = ''x'', ar_Email = ''a@b''\<rparr>)"
  by code_simp

theorem login_session_witness:
  "requireAuth demo_auth 60 ''Bearer h.s.x'' (\<lambda>user. reply (writeJSON 200 (Text user :: unit payload))) (quiet demo_accounts 60, 0)
     = (writeJSON 200 (Text ''x''), quiet demo_accounts 60, 0 :: int)"
proof -
  obtain rsp s' r' where run: "login demo_auth (Some demo_redis) demo_draws ''10.0.0.1:5000'' (Some demo_credentials)
      (quiet demo_accounts 60, 1) = (rsp, s', r')" by (metis prod.collapse)
  have body: "rs_body rsp = Payload \<lparr>ar_AccessToken = ''h.s.x'', ar_UserID = ''x'', ar_Email = ''a@b''\<rparr>"
    using demo_login_answer run by simp
  have "jwt_roundtrip (av_jwt demo_auth)" by (simp add: demo_auth_def demo_jwt_roundtrip)
  from login_session [OF this run body, of "\<lambda>user. reply (writeJSON 200 (Text user :: unit payload))"
      "(quiet demo_accounts 60, 0)"]
  show ?thesis by (auto simp: reply_def demo_draws_def demo_auth_def time_Truncate_def duration_units)
qed

text \<open>A password bcrypt refuses (more than 72 bytes) passes the request validation and ends in a 500.\<close>

lemma register_hash_error:
  assumes "GenerateFromPassword (av_crypto A) (eq_Password req) = None" and "mail_ParseAddress A (eq_Email req)"
    and "minPasswordLen \<le> length (eq_Password req)" and "RegistrationOpen A" and "AuthRateLimitDisabled A"
  shows "register A redis D addr (Some req) (s, r) = (errorResponse 500 ''internal server error'', s, r)"
  using assms by (simp add: register_def checkRateLimit_def decodeJSON_def validEmailPassword_def call_def
      Register_def raise_def Let_def)

end
