(* ===== verification/Scheduler.thy ===== *)
theory Scheduler
  imports Checkin
begin

text \<open>
  The deadline evaluation: src/backend/store/scheduler.go and the tick of
  src/backend/worker/scheduler/scheduler.go. One transaction claims the heartbeat monitors
  whose deadline has passed and walks each from up to late (event only) or from late to down
  (event and outbox row).
\<close>

section \<open>Model\<close>

record EvalResult =
  Claimed :: nat
  ToLate :: nat
  ToDown :: nat

definition evaluateOne :: "monitor_row \<Rightarrow> EvalResult \<Rightarrow> EvalResult dbm" where
  "evaluateOne m res =
    (case m_next_deadline m of
       None \<Rightarrow> ret res
     | Some deadline \<Rightarrow>
         if m_state m = ''up'' then
           (let grace = seconds_of (int_value (m_grace_s m)); downAt = deadline + grace in
            bind (map_err (WrapE ''store: mark monitor late'')
                    (query (q_MarkMonitorLate (Some downAt) (m_id m)))) (\<lambda>_.
            bind (recordEvent (m_id m) ''late'' ''Monitor is late'') (\<lambda>_.
            ret (res\<lparr>ToLate := ToLate res + 1\<rparr>))))
         else if m_state m = ''late'' then
           bind (map_err (WrapE ''store: mark monitor down'') (query (q_MarkMonitorDown (m_id m)))) (\<lambda>_.
           bind (recordTransition (m_id m) ''down'' ''Monitor missed its deadline'') (\<lambda>_.
           ret (res\<lparr>ToDown := ToDown res + 1\<rparr>)))
         else ret res)"

fun evaluateAll :: "monitor_row list \<Rightarrow> EvalResult \<Rightarrow> EvalResult dbm" where
  "evaluateAll [] res = ret res"
| "evaluateAll (m # ms) res = bind (evaluateOne m res) (evaluateAll ms)"

definition evaluateBody :: "(uuid \<Rightarrow> bool) \<Rightarrow> gotime \<Rightarrow> int \<Rightarrow> EvalResult dbm" where
  "evaluateBody locked t limit =
     bind (map_err (WrapE ''store: claim due monitors'') (query (q_ClaimDueMonitors locked t limit))) (\<lambda>rows.
     evaluateAll rows \<lparr>Claimed = length rows, ToLate = 0, ToDown = 0\<rparr>)"

definition EvaluateDueMonitors :: "(uuid \<Rightarrow> bool) \<Rightarrow> gotime \<Rightarrow> int \<Rightarrow> EvalResult dbm" where
  "EvaluateDueMonitors locked t limit = withTx (evaluateBody locked t limit)"

definition claimLimit :: int where
  "claimLimit = 500"

definition scheduler_tick :: "(uuid \<Rightarrow> bool) \<Rightarrow> gotime \<Rightarrow> unit dbm" where
  "scheduler_tick locked t = bind (EvaluateDueMonitors locked t claimLimit) (\<lambda>_. ret ())"

section \<open>Every body is strict, grows the sequences and keeps the schema\<close>

lemma evaluateOne_rules [tx_rules]:
  "strict (evaluateOne m r)" "grows (evaluateOne m r)" "keeps_all wf_db (evaluateOne m r)"
  unfolding evaluateOne_def Let_def by (auto intro!: tx_rules split: option.split)

lemma evaluateAll_rules [tx_rules]:
  "strict (evaluateAll ms r)" "grows (evaluateAll ms r)" "keeps_all wf_db (evaluateAll ms r)"
  by (induction ms arbitrary: r) (auto intro!: tx_rules)

lemma evaluateBody_rules [tx_rules]:
  "strict (evaluateBody lk t n)" "grows (evaluateBody lk t n)" "keeps_all wf_db (evaluateBody lk t n)"
  unfolding evaluateBody_def by (auto intro!: tx_rules)

lemma EvaluateDueMonitors_wf [tx_rules]: "keeps_all wf_db (EvaluateDueMonitors lk t n)"
  unfolding EvaluateDueMonitors_def by (intro keeps_all_withTx tx_rules)

section \<open>The claim\<close>

definition due :: "gotime \<Rightarrow> monitor_row \<Rightarrow> bool" where
  "due t m \<longleftrightarrow> null_less (m_next_deadline m) t \<and> m_state m \<in> {''up'', ''late''} \<and> m_paused_at m = None"

definition claimed :: "(uuid \<Rightarrow> bool) \<Rightarrow> gotime \<Rightarrow> int \<Rightarrow> db \<Rightarrow> monitor_row list" where
  "claimed locked t limit d = take (nat limit) (filter (\<lambda>m. \<not> locked (m_id m))
     (sort_key (\<lambda>m. the (m_next_deadline m)) (filter (due t) (monitors d))))"

lemma ClaimDueMonitors_claimed:
  "0 \<le> limit \<Longrightarrow> q_ClaimDueMonitors locked t limit now d = (Inr (claimed locked t limit d), d)"
  by (simp add: q_ClaimDueMonitors_def sql_limit_def claimed_def due_def [abs_def])

lemma claimed_member:
  "m \<in> set (claimed locked t limit d) \<Longrightarrow> m \<in> set (monitors d) \<and> due t m \<and> \<not> locked (m_id m)"
  by (auto simp: claimed_def dest: in_set_takeD)

lemma distinct_map_take_filter_sort:
  "distinct (map f xs) \<Longrightarrow> distinct (map f (take n (filter q (sort_key k (filter p xs)))))"
proof -
  assume "distinct (map f xs)"
  then have "distinct (map f (filter p xs))" by (rule distinct_map_filter)
  then have "distinct (map f (sort_key k (filter p xs)))"
    by (metis distinct_map distinct_sort set_sort)
  then show ?thesis by (metis distinct_map_filter distinct_take take_map)
qed

lemma claimed_distinct: "wf_db d \<Longrightarrow> distinct (map m_id (claimed locked t limit d))"
  unfolding claimed_def by (rule distinct_map_take_filter_sort) (simp add: wf_db_monitor_ids)

lemma sorted_take_drop:
  assumes "sorted (map k xs)" and "x \<in> set (take n xs)" and "y \<in> set (drop n xs)"
  shows "k x \<le> k y"
proof -
  from assms(1) have "sorted (map k (take n xs) @ map k (drop n xs))"
    by (metis append_take_drop_id map_append)
  with assms(2,3) show ?thesis by (auto simp: sorted_append)
qed

text \<open>
  A worker's claim holds only due, unpaused, unlocked monitors in state up or late, each
  once, at most the limit of them; and it is fair: a due monitor nobody holds that is left out
  has a deadline no earlier than every claimed one, and the limit is used up.
\<close>

lemma ClaimDueMonitors_fair:
  assumes "wf_db d" and "0 \<le> limit"
    and "m \<in> set (monitors d)" and "due t m" and "\<not> locked (m_id m)"
  shows "case q_ClaimDueMonitors locked t limit now d of
      (Inl _, _) \<Rightarrow> False
    | (Inr rows, d') \<Rightarrow> d' = d \<and> distinct (map m_id rows) \<and> int (length rows) \<le> limit \<and>
        (\<forall>r. r \<in> set rows \<longrightarrow> r \<in> set (monitors d) \<and> due t r \<and> \<not> locked (m_id r)) \<and>
        (m \<in> set rows \<or> int (length rows) = limit \<and>
           (\<forall>r. r \<in> set rows \<longrightarrow> the (m_next_deadline r) \<le> the (m_next_deadline m)))"
proof -
  let ?k = "\<lambda>m. the (m_next_deadline m)"
  let ?all = "filter (\<lambda>m. \<not> locked (m_id m)) (sort_key ?k (filter (due t) (monitors d)))"
  have s: "sorted (map ?k ?all)" by (rule sorted_filter) simp
  have "m \<in> set ?all" using assms by simp
  then have "m \<in> set (take (nat limit) ?all) \<or> m \<in> set (drop (nat limit) ?all)"
    by (metis UnE append_take_drop_id set_append)
  then have "m \<in> set (claimed locked t limit d) \<or> int (length (claimed locked t limit d)) = limit \<and>
      (\<forall>r. r \<in> set (claimed locked t limit d) \<longrightarrow> ?k r \<le> ?k m)"
  proof
    assume m: "m \<in> set (drop (nat limit) ?all)"
    then have "nat limit < length ?all"
      by (metis drop_all empty_iff leI list.set(1))
    then have "int (length (claimed locked t limit d)) = limit"
      using assms(2) by (simp add: claimed_def)
    with sorted_take_drop [OF s _ m] show ?thesis by (auto simp: claimed_def)
  qed (simp add: claimed_def)
  moreover have "int (length (claimed locked t limit d)) \<le> limit"
    using assms(2) by (simp add: claimed_def)
  ultimately show ?thesis
    using assms(1,2) by (auto simp: ClaimDueMonitors_claimed claimed_distinct dest: claimed_member)
qed

lemma ClaimDueMonitors_fair_witness:
  "q_ClaimDueMonitors (\<lambda>_. False) 100 1 0 demo_db = (Inr [demo_monitor], demo_db)"
proof -
  have m: "demo_monitor \<in> set (monitors demo_db)" "due 100 demo_monitor"
    by (simp_all add: demo_db_def due_def demo_monitor_def)
  have "monitors demo_db = [demo_monitor]" by (simp add: demo_db_def)
  with ClaimDueMonitors_fair [OF demo_db_wf _ m, of 1 "\<lambda>_. False" 0] show ?thesis
    by (auto split: prod.splits sum.splits simp: le_Suc_eq length_Suc_conv)
qed

section \<open>What an evaluation does\<close>

definition sched_row :: "gotime \<Rightarrow> monitor_row \<Rightarrow> monitor_row" where
  "sched_row now m =
    (if m_state m = ''up''
     then m\<lparr>m_state := ''late'', m_updated_at := now,
            m_next_deadline := Some (the (m_next_deadline m) + seconds_of (int_value (m_grace_s m)))\<rparr>
     else m\<lparr>m_state := ''down'', m_next_deadline := None, m_fail_streak := m_fail_streak m + 1,
            m_updated_at := now\<rparr>)"

definition sched_step :: "gotime \<Rightarrow> monitor_row \<Rightarrow> db \<Rightarrow> db" where
  "sched_step now m d =
    (let d1 = d\<lparr>monitors := update_where (\<lambda>r. m_id r = m_id m) (sched_row now) (monitors d)\<rparr> in
     if m_state m = ''up'' then with_event (m_id m) ''late'' ''Monitor is late'' MetaEmpty now d1
     else with_transition (m_id m) ''down'' ''Monitor missed its deadline'' MetaEmpty now d1)"

definition streak_ok :: "monitor_row \<Rightarrow> bool" where
  "streak_ok m \<longleftrightarrow> m_state m = ''late'' \<longrightarrow> m_fail_streak m < max_int32"

lemma sched_row_keys [simp]: "keeps_keys (sched_row now)"
  by (simp add: keeps_keys_def sched_row_def)

lemma evaluateOne_quiet:
  assumes wf: "wf_db d" and m: "m \<in> set (monitors d)" and du: "due t m" and ok: "streak_ok m"
  shows "evaluateOne m res (quiet d now) =
    (Inr (if m_state m = ''up'' then res\<lparr>ToLate := ToLate res + 1\<rparr> else res\<lparr>ToDown := ToDown res + 1\<rparr>),
     quiet (sched_step now m d) now)"
proof -
  obtain dl where dl: "m_next_deadline m = Some dl" using du by (auto simp: due_def elim: null_less_SomeE)
  have only: "r = m" if "r \<in> set (monitors d)" "m_id r = m_id m" for r
    using wf_db_monitor_unique [OF wf] m that by blast
  let ?sel = "\<lambda>r. m_id r = m_id m"
  let ?d1 = "d\<lparr>monitors := update_where ?sel (sched_row now) (monitors d)\<rparr>"
  have has: "has_monitor ?d1 (m_id m)" using m by (simp add: has_monitor_def update_where_ids)
  have chk: "monitor_checks m" "int32_range (m_fail_streak m)" using wf_db_monitor [OF wf m] by auto
  show ?thesis
  proof (cases "m_state m = ''up''")
    case True
    let ?f = "\<lambda>r. r\<lparr>m_state := ''late'', m_next_deadline := Some (dl + seconds_of (int_value (m_grace_s m))),
      m_updated_at := now\<rparr>"
    have "query (q_MarkMonitorLate (Some (dl + seconds_of (int_value (m_grace_s m)))) (m_id m)) (quiet d now)
        = (Inr (), quiet (d\<lparr>monitors := update_where ?sel ?f (monitors d)\<rparr>) now)"
    proof (rule query_exec_update, rule q_MarkMonitorLate_def)
      fix r assume "r \<in> set (monitors d)" "m_id r = m_id m"
      with only have "r = m" by blast
      with chk show "monitor_checks (?f r) \<and> int32_range (m_fail_streak (?f r))"
        by (simp add: monitor_checks_def)
    qed
    moreover have "update_where ?sel ?f (monitors d) = update_where ?sel (sched_row now) (monitors d)"
      by (rule update_where_cong) (use True dl in \<open>auto simp: sched_row_def dest!: only\<close>)
    ultimately show ?thesis using True has
      by (simp add: evaluateOne_def dl Let_def bind_def map_err_def ret_def recordEvent_def
          recordEventMeta_quiet sched_step_def)
  next
    case False
    then have late: "m_state m = ''late''" using du by (simp add: due_def)
    let ?f = "\<lambda>r. r\<lparr>m_state := ''down'', m_next_deadline := None, m_fail_streak := m_fail_streak r + 1,
      m_updated_at := now\<rparr>"
    have streak: "int32_range (m_fail_streak m + 1)"
      using chk(2) ok late by (simp add: int32_range_def streak_ok_def max_int32_def)
    have "query (q_MarkMonitorDown (m_id m)) (quiet d now)
        = (Inr (), quiet (d\<lparr>monitors := update_where ?sel ?f (monitors d)\<rparr>) now)"
    proof (rule query_exec_update, rule q_MarkMonitorDown_def)
      fix r assume "r \<in> set (monitors d)" "m_id r = m_id m"
      with only have "r = m" by blast
      with chk streak show "monitor_checks (?f r) \<and> int32_range (m_fail_streak (?f r))"
        by (simp add: monitor_checks_def)
    qed
    moreover have "update_where ?sel ?f (monitors d) = update_where ?sel (sched_row now) (monitors d)"
      by (rule update_where_cong) (use late in \<open>auto simp: sched_row_def dest!: only\<close>)
    ultimately show ?thesis using late has
      by (simp add: evaluateOne_def dl bind_def map_err_def ret_def recordTransition_quiet sched_step_def)
  qed
qed

definition eval_result :: "monitor_row list \<Rightarrow> EvalResult" where
  "eval_result ms = \<lparr>Claimed = length ms, ToLate = length (filter (\<lambda>m. m_state m = ''up'') ms),
     ToDown = length (filter (\<lambda>m. m_state m \<noteq> ''up'') ms)\<rparr>"

lemma sched_step_monitors [simp]:
  "monitors (sched_step now m d) = update_where (\<lambda>r. m_id r = m_id m) (sched_row now) (monitors d)"
  by (simp add: sched_step_def Let_def)

lemma sched_step_wf:
  assumes "wf_db d" and "m \<in> set (monitors d)" and "due t m" and "streak_ok m"
  shows "wf_db (sched_step now m d)"
  using evaluateOne_rules(3) [of m undefined] evaluateOne_quiet [OF assms, of undefined now] assms(1)
  unfolding keeps_all_def by (metis sess.select_convs(1) snd_conv)

lemma evaluateAll_quiet:
  assumes "wf_db d" and "distinct (map m_id ms)"
    and "\<And>m. m \<in> set ms \<Longrightarrow> m \<in> set (monitors d) \<and> due t m \<and> streak_ok m"
  shows "evaluateAll ms res (quiet d now) =
    (Inr (res\<lparr>ToLate := ToLate res + ToLate (eval_result ms), ToDown := ToDown res + ToDown (eval_result ms)\<rparr>),
     quiet (fold (sched_step now) ms d) now)"
  using assms
proof (induction ms arbitrary: d res)
  case Nil
  then show ?case by (simp add: ret_def eval_result_def)
next
  case (Cons m ms)
  have m: "m \<in> set (monitors d)" "due t m" "streak_ok m" using Cons.prems(3) [of m] by auto
  have wf: "wf_db (sched_step now m d)" using Cons.prems(1) m by (rule sched_step_wf)
  have "x \<in> set (monitors (sched_step now m d)) \<and> due t x \<and> streak_ok x" if "x \<in> set ms" for x
  proof -
    have "m_id x \<noteq> m_id m" using Cons.prems(2) that by (auto simp: image_iff)
    with Cons.prems(3) [of x] that show ?thesis by (auto simp: update_where_set image_iff)
  qed
  from Cons.IH [OF wf _ this] Cons.prems(2) show ?case
    by (auto simp: bind_def evaluateOne_quiet [OF Cons.prems(1) m] eval_result_def)
qed

lemma evaluateBody_quiet:
  assumes "wf_db d" and "0 \<le> limit"
    and "\<And>m. m \<in> set (claimed locked t limit d) \<Longrightarrow> streak_ok m"
  shows "evaluateBody locked t limit (quiet d now) =
    (Inr (eval_result (claimed locked t limit d)),
     quiet (fold (sched_step now) (claimed locked t limit d) d) now)"
proof -
  have c: "m \<in> set (monitors d) \<and> due t m \<and> streak_ok m" if "m \<in> set (claimed locked t limit d)" for m
    using claimed_member that assms(3) by blast
  show ?thesis
    by (simp add: evaluateBody_def bind_def map_err_def query_quiet ClaimDueMonitors_claimed assms(2)
        evaluateAll_quiet [OF assms(1) claimed_distinct [OF assms(1)] c]) (simp add: eval_result_def)
qed

lemma fold_sched_monitors:
  "distinct (map m_id ms) \<Longrightarrow> monitors (fold (sched_step now) ms d) =
     map (\<lambda>r. if m_id r \<in> m_id ` set ms then sched_row now r else r) (monitors d)"
proof (induction ms arbitrary: d)
  case (Cons m ms)
  have k: "m_id (sched_row now r) = m_id r" for r by (simp add: sched_row_def)
  from Cons show ?case by (auto simp: update_where_def k)
qed simp

definition sched_event_type :: "monitor_row \<Rightarrow> string" where
  "sched_event_type m = (if m_state m = ''up'' then ''late'' else ''down'')"

lemma fold_sched_events:
  "map (\<lambda>e. (e_monitor_id e, e_type e)) (events (fold (sched_step now) ms d)) =
     map (\<lambda>e. (e_monitor_id e, e_type e)) (events d) @ map (\<lambda>m. (m_id m, sched_event_type m)) ms"
  by (induction ms arbitrary: d)
     (auto simp: sched_step_def Let_def with_event_def with_transition_def with_alert_def bump_defs
        sched_event_type_def)

lemma fold_sched_alerts:
  "map (\<lambda>a. (a_monitor_id a, a_status a, a_is_reminder a)) (alerts (fold (sched_step now) ms d)) =
     map (\<lambda>a. (a_monitor_id a, a_status a, a_is_reminder a)) (alerts d) @
     map (\<lambda>m. (m_id m, ''pending'', False)) (filter (\<lambda>m. m_state m \<noteq> ''up'') ms)"
  by (induction ms arbitrary: d)
     (auto simp: sched_step_def Let_def with_event_def with_transition_def with_alert_def bump_defs
        new_alert_def)

lemma fold_sched_rest:
  "checkins (fold (sched_step now) ms d) = checkins d \<and> users (fold (sched_step now) ms d) = users d \<and>
   probe_results (fold (sched_step now) ms d) = probe_results d"
  by (induction ms arbitrary: d) (auto simp: sched_step_def Let_def)

lemma EvaluateDueMonitors_quiet:
  assumes "wf_db d" and "0 \<le> limit"
    and "\<And>m. m \<in> set (claimed locked t limit d) \<Longrightarrow> streak_ok m"
  shows "EvaluateDueMonitors locked t limit (quiet d now) =
    (Inr (eval_result (claimed locked t limit d)),
     quiet (fold (sched_step now) (claimed locked t limit d) d) now)"
  by (simp add: EvaluateDueMonitors_def withTx_unfold evaluateBody_quiet [OF assms])

text \<open>
  C4. An evaluation moves exactly the claimed monitors one step, up to late (its deadline
  becomes the missed occurrence plus grace) and late to down (no deadline, streak plus one);
  it appends one event per claimed monitor, and one pending outbox row per monitor that went
  down and none for one that went late; the returned counters are those numbers.
\<close>

theorem EvaluateDueMonitors_effect:
  assumes "wf_db d" and "0 \<le> limit"
    and "\<And>m. m \<in> set (claimed locked t limit d) \<Longrightarrow> streak_ok m"
  shows "\<exists>res d' C. EvaluateDueMonitors locked t limit (quiet d now) = (Inr res, quiet d' now) \<and>
    C = claimed locked t limit d \<and>
    monitors d' = map (\<lambda>r. if m_id r \<in> m_id ` set C then sched_row now r else r) (monitors d) \<and>
    map (\<lambda>e. (e_monitor_id e, e_type e)) (events d') =
      map (\<lambda>e. (e_monitor_id e, e_type e)) (events d) @ map (\<lambda>m. (m_id m, sched_event_type m)) C \<and>
    map (\<lambda>a. (a_monitor_id a, a_status a, a_is_reminder a)) (alerts d') =
      map (\<lambda>a. (a_monitor_id a, a_status a, a_is_reminder a)) (alerts d) @
      map (\<lambda>m. (m_id m, ''pending'', False)) (filter (\<lambda>m. m_state m \<noteq> ''up'') C) \<and>
    checkins d' = checkins d \<and> users d' = users d \<and> probe_results d' = probe_results d \<and>
    Claimed res = length C \<and> ToLate res = length (filter (\<lambda>m. m_state m = ''up'') C) \<and>
    ToDown res = length (filter (\<lambda>m. m_state m \<noteq> ''up'') C)"
  using EvaluateDueMonitors_quiet [OF assms, where now = now] fold_sched_monitors [OF claimed_distinct [OF assms(1)]]
    fold_sched_events fold_sched_alerts fold_sched_rest by (simp add: eval_result_def)

lemma demo_claimed: "claimed (\<lambda>_. False) 100 500 demo_db = [demo_monitor]"
  by (simp add: claimed_def demo_db_def due_def demo_monitor_def)

theorem EvaluateDueMonitors_effect_witness:
  "run_res (EvaluateDueMonitors (\<lambda>_. False) 100 500) 0 [] demo_db =
     Inr \<lparr>Claimed = 1, ToLate = 1, ToDown = 0\<rparr>"
proof -
  obtain res d' C where "EvaluateDueMonitors (\<lambda>_. False) 100 500 (quiet demo_db 0) = (Inr res, quiet d' 0)"
    "C = claimed (\<lambda>_. False) 100 500 demo_db" "Claimed res = length C"
    "ToLate res = length (filter (\<lambda>m. m_state m = ''up'') C)"
    "ToDown res = length (filter (\<lambda>m. m_state m \<noteq> ''up'') C)"
    using EvaluateDueMonitors_effect [OF demo_db_wf, of 500 "\<lambda>_. False" 100 0]
    by (auto simp: demo_claimed streak_ok_def demo_monitor_def)
  then show ?thesis by (simp add: run_res_def demo_claimed) (simp add: demo_monitor_def)
qed

text \<open>
  Whatever the connection does, one evaluation is all or nothing, and it keeps the schema:
  the tables are as before, or every claimed monitor has moved with its event and outbox row.
\<close>

lemma EvaluateDueMonitors_atomic:
  assumes "wf_db d" and "0 \<le> limit"
    and "\<And>m. m \<in> set (claimed locked t limit d) \<Longrightarrow> streak_ok m"
  shows "wf_db (run_db (EvaluateDueMonitors locked t limit) now os d) \<and>
    (tables_kept d (run_db (EvaluateDueMonitors locked t limit) now os d) \<or>
     run_db (EvaluateDueMonitors locked t limit) now os d = fold (sched_step now) (claimed locked t limit d) d)"
proof -
  have "wf_db (run_db (EvaluateDueMonitors locked t limit) now os d)"
    using EvaluateDueMonitors_wf assms(1) by (rule keeps_all_run)
  moreover have "run_db (EvaluateDueMonitors locked t limit) now [] d =
      fold (sched_step now) (claimed locked t limit d) d"
    by (simp add: run_db_def EvaluateDueMonitors_quiet [OF assms])
  ultimately show ?thesis
    using withTx_atomic [OF evaluateBody_rules(1,2), of locked t limit now os d]
    by (auto simp: EvaluateDueMonitors_def)
qed

lemma EvaluateDueMonitors_atomic_witness:
  "wf_db (run_db (EvaluateDueMonitors (\<lambda>_. False) 100 500) 0 [Succeeds, Succeeds, FailsAfter] demo_db)"
  using EvaluateDueMonitors_atomic [OF demo_db_wf, of 500 "\<lambda>_. False" 100 0 "[Succeeds, Succeeds, FailsAfter]"]
  by (simp add: demo_claimed streak_ok_def demo_monitor_def)

section \<open>Detection\<close>

abbreviation nobody :: "uuid \<Rightarrow> bool" where
  "nobody \<equiv> \<lambda>_. False"

lemma claimed_all:
  assumes "length (monitors d) \<le> nat limit"
  shows "set (claimed nobody t limit d) = {m \<in> set (monitors d). due t m}"
proof -
  have "length (sort_key (\<lambda>m. the (m_next_deadline m)) (filter (due t) (monitors d))) \<le> nat limit"
    using assms le_trans [OF length_filter_le] by simp
  then show ?thesis by (simp add: claimed_def)
qed

lemma evaluate_all_monitors:
  assumes "wf_db d" and "int (length (monitors d)) \<le> limit"
    and "\<And>m. m \<in> set (monitors d) \<Longrightarrow> due t m \<Longrightarrow> streak_ok m"
  shows "monitors (run_db (EvaluateDueMonitors nobody t limit) now [] d) =
      map (\<lambda>r. if due t r then sched_row now r else r) (monitors d)"
    and "wf_db (run_db (EvaluateDueMonitors nobody t limit) now [] d)"
proof -
  let ?C = "claimed nobody t limit d"
  have C: "set ?C = {m \<in> set (monitors d). due t m}" using assms(2) by (intro claimed_all) simp
  have ok: "streak_ok m" if "m \<in> set ?C" for m using that C assms(3) by simp
  have "(m_id r \<in> m_id ` set ?C) = due t r" if "r \<in> set (monitors d)" for r
    using C that wf_db_monitor_unique [OF assms(1)] by (auto simp: image_iff)
  moreover have l: "0 \<le> limit" using assms(2) by simp
  ultimately show "monitors (run_db (EvaluateDueMonitors nobody t limit) now [] d) =
      map (\<lambda>r. if due t r then sched_row now r else r) (monitors d)"
    by (simp add: run_db_def EvaluateDueMonitors_quiet [OF assms(1) l ok]
        fold_sched_monitors [OF claimed_distinct [OF assms(1)]])
  show "wf_db (run_db (EvaluateDueMonitors nobody t limit) now [] d)"
    using EvaluateDueMonitors_wf assms(1) by (rule keeps_all_run)
qed

lemma sched_row_settles:
  assumes "due t r"
  shows "due t (sched_row now r) \<Longrightarrow> \<not> due t (sched_row now' (sched_row now r))"
    and "due t (sched_row now r) \<longleftrightarrow> m_state r = ''up'' \<and>
      the (m_next_deadline r) + seconds_of (int_value (m_grace_s r)) < t"
  using assms by (auto simp: due_def sched_row_def)

lemma two_ticks_monitors:
  assumes "wf_db d" and "int (length (monitors d)) \<le> limit"
    and "\<And>m. m \<in> set (monitors d) \<Longrightarrow> m_fail_streak m < max_int32"
    and "d1 = run_db (EvaluateDueMonitors nobody t limit) now1 [] d"
    and "d2 = run_db (EvaluateDueMonitors nobody t limit) now2 [] d1"
  shows "monitors d2 = map (\<lambda>r. if due t r then
        (if due t (sched_row now1 r) then sched_row now2 (sched_row now1 r) else sched_row now1 r)
        else r) (monitors d)"
    and "r \<in> set (monitors d2) \<Longrightarrow> \<not> due t r"
proof -
  have m1: "monitors d1 = map (\<lambda>r. if due t r then sched_row now1 r else r) (monitors d)" and wf1: "wf_db d1"
    unfolding assms(4) using evaluate_all_monitors [OF assms(1,2)] assms(3)
    by (simp_all add: streak_ok_def)
  have ok1: "streak_ok r" if "r \<in> set (monitors d1)" "due t r" for r
    using that assms(3) by (auto simp: m1 sched_row_def due_def streak_ok_def split: if_splits)
  have "monitors d2 = map (\<lambda>r. if due t r then sched_row now2 r else r) (monitors d1)"
    unfolding assms(5) using assms(2) m1 by (intro evaluate_all_monitors wf1 ok1) simp_all
  then show m2: "monitors d2 = map (\<lambda>r. if due t r then
        (if due t (sched_row now1 r) then sched_row now2 (sched_row now1 r) else sched_row now1 r)
        else r) (monitors d)"
    by (simp add: m1)
  show "\<not> due t r" if "r \<in> set (monitors d2)"
    using that sched_row_settles(1) by (auto simp: m2 split: if_splits)
qed

text \<open>
  C7. A missed deadline is detected within two ticks: after two evaluations at an instant t
  that reach every monitor, no monitor is due at t, and every monitor whose occurrence and
  grace had both passed by t is down, whether it was up or already late.
\<close>

theorem two_ticks_settle:
  assumes "wf_db d" and "int (length (monitors d)) \<le> limit"
    and "\<And>m. m \<in> set (monitors d) \<Longrightarrow> m_fail_streak m < max_int32"
    and "d1 = run_db (EvaluateDueMonitors nobody t limit) now1 [] d"
    and "d2 = run_db (EvaluateDueMonitors nobody t limit) now2 [] d1"
    and "m \<in> set (monitors d)" and "due t m"
    and "m_state m = ''late'' \<or> the (m_next_deadline m) + seconds_of (int_value (m_grace_s m)) < t"
  shows "claimed nobody t limit d2 = [] \<and>
    (\<exists>m2 \<in> set (monitors d2). m_id m2 = m_id m \<and> m_state m2 = ''down'' \<and> m_next_deadline m2 = None)"
proof -
  note m2 = two_ticks_monitors(1) [OF assms(1-5)] and settled = two_ticks_monitors(2) [OF assms(1-5)]
  have "set (claimed nobody t limit d2) = {m \<in> set (monitors d2). due t m}"
    using assms(2) by (intro claimed_all) (simp add: m2)
  also have "\<dots> = {}" by (simp add: settled)
  finally have "claimed nobody t limit d2 = []" by simp
  moreover have "\<exists>m2 \<in> set (monitors d2). m_id m2 = m_id m \<and> m_state m2 = ''down'' \<and> m_next_deadline m2 = None"
  proof
    let ?m2 = "if due t (sched_row now1 m) then sched_row now2 (sched_row now1 m) else sched_row now1 m"
    show "?m2 \<in> set (monitors d2)" using assms(6,7) by (auto simp: m2 image_iff intro!: bexI [of _ m])
    have st: "m_state m = ''up'' \<or> m_state m = ''late''" using assms(7) by (auto simp: due_def)
    show "m_id ?m2 = m_id m \<and> m_state ?m2 = ''down'' \<and> m_next_deadline ?m2 = None"
      using st assms(7,8) by (auto simp: due_def sched_row_def)
  qed
  ultimately show ?thesis by blast
qed

theorem two_ticks_settle_witness:
  "\<exists>m2 \<in> set (monitors (run_db (EvaluateDueMonitors nobody (Hour) 500) 2 []
      (run_db (EvaluateDueMonitors nobody (Hour) 500) 1 [] demo_db))). m_state m2 = ''down''"
  using two_ticks_settle [OF demo_db_wf _ _ refl refl, of 500 demo_monitor Hour 2 1]
  by (auto simp: demo_db_def demo_monitor_def max_int32_def due_def duration_units seconds_of_def
      int64_range_def int_value_def)

end
