(* ===== verification/Probe.thy ===== *)
theory Probe
  imports Prober Http "HOL-Library.Word"
begin

text \<open>
  One probe of an http monitor: src/backend/worker/prober/probe.go. The addresses of package
  net/netip are 32-bit and 128-bit words; the guard decides which of them the prober may connect
  to. The DNS resolver, the text syntax of addresses, the HTTP exchange and the JSON decoder are
  arguments.
\<close>

unbundle bit_operations_syntax

section \<open>Addresses\<close>

text \<open>An IPv6 address carries a zone, the empty string for none.\<close>

datatype addr = V4 "32 word" | V6 "128 word" string

fun Is4In6 :: "addr \<Rightarrow> bool" where
  "Is4In6 (V6 a _) = (drop_bit 32 a = 0xffff)"
| "Is4In6 (V4 _) = False"

fun Unmap :: "addr \<Rightarrow> addr" where
  "Unmap (V6 a z) = (if Is4In6 (V6 a z) then V4 (ucast a) else V6 a z)"
| "Unmap (V4 a) = V4 a"

text \<open>The k-th byte of an IPv4 address and the leading 16 bits of an IPv6 address.\<close>

definition v4 :: "32 word \<Rightarrow> nat \<Rightarrow> 32 word" where
  "v4 a k = drop_bit (24 - 8 * k) a AND 0xff"

definition v6u16_0 :: "128 word \<Rightarrow> 128 word" where
  "v6u16_0 a = drop_bit 112 a"

definition v6_0 :: "128 word \<Rightarrow> 128 word" where
  "v6_0 a = drop_bit 120 a"

fun IsPrivate :: "addr \<Rightarrow> bool" where
  "IsPrivate (V4 a) = (v4 a 0 = 10 \<or> (v4 a 0 = 172 \<and> v4 a 1 AND 0xf0 = 16) \<or> (v4 a 0 = 192 \<and> v4 a 1 = 168))"
| "IsPrivate (V6 a _) = (v6_0 a AND 0xfe = 0xfc)"

fun IsLoopback :: "addr \<Rightarrow> bool" where
  "IsLoopback (V4 a) = (v4 a 0 = 127)"
| "IsLoopback (V6 a _) = (a = 1)"

fun IsLinkLocalUnicast :: "addr \<Rightarrow> bool" where
  "IsLinkLocalUnicast (V4 a) = (v4 a 0 = 169 \<and> v4 a 1 = 254)"
| "IsLinkLocalUnicast (V6 a _) = (v6u16_0 a AND 0xffc0 = 0xfe80)"

fun IsLinkLocalMulticast :: "addr \<Rightarrow> bool" where
  "IsLinkLocalMulticast (V4 a) = (v4 a 0 = 224 \<and> v4 a 1 = 0 \<and> v4 a 2 = 0)"
| "IsLinkLocalMulticast (V6 a _) = (v6u16_0 a AND 0xff0f = 0xff02)"

fun IsMulticast :: "addr \<Rightarrow> bool" where
  "IsMulticast (V4 a) = (v4 a 0 AND 0xf0 = 0xe0)"
| "IsMulticast (V6 a _) = (v6_0 a = 0xff)"

text \<open>Equality of addresses includes the zone.\<close>

definition IsUnspecified :: "addr \<Rightarrow> bool" where
  "IsUnspecified a \<longleftrightarrow> a = V4 0 \<or> a = V6 0 ''''"

definition IsGlobalUnicast :: "addr \<Rightarrow> bool" where
  "IsGlobalUnicast a \<longleftrightarrow> a \<noteq> V4 0 \<and> a \<noteq> V4 0xffffffff \<and> a \<noteq> V6 0 '''' \<and>
     \<not> IsLoopback a \<and> \<not> IsMulticast a \<and> \<not> IsLinkLocalUnicast a"

datatype prefix = P4 "32 word" nat | P6 "128 word" nat

text \<open>\<^verbatim>\<open>Prefix.Contains\<close>: families must agree, and a zoned address is in no prefix.\<close>

fun Contains :: "prefix \<Rightarrow> addr \<Rightarrow> bool" where
  "Contains (P4 p bits) (V4 a) = (drop_bit (32 - bits) (a XOR p) = 0)"
| "Contains (P6 p bits) (V6 a z) = (z = '''' \<and> drop_bit (128 - bits) (a XOR p) = 0)"
| "Contains _ _ = False"

section \<open>The guard\<close>

definition isBlockedAddr :: "addr \<Rightarrow> bool" where
  "isBlockedAddr a \<longleftrightarrow> IsPrivate a \<or> IsLoopback a \<or> IsLinkLocalUnicast a \<or> IsLinkLocalMulticast a \<or>
     IsMulticast a \<or> IsUnspecified a \<or> \<not> IsGlobalUnicast a"

text \<open>The resolver and the address syntax; \<open>AddrString\<close> is \<^verbatim>\<open>Addr.String\<close>.\<close>

record netlib =
  ParseAddrNet :: "string \<Rightarrow> addr option"
  LookupNetIP :: "string \<Rightarrow> string \<Rightarrow> string + addr list"
  AddrString :: "addr \<Rightarrow> string"

definition disallowed :: "netlib \<Rightarrow> addr \<Rightarrow> string" where
  "disallowed N a = ''prober: target resolves to a disallowed address ('' @ AddrString N a @ '')''"

definition guardAddr :: "netlib \<Rightarrow> addr \<Rightarrow> prefix list \<Rightarrow> string + addr" where
  "guardAddr N a allowlist =
    (let a' = Unmap a in
     if list_ex (\<lambda>p. Contains p a') allowlist then Inr a'
     else if isBlockedAddr a' then Inl (disallowed N a') else Inr a')"

definition netipNetwork :: "string \<Rightarrow> string" where
  "netipNetwork network =
    (if network \<noteq> '''' \<and> last network = CHR ''4'' then ''ip4''
     else if network \<noteq> '''' \<and> last network = CHR ''6'' then ''ip6'' else ''ip'')"

definition resolveAndGuard :: "netlib \<Rightarrow> string \<Rightarrow> string \<Rightarrow> prefix list \<Rightarrow> string + addr" where
  "resolveAndGuard N network host allowlist =
    (case ParseAddrNet N host of
       Some a \<Rightarrow> guardAddr N a allowlist
     | None \<Rightarrow>
         (case LookupNetIP N (netipNetwork network) host of
            Inl e \<Rightarrow> Inl (''prober: dns lookup failed: '' @ e)
          | Inr [] \<Rightarrow> Inl ''prober: dns lookup returned no addresses''
          | Inr (a # _) \<Rightarrow> guardAddr N a allowlist))"

text \<open>The address and port that \<open>guardedDial\<close> hands to the dialer.\<close>

definition guardedDial :: "netlib \<Rightarrow> prefix list \<Rightarrow> string \<Rightarrow> string \<Rightarrow> string + (addr \<times> string)" where
  "guardedDial N allowlist network address =
    (case SplitHostPort address of
       None \<Rightarrow> Inl ''prober: split host:port''
     | Some (host, port) \<Rightarrow>
         (case resolveAndGuard N network host allowlist of Inl e \<Rightarrow> Inl e | Inr ip \<Rightarrow> Inr (ip, port)))"

definition maxRedirects :: nat where
  "maxRedirects = 5"

datatype redirect_decision = FollowRedirect | UseLastResponse | StopRedirect string

definition CheckRedirect :: "bool \<Rightarrow> nat \<Rightarrow> redirect_decision" where
  "CheckRedirect followRedirects via =
    (if \<not> followRedirects then UseLastResponse
     else if via \<ge> maxRedirects then StopRedirect ''prober: stopped after 5 redirects''
     else FollowRedirect)"

section \<open>The probe\<close>

definition maxBodyBytes :: nat where
  "maxBodyBytes = 65536"

record httpConfig =
  hc_Headers :: "(string \<times> string) list"
  hc_Keyword :: string
  hc_KeywordNegate :: bool
  hc_FollowRedirects :: "bool option"

definition followRedirects :: "httpConfig \<Rightarrow> bool" where
  "followRedirects c = (case hc_FollowRedirects c of None \<Rightarrow> True | Some b \<Rightarrow> b)"

text \<open>\<open>unmarshal\<close> is \<^verbatim>\<open>json.Unmarshal\<close> into the struct, None for an error.\<close>

definition decodeHTTPConfig :: "(string \<Rightarrow> httpConfig option) \<Rightarrow> string \<Rightarrow> httpConfig option" where
  "decodeHTTPConfig unmarshal raw =
    (if raw = '''' then Some \<lparr>hc_Headers = [], hc_Keyword = '''', hc_KeywordNegate = False, hc_FollowRedirects = None\<rparr>
     else unmarshal raw)"

text \<open>What the classification looks at in an error of \<^verbatim>\<open>client.Do\<close>.\<close>

record doerror =
  is_DNSError :: bool
  is_CertificateVerificationError :: bool
  error_text :: string
  is_net_timeout :: bool
  is_DeadlineExceeded :: bool

definition probeError :: "doerror \<Rightarrow> string" where
  "probeError err =
    (if is_DNSError err then ''dns lookup failed''
     else if is_CertificateVerificationError err then ''tls certificate error''
     else if str_contains (error_text err) ''tls:'' \<or> str_contains (error_text err) ''x509:'' then ''tls handshake failed''
     else if str_contains (error_text err) ''disallowed address'' then ''target address not allowed''
     else if is_net_timeout err then ''request timed out''
     else if is_DeadlineExceeded err then ''request timed out''
     else ''request failed'')"

text \<open>
  The HTTP exchange: building the request fails, \<^verbatim>\<open>client.Do\<close> fails, or a response arrives with
  its status, the expiry dates of its certificate chain (None for plain http), and its body or a
  read error.
\<close>

datatype exchange = BadRequest | DoFailed doerror
  | Responded int "gotime list option" "string option"

definition leafCertExpiry :: "gotime list option \<Rightarrow> gotime option" where
  "leafCertExpiry state = (case state of Some (expiry # _) \<Rightarrow> Some expiry | _ \<Rightarrow> None)"

definition isSuccessStatus :: "int \<Rightarrow> bool" where
  "isSuccessStatus code \<longleftrightarrow> code \<ge> 200 \<and> code < 400"

definition latencyMS :: "duration \<Rightarrow> int" where
  "latencyMS d = (let ms = d sdiv Millisecond in if ms > max_int32 then max_int32 else wrap32 ms)"

definition runProbe :: "exchange \<Rightarrow> duration \<Rightarrow> httpConfig \<Rightarrow> probeResult" where
  "runProbe ex took cfg =
    (let none = \<lparr>ob_OK = False, ob_HTTPStatus = None, ob_LatencyMS = 0, ob_Error = '''', ob_TLSExpiresAt = None\<rparr>;
         timed = none\<lparr>ob_LatencyMS := latencyMS took\<rparr> in
     case ex of
       BadRequest \<Rightarrow> none\<lparr>ob_Error := ''invalid request''\<rparr>
     | DoFailed err \<Rightarrow> timed\<lparr>ob_Error := probeError err\<rparr>
     | Responded code tls body \<Rightarrow>
         (let r = timed\<lparr>ob_HTTPStatus := Some (wrap32 code), ob_TLSExpiresAt := leafCertExpiry tls\<rparr> in
          case body of
            None \<Rightarrow> r\<lparr>ob_Error := ''failed reading response body''\<rparr>
          | Some text \<Rightarrow>
              if \<not> isSuccessStatus code then r\<lparr>ob_Error := ''unexpected status '' @ show_int code\<rparr>
              else if hc_Keyword cfg \<noteq> '''' \<and> str_contains (take maxBodyBytes text) (hc_Keyword cfg) = hc_KeywordNegate cfg
                then r\<lparr>ob_Error := ''keyword assertion failed''\<rparr>
              else r\<lparr>ob_OK := True\<rparr>))"

text \<open>
  What \<open>probeOne\<close> observes of a monitor: nothing when its http_config does not decode, else the
  probe's result. \<open>exchange\<close> and \<open>took\<close> are what the network does with the configured request.
\<close>

definition observation ::
  "(string \<Rightarrow> httpConfig option) \<Rightarrow> (string \<Rightarrow> string \<Rightarrow> httpConfig \<Rightarrow> duration \<Rightarrow> exchange \<times> duration) \<Rightarrow> gotime \<Rightarrow>
     Monitor \<Rightarrow> (probeResult \<times> gotime) option" where
  "observation unmarshal net now m =
    (case decodeHTTPConfig unmarshal (mo_HTTPConfig m) of
       None \<Rightarrow> None
     | Some cfg \<Rightarrow>
         (let timeout = seconds_of (int32Or (mo_TimeoutS m) 10);
              meth = (if mo_Method m = '''' then ''GET'' else mo_Method m);
              (ex, took) = net meth (mo_URL m) cfg timeout in
          Some (runProbe ex took cfg, now)))"

section \<open>The guard as a list of ranges\<close>

text \<open>The ranges the guard refuses, as CIDR prefixes.\<close>

definition blocked_ranges :: "prefix list" where
  "blocked_ranges =
    [P4 0 32, P4 0x0a000000 8, P4 0x7f000000 8, P4 0xa9fe0000 16, P4 0xac100000 12, P4 0xc0a80000 16,
     P4 0xe0000000 4, P4 0xffffffff 32,
     P6 0 128, P6 1 128, P6 (push_bit 112 0xfc00) 7, P6 (push_bit 112 0xfe80) 10, P6 (push_bit 112 0xff00) 8]"

fun unzone :: "addr \<Rightarrow> addr" where
  "unzone (V6 a _) = V6 a ''''"
| "unzone (V4 a) = V4 a"

lemma xor_zero_iff: "(a XOR b = 0) \<longleftrightarrow> a = (b :: 'a::len word)"
proof
  assume "a XOR b = 0"
  then have "(a XOR b) XOR b = 0 XOR b" by simp
  then show "a = b" by (simp add: xor.assoc)
qed simp

lemma range_iff: "drop_bit n (a XOR p) = 0 \<longleftrightarrow> drop_bit n a = drop_bit n (p :: 'a::len word)"
  by (simp add: drop_bit_xor xor_zero_iff)

lemma and_window: "(x :: int) AND push_bit k (mask j) = (x div 2 ^ k mod 2 ^ j) * 2 ^ k"
proof -
  have "x AND push_bit k (mask j) = push_bit k (take_bit j (drop_bit k x))"
    by (rule bit_eqI) (auto simp: bit_simps)
  then show ?thesis by (simp add: push_bit_eq_mult take_bit_eq_mod drop_bit_eq_div)
qed

lemma window_values:
  "push_bit 4 (mask 4) = (0xf0 :: int)" "push_bit 1 (mask 7) = (0xfe :: int)" "push_bit 6 (mask 10) = (0xffc0 :: int)"
  "push_bit 8 (mask 8) = (0xff00 :: int)" "mask 8 = (0xff :: int)"
  by code_simp+

lemma powers_of_two:
  "(2 :: int) ^ 4 = 16" "(2 :: int) ^ 1 = 2" "(2 :: int) ^ 7 = 128" "(2 :: int) ^ 6 = 64" "(2 :: int) ^ 10 = 1024"
  "(2 :: int) ^ 8 = 256"
  by simp_all

lemma int_masks:
  "(x :: int) AND 0xff = x mod 256" "x AND 0xf0 = x div 16 mod 16 * 16" "x AND 0xfe = x div 2 mod 128 * 2"
  "x AND 0xffc0 = x div 64 mod 1024 * 64" "x AND 0xff00 = x div 256 mod 256 * 256"
proof -
  show "x AND 0xff = x mod 256"
    by (rule take_bit_eq_mask [of 8 x, unfolded window_values take_bit_eq_mod powers_of_two, symmetric])
  show "x AND 0xf0 = x div 16 mod 16 * 16" by (rule and_window [of x 4 4, unfolded window_values powers_of_two])
  show "x AND 0xfe = x div 2 mod 128 * 2" by (rule and_window [of x 1 7, unfolded window_values powers_of_two])
  show "x AND 0xffc0 = x div 64 mod 1024 * 64" by (rule and_window [of x 6 10, unfolded window_values powers_of_two])
  show "x AND 0xff00 = x div 256 mod 256 * 256" by (rule and_window [of x 8 8, unfolded window_values(4) powers_of_two])
qed

lemma uint_drop: "uint (drop_bit n w) = uint w div 2 ^ n"
proof -
  have "uint (drop_bit n w) = drop_bit n (uint w)"
    by (rule bit_eqI) (auto simp: bit_simps dest: bit_imp_le_length)
  then show ?thesis by (simp only: drop_bit_eq_div)
qed

lemma uint_parts: "uint (v4 a k) = uint a div 2 ^ (24 - 8 * k) mod 256"
  "uint (v6u16_0 b) = uint b div 2 ^ 112" "uint (v6_0 b) = uint b div 2 ^ 120"
proof -
  have "uint (0xff :: 32 word) = 0xff" by simp
  then show "uint (v4 a k) = uint a div 2 ^ (24 - 8 * k) mod 256"
    by (simp only: v4_def uint_and uint_drop int_masks)
qed (simp_all only: v6u16_0_def v6_0_def uint_drop)

lemma contains_uint:
  "Contains (P4 p n) (V4 a) \<longleftrightarrow> uint a div 2 ^ (32 - n) = uint p div 2 ^ (32 - n)"
  "Contains (P6 q n) (V6 b '''') \<longleftrightarrow> uint b div 2 ^ (128 - n) = uint q div 2 ^ (128 - n)"
  unfolding Contains.simps range_iff by (simp_all only: word_uint_eq_iff uint_drop simp_thms)

text \<open>The two leading bytes of an IPv4 address decide every range but the two single addresses.\<close>

lemma div_steps:
  fixes i :: int
  shows "i div 16777216 = i div 65536 div 256" "i div 1048576 = i div 65536 div 16" "i div 268435456 = i div 65536 div 4096"
  by (simp_all add: zdiv_zmult2_eq [symmetric])

lemma div_mod_iff:
  fixes r :: int
  assumes "0 \<le> b" "b < m"
  shows "r div m = a \<and> r mod m = b \<longleftrightarrow> r = a * m + b"
proof
  show "r = a * m + b" if "r div m = a \<and> r mod m = b" using div_mult_mod_eq [of r m] that by simp
  show "r div m = a \<and> r mod m = b" if "r = a * m + b" using assms that by simp
qed

lemma v4_ranges:
  fixes q :: int
  assumes "0 \<le> q" "q < 65536"
  shows "q div 256 mod 256 = q div 256" "q div 256 = 172 \<and> q mod 256 div 16 mod 16 * 16 = 16 \<longleftrightarrow> q div 16 = 2753"
    "q div 256 = 192 \<and> q mod 256 = 168 \<longleftrightarrow> q = 49320" "q div 256 = 169 \<and> q mod 256 = 254 \<longleftrightarrow> q = 43518"
    "q div 256 div 16 mod 16 * 16 = 224 \<longleftrightarrow> q div 4096 = 14" "q div 256 = 224 \<Longrightarrow> q div 4096 = 14"
proof -
  show "q div 256 mod 256 = q div 256" using assms by (intro mod_pos_pos_trivial) linarith+
  have "q mod 256 = 16 * (q div 16 mod 16) + q mod 16" using zmod_zmult2_eq [of 16 q 16] by simp
  then have mods: "q mod 256 div 16 mod 16 = q div 16 mod 16" by simp
  have divs: "q div 256 = q div 16 div 16" by (simp add: zdiv_zmult2_eq [symmetric])
  from div_mod_iff [of 1 16 "q div 16" 172]
  show "q div 256 = 172 \<and> q mod 256 div 16 mod 16 * 16 = 16 \<longleftrightarrow> q div 16 = 2753"
    unfolding mods divs by simp
  show "q div 256 = 192 \<and> q mod 256 = 168 \<longleftrightarrow> q = 49320" "q div 256 = 169 \<and> q mod 256 = 254 \<longleftrightarrow> q = 43518"
    by (simp_all add: div_mod_iff)
  have "q div 256 div 16 = q div 4096" by (simp add: zdiv_zmult2_eq [symmetric])
  moreover have "q div 4096 mod 16 = q div 4096" using assms by (intro mod_pos_pos_trivial) linarith+
  ultimately show "q div 256 div 16 mod 16 * 16 = 224 \<longleftrightarrow> q div 4096 = 14" by auto
  show "q div 256 = 224 \<Longrightarrow> q div 4096 = 14" by linarith
qed

lemma blocked_v4: "isBlockedAddr (V4 a) \<longleftrightarrow> list_ex (\<lambda>p. Contains p (V4 a)) blocked_ranges"
proof -
  define i where "i = uint a"
  define q where "q = i div 65536"
  have i: "0 \<le> i" "i < 4294967296" using uint_lt2p [of a] by (simp_all add: i_def)
  then have q: "0 \<le> q" "q < 65536" by (simp_all add: q_def)
  have v: "v4 a 0 = c \<longleftrightarrow> q div 256 = uint c" "v4 a 1 = c \<longleftrightarrow> q mod 256 = uint c"
    "v4 a 0 AND 0xf0 = c \<longleftrightarrow> q div 256 div 16 mod 16 * 16 = uint c"
    "v4 a 1 AND 0xf0 = c \<longleftrightarrow> q mod 256 div 16 mod 16 * 16 = uint c" for c
    by (simp_all only: word_uint_eq_iff uint_and uint_parts) (simp_all add: i_def [symmetric] div_steps q_def [symmetric] int_masks v4_ranges [OF q])
  have r: "Contains (P4 p 8) (V4 a) \<longleftrightarrow> q div 256 = uint p div 16777216"
    "Contains (P4 p 12) (V4 a) \<longleftrightarrow> q div 16 = uint p div 1048576"
    "Contains (P4 p 16) (V4 a) \<longleftrightarrow> q = uint p div 65536" "Contains (P4 p 4) (V4 a) \<longleftrightarrow> q div 4096 = uint p div 268435456"
    "Contains (P4 p 32) (V4 a) \<longleftrightarrow> a = p" for p
    unfolding contains_uint by (simp_all add: i_def [symmetric] div_steps [of i] q_def [symmetric] word_uint_eq_iff)
  have lhs: "isBlockedAddr (V4 a) \<longleftrightarrow> q div 256 = 10 \<or> (q div 256 = 172 \<and> q mod 256 div 16 mod 16 * 16 = 16) \<or>
      (q div 256 = 192 \<and> q mod 256 = 168) \<or> q div 256 = 127 \<or> (q div 256 = 169 \<and> q mod 256 = 254) \<or>
      (q div 256 = 224 \<and> q mod 256 = 0 \<and> v4 a 2 = 0) \<or> q div 256 div 16 mod 16 * 16 = 224 \<or> a = 0 \<or> a = 0xffffffff"
    unfolding isBlockedAddr_def IsPrivate.simps IsLoopback.simps IsLinkLocalUnicast.simps IsLinkLocalMulticast.simps
      IsMulticast.simps IsUnspecified_def IsGlobalUnicast_def v addr.inject
    by (simp only: addr.distinct) (simp, argo)
  have rhs: "list_ex (\<lambda>p. Contains p (V4 a)) blocked_ranges \<longleftrightarrow> a = 0 \<or> q div 256 = 10 \<or> q div 256 = 127 \<or>
      q = 43518 \<or> q div 16 = 2753 \<or> q = 49320 \<or> q div 4096 = 14 \<or> a = 0xffffffff"
    by (simp add: blocked_ranges_def r del: Contains.simps(1))
  show ?thesis unfolding lhs rhs v4_ranges(2-5) [OF q] using v4_ranges(6) [OF q] by argo
qed

lemma low_high: "0xff0f AND 0xff00 = (0xff00 :: int)" and high: "0xff02 AND 0xff00 = (0xff00 :: int)"
  by code_simp+

lemma v6_ranges:
  fixes q :: int
  assumes "0 \<le> q" "q < 65536"
  shows "q div 256 div 2 mod 128 * 2 = 252 \<longleftrightarrow> q div 512 = 126" "q div 64 mod 1024 * 64 = 65152 \<longleftrightarrow> q div 64 = 1018"
    "q AND 0xff0f = 0xff02 \<Longrightarrow> q div 256 = 255"
proof -
  have "q div 256 div 2 = q div 512" by (simp add: zdiv_zmult2_eq [symmetric])
  moreover have "q div 512 mod 128 = q div 512" using assms by (intro mod_pos_pos_trivial) linarith+
  ultimately show "q div 256 div 2 mod 128 * 2 = 252 \<longleftrightarrow> q div 512 = 126" by auto
  have "q div 64 mod 1024 = q div 64" using assms by (intro mod_pos_pos_trivial) linarith+
  then show "q div 64 mod 1024 * 64 = 65152 \<longleftrightarrow> q div 64 = 1018" by auto
  assume "q AND 0xff0f = 0xff02"
  then have "(q AND 0xff0f) AND 0xff00 = 0xff02 AND 0xff00" by (rule arg_cong)
  moreover have "(q AND 0xff0f) AND 0xff00 = q AND 0xff00" by (subst and.assoc) (simp only: low_high)
  ultimately have "q AND 0xff00 = 0xff00" unfolding high by metis
  then have "q div 256 mod 256 * 256 = 0xff00" by (simp only: int_masks)
  moreover have "q div 256 mod 256 = q div 256" using assms by (intro mod_pos_pos_trivial) linarith+
  ultimately show "q div 256 = 255" by simp
qed

lemma blocked_v6: "isBlockedAddr (V6 b z) \<longleftrightarrow> list_ex (\<lambda>p. Contains p (V6 b '''')) blocked_ranges \<and> \<not> (b = 0 \<and> z \<noteq> '''')"
proof -
  define j where "j = uint b"
  define q where "q = j div 2 ^ 112"
  have j: "0 \<le> j" "j < 2 ^ 128" using uint_lt2p [of b] by (simp_all add: j_def)
  then have q: "0 \<le> q" "q < 65536" by (simp_all add: q_def)
  have steps: "j div 2 ^ 120 = q div 256" "j div 2 ^ 121 = q div 512" "j div 2 ^ 118 = q div 64"
    by (simp_all add: q_def zdiv_zmult2_eq [symmetric])
  have v: "v6_0 b = c \<longleftrightarrow> q div 256 = uint c" "v6_0 b AND 0xfe = c \<longleftrightarrow> q div 256 div 2 mod 128 * 2 = uint c"
    "v6u16_0 b AND 0xffc0 = c \<longleftrightarrow> q div 64 mod 1024 * 64 = uint c"
    "v6u16_0 b AND 0xff0f = c \<longleftrightarrow> q AND 0xff0f = uint c" for c
    by (simp_all only: word_uint_eq_iff uint_and uint_parts j_def [symmetric] steps q_def [symmetric])
      (simp_all add: int_masks)
  have r: "Contains (P6 p 7) (V6 b '''') \<longleftrightarrow> q div 512 = uint p div 2 ^ 121"
    "Contains (P6 p 10) (V6 b '''') \<longleftrightarrow> q div 64 = uint p div 2 ^ 118"
    "Contains (P6 p 8) (V6 b '''') \<longleftrightarrow> q div 256 = uint p div 2 ^ 120"
    "Contains (P6 p 128) (V6 b '''') \<longleftrightarrow> b = p" for p
    unfolding contains_uint by (simp_all add: j_def [symmetric] steps [simplified] word_uint_eq_iff)
  have lhs: "isBlockedAddr (V6 b z) \<longleftrightarrow> q div 256 div 2 mod 128 * 2 = 252 \<or> b = 1 \<or> q div 64 mod 1024 * 64 = 65152 \<or>
      q AND 0xff0f = 0xff02 \<or> q div 256 = 255 \<or> (b = 0 \<and> z = '''')"
    unfolding isBlockedAddr_def IsPrivate.simps IsLoopback.simps IsLinkLocalUnicast.simps IsLinkLocalMulticast.simps
      IsMulticast.simps IsUnspecified_def IsGlobalUnicast_def v addr.inject
    by (simp only: addr.distinct) (simp, argo)
  have rhs: "list_ex (\<lambda>p. Contains p (V6 b '''')) blocked_ranges \<longleftrightarrow> b = 0 \<or> b = 1 \<or> q div 512 = 126 \<or>
      q div 64 = 1018 \<or> q div 256 = 255"
    by (simp add: blocked_ranges_def r del: Contains.simps(2))
  have zero: "b = 0 \<Longrightarrow> q = 0" by (simp add: q_def j_def)
  show ?thesis unfolding lhs rhs v6_ranges(1,2) [OF q] using v6_ranges(3) [OF q] zero by auto
qed

text \<open>
  C12. The guard of the prober is a fixed list of address ranges. An address (IPv4-mapped
  addresses count as IPv4) that lies in an allowlisted prefix is accepted; otherwise it is
  refused exactly when it lies in one of the private, loopback, link-local, multicast,
  unspecified and broadcast ranges of \<open>blocked_ranges\<close>, with one exception: the unspecified IPv6
  address with a zone, such as \<open>::%eth0\<close>, is accepted.
\<close>

theorem guard_ranges:
  "guardAddr N a allowlist =
    (let b = Unmap a in
     if list_ex (\<lambda>p. Contains p b) allowlist then Inr b
     else if list_ex (\<lambda>p. Contains p (unzone b)) blocked_ranges \<and> (\<nexists>z. z \<noteq> '''' \<and> b = V6 0 z)
       then Inl (disallowed N b)
     else Inr b)"
proof -
  have "isBlockedAddr b \<longleftrightarrow> list_ex (\<lambda>p. Contains p (unzone b)) blocked_ranges \<and> (\<nexists>z. z \<noteq> '''' \<and> b = V6 0 z)" for b
    by (cases b) (auto simp only: blocked_v4 blocked_v6 unzone.simps addr.inject addr.distinct)
  then show ?thesis by (simp add: guardAddr_def Let_def)
qed

lemma guardAddr_ok: "guardAddr N a allowlist = Inr ip \<Longrightarrow> list_ex (\<lambda>p. Contains p ip) allowlist \<or> \<not> isBlockedAddr ip"
  by (auto simp: guardAddr_def Let_def split: if_splits)

text \<open>
  C34. Whatever a target or a redirect names and whatever the resolver answers, the address handed
  to the dialer is in an allowlisted prefix or is not blocked: the check is made on the very
  address that is dialed, not on the name.
\<close>

theorem dial_guarded:
  assumes "guardedDial N allowlist network address = Inr (ip, port)"
  shows "list_ex (\<lambda>p. Contains p ip) allowlist \<or> \<not> isBlockedAddr ip"
proof -
  obtain host where "resolveAndGuard N network host allowlist = Inr ip"
    using assms by (auto simp: guardedDial_def split: option.splits sum.splits)
  then show ?thesis
    by (auto simp: resolveAndGuard_def split: option.splits sum.splits list.splits dest!: guardAddr_ok)
qed

definition demo_net :: netlib where
  "demo_net = \<lparr>ParseAddrNet = (\<lambda>s. if s = ''::%lo'' then Some (V6 0 ''lo'') else if s = ''8.8.8.8'' then Some (V4 0x08080808) else None),
     LookupNetIP = (\<lambda>_ h. if h = ''metadata'' then Inr [V4 0xa9fea9fe] else Inl ''no such host''), AddrString = (\<lambda>_. '''')\<rparr>"

theorem dial_guarded_witness:
  "guardedDial demo_net [] ''tcp'' ''8.8.8.8:443'' = Inr (V4 0x08080808, ''443'') \<and> \<not> isBlockedAddr (V4 0x08080808)"
proof -
  have "guardedDial demo_net [] ''tcp'' ''8.8.8.8:443'' = Inr (V4 0x08080808, ''443'')" by code_simp
  with dial_guarded [OF this] show ?thesis by simp
qed

text \<open>The metadata address is refused, also behind a name; the zoned unspecified address is not.\<close>

lemma guard_examples:
  "guardedDial demo_net [] ''tcp'' ''metadata:80'' = Inl (disallowed demo_net (V4 0xa9fea9fe))"
  "guardedDial demo_net [] ''tcp'' ''[::%lo]:80'' = Inr (V6 0 ''lo'', ''80'')"
  by code_simp+

section \<open>Results\<close>

lemma latencyMS_range: "0 \<le> d \<Longrightarrow> 0 \<le> latencyMS d \<and> latencyMS d \<le> max_int32"
proof -
  assume "0 \<le> d"
  then have ms: "d sdiv Millisecond = d div 1000000" by (simp add: signed_divide_int_def Millisecond_def sgn_if)
  have "0 \<le> d div 1000000" using \<open>0 \<le> d\<close> by simp
  then show ?thesis
    by (auto simp: latencyMS_def Let_def ms max_int32_def int32_range_def intro!: wrap32_id [THEN eq_refl] split: if_splits)
qed

end
