(* ===== verification/Workers.thy ===== *)
theory Workers
  imports Scheduler Alerter Probe
begin

text \<open>
  The loop the background workers run on and their liveness heartbeat (src/backend/worker), the
  skewable clock of the end-to-end build (src/backend/internal/testclock) and the endpoint that
  advances it (src/backend/server/testclock.go).
\<close>

section \<open>The worker loop\<close>

definition jitter :: "(duration \<Rightarrow> duration) \<Rightarrow> duration \<Rightarrow> duration" where
  "jitter Int64N mx = (if mx \<le> 0 then 0 else Int64N mx)"

text \<open>
  One turn of the \<^verbatim>\<open>select\<close>: the context is done, or the timer fires. The tick and the heartbeat
  act on the state of the environment; the loop logs a tick error and goes on. The second result
  lists the delays the timer is reset to.
\<close>

datatype turn = CtxDone | TimerFires

record 's worker_config =
  wc_Interval :: duration
  wc_Jitter :: duration
  wc_Tick :: "'s \<Rightarrow> gerror option \<times> 's"
  wc_Heartbeat :: "'s \<Rightarrow> 's"

fun worker_Run :: "(nat \<Rightarrow> duration \<Rightarrow> duration) \<Rightarrow> 's worker_config \<Rightarrow> turn list \<Rightarrow> 's \<Rightarrow> 's \<times> duration list" where
  "worker_Run rand cfg [] s = (s, [])"
| "worker_Run rand cfg (CtxDone # _) s = (s, [])"
| "worker_Run rand cfg (TimerFires # rest) s =
     (let (_, s1) = wc_Tick cfg s;
          s2 = wc_Heartbeat cfg s1;
          (s3, resets) = worker_Run rand cfg rest s2 in
      (s3, (wc_Interval cfg + jitter (rand (length rest)) (wc_Jitter cfg)) # resets))"

section \<open>The heartbeat\<close>

definition heartbeatTTL :: duration where
  "heartbeatTTL = 90 * Second"

text \<open>Redis SET with an expiry, and GET, at an instant.\<close>

record 'r hbredis =
  SetEX :: "string \<Rightarrow> string \<Rightarrow> duration \<Rightarrow> gotime \<Rightarrow> 'r \<Rightarrow> 'r"
  GetKey :: "string \<Rightarrow> gotime \<Rightarrow> 'r \<Rightarrow> heartbeat"

definition time_Unix_seconds :: "gotime \<Rightarrow> int" where
  "time_Unix_seconds t = t div Second - 62135596800"

text \<open>An error of SET is swallowed, so the result is the server state.\<close>

definition Heartbeat_Write :: "'r hbredis option \<Rightarrow> string \<Rightarrow> gotime \<Rightarrow> 'r \<Rightarrow> 'r" where
  "Heartbeat_Write rdb role now r =
    (case rdb of None \<Rightarrow> r
     | Some R \<Rightarrow> SetEX R (''worker:heartbeat:'' @ role) (show_int (time_Unix_seconds now)) heartbeatTTL now r)"

definition heartbeats :: "'r hbredis \<Rightarrow> 'r \<Rightarrow> gotime \<Rightarrow> string \<Rightarrow> heartbeat" where
  "heartbeats R r now role = GetKey R (''worker:heartbeat:'' @ role) now r"

section \<open>The test clock\<close>

text \<open>The offset is an atomic int64; \<open>wall\<close> is the wall clock.\<close>

definition testclock_Now :: "int \<Rightarrow> gotime \<Rightarrow> gotime" where
  "testclock_Now offset wall = wall + offset"

definition testclock_Advance :: "duration \<Rightarrow> gotime \<Rightarrow> int \<Rightarrow> gotime \<times> int" where
  "testclock_Advance d wall offset = (let offset' = wrap64 (offset + d) in (testclock_Now offset' wall, offset'))"

definition testTickLimit :: int where "testTickLimit = 500"
definition maxSchedulerPasses :: nat where "maxSchedulerPasses = 10"

fun scheduler_passes :: "nat \<Rightarrow> (uuid \<Rightarrow> bool) \<Rightarrow> gotime \<Rightarrow> unit dbm" where
  "scheduler_passes 0 locked now = ret ()"
| "scheduler_passes (Suc k) locked now =
     bind (EvaluateDueMonitors locked now testTickLimit) (\<lambda>res.
     if Claimed res = 0 then ret () else scheduler_passes k locked now)"

text \<open>
  The \<^verbatim>\<open>/test/advance-clock\<close> handler; \<open>observe\<close> stands for the network of the prober pass and
  \<open>clock\<close> for the clock readings of the alerter pass.
\<close>

definition advance ::
  "extlib \<Rightarrow> channel option \<Rightarrow> string \<Rightarrow> (Monitor \<Rightarrow> (probeResult \<times> gotime) option) \<Rightarrow> (nat \<Rightarrow> gotime) \<Rightarrow>
     gotime \<Rightarrow> int \<Rightarrow> int option \<Rightarrow> ('r, gotime) handler" where
  "advance x ch baseURL observe clock wall offset body =
    (case body of
       None \<Rightarrow> reply (errorResponse 400 ''seconds must be a positive integer'')
     | Some seconds \<Rightarrow>
         if seconds \<le> 0 then reply (errorResponse 400 ''seconds must be a positive integer'')
         else (let now = fst (testclock_Advance (wrap64 (seconds * Second)) wall offset) in
           call (scheduler_passes maxSchedulerPasses (\<lambda>_. False) now) (\<lambda>_.
           call (prober_tick x (\<lambda>_. False) now observe) (\<lambda>_.
           call (alerter_tick x ch baseURL (\<lambda>_. False) now now clock (\<lambda>_. False)) (\<lambda>_.
           reply (writeJSON 200 (Payload now)))))))"

section \<open>How long a stuck worker is noticed\<close>

text \<open>What SET with an expiry with a positive expiry promises: the key holds its value until the expiry, then it is gone.\<close>

definition expiring :: "'r hbredis \<Rightarrow> bool" where
  "expiring R \<longleftrightarrow> (\<forall>key val ttl t t' r. 0 < ttl \<longrightarrow> t \<le> t' \<longrightarrow>
     GetKey R key t' (SetEX R key val ttl t r) = (if t' < t + ttl then HbValue val else HbNil))"

definition in_seconds_range :: "gotime \<Rightarrow> bool" where
  "in_seconds_range t \<longleftrightarrow> 0 \<le> t \<and> t < 2 ^ 62 * Second"

lemma ParseInt64_unix:
  assumes "in_seconds_range t"
  shows "ParseInt64 (show_int (time_Unix_seconds t)) = Some (time_Unix_seconds t)"
    and "time_Unix (time_Unix_seconds t) = t - t mod Second"
proof -
  have r: "0 \<le> t div Second" "t div Second < 2 ^ 62" using assms by (auto simp: in_seconds_range_def Second_def)
  show "ParseInt64 (show_int (time_Unix_seconds t)) = Some (time_Unix_seconds t)"
    using r by (intro ParseInt64_show_int) (simp add: time_Unix_seconds_def int64_range_def)
  have "wrap64 (t div Second) = t div Second" using r by (simp add: int64_range_def)
  then show "time_Unix (time_Unix_seconds t) = t - t mod Second"
    by (simp add: time_Unix_def time_Unix_seconds_def minus_mod_eq_div_mult)
qed

text \<open>
  C35. Composition of the heartbeat with the health endpoint, for a worker that stopped turning
  after its heartbeat at t while the other workers never ran: the endpoint answers 503 only
  between 60 seconds (counted from the whole second of t) and 90 seconds after t. From then on
  the key has expired, the worker counts as one that never started and the answer is 200 again.
\<close>

theorem stuck_worker_window:
  assumes "expiring R" and "in_seconds_range t" and "t \<le> now" and "role \<in> set health_roles"
    and "\<And>other. other \<in> set health_roles \<Longrightarrow> other \<noteq> role \<Longrightarrow>
       heartbeats R (Heartbeat_Write (Some R) role t r) now other = HbNil"
  shows "rs_status (healthHandler (Some None) (Some None) (heartbeats R (Heartbeat_Write (Some R) role t r) now) now) =
    (if t - t mod Second + 60 * Second < now \<and> now < t + 90 * Second then 503 else 200)"
proof -
  let ?b = "heartbeats R (Heartbeat_Write (Some R) role t r) now"
  have own: "?b role = (if now < t + 90 * Second then HbValue (show_int (time_Unix_seconds t)) else HbNil)"
    using assms(1,3) by (simp add: heartbeats_def Heartbeat_Write_def expiring_def heartbeatTTL_def Second_def)
  have w: "wedged now (?b role) \<longleftrightarrow> t - t mod Second + 60 * Second < now \<and> now < t + 90 * Second"
    by (auto simp: own wedged_def ParseInt64_unix [OF assms(2)])
  have "wedged now (?b ''scheduler'') \<or> wedged now (?b ''prober'') \<or> wedged now (?b ''alerter'') \<longleftrightarrow> wedged now (?b role)"
    using assms(4) assms(5) by (auto simp: health_roles_def wedged_def)
  then show ?thesis
    unfolding w [symmetric] by (simp add: health_answer)
qed

definition demo_hb :: "(string \<Rightarrow> (string \<times> gotime) option) hbredis" where
  "demo_hb = \<lparr>SetEX = \<lambda>key val ttl t r. r(key := Some (val, t + ttl)),
     GetKey = \<lambda>key t r. case r key of None \<Rightarrow> HbNil | Some (val, e) \<Rightarrow> if t < e then HbValue val else HbNil\<rparr>"

theorem stuck_worker_window_witness:
  "let t = 63900000000 * Second; r = Heartbeat_Write (Some demo_hb) ''prober'' t Map.empty;
       health = (\<lambda>now. rs_status (healthHandler (Some None) (Some None) (heartbeats demo_hb r now) now))
   in health (t + 75 * Second) = 503 \<and> health (t + 10 * Minute) = 200"
proof -
  have "expiring demo_hb" by (simp add: expiring_def demo_hb_def)
  moreover have "heartbeats demo_hb (Heartbeat_Write (Some demo_hb) ''prober'' t Map.empty) now other = HbNil"
    if "other \<noteq> ''prober''" for t now other
    using that by (simp add: heartbeats_def Heartbeat_Write_def demo_hb_def)
  moreover have "in_seconds_range (63900000000 * Second)" by (simp add: in_seconds_range_def Second_def)
  ultimately show ?thesis
    using stuck_worker_window [of demo_hb "63900000000 * Second" "63900000000 * Second + 75 * Second" "''prober''" Map.empty]
      stuck_worker_window [of demo_hb "63900000000 * Second" "63900000000 * Second + 10 * Minute" "''prober''" Map.empty]
    by (simp add: health_roles_def duration_units Let_def)
qed

end
