(* ===== verification/Worker_Loops.thy ===== *)
theory Worker_Loops
  imports Workers Rollup
begin

text \<open>
  The four background workers as the process runs them: the \<^verbatim>\<open>Run\<close> functions of
  src/backend/worker/scheduler, prober, alerter and rollup, each a tick put into the shared loop with
  its interval, jitter and heartbeat. The loops keep the schema, survive every tick error, and a loop
  whose ticks are short enough is never reported by the health endpoint.
\<close>

section \<open>The four loops\<close>

text \<open>
  The state a loop works on: the database session, the Redis server, the number of turns made, and
  the last rolled-up day (a field of the rollup worker). What differs from turn to turn (clock
  readings, skipped rows, the network) is a function of the turn.
\<close>

record 'r loop_state =
  ls_sess :: sess
  ls_redis :: 'r
  ls_turn :: nat
  ls_rolled :: gotime

definition tick_in :: "('r loop_state \<Rightarrow> 'a dbm) \<Rightarrow> ('a \<Rightarrow> 'r loop_state \<Rightarrow> 'r loop_state) \<Rightarrow> 'r loop_state \<Rightarrow>
    gerror option \<times> 'r loop_state" where
  "tick_in m k s = (case m s (ls_sess s) of
      (Inl e, se) \<Rightarrow> (Some e, s\<lparr>ls_sess := se\<rparr>)
    | (Inr v, se) \<Rightarrow> (None, k v (s\<lparr>ls_sess := se\<rparr>)))"

definition beat_in :: "'r hbredis option \<Rightarrow> string \<Rightarrow> (nat \<Rightarrow> gotime) \<Rightarrow> 'r loop_state \<Rightarrow> 'r loop_state" where
  "beat_in rdb role beat s =
     s\<lparr>ls_redis := Heartbeat_Write rdb role (beat (ls_turn s)) (ls_redis s), ls_turn := Suc (ls_turn s)\<rparr>"

text \<open>Interval, jitter and heartbeat are set alike by the four workers.\<close>

definition loop_config :: "'r hbredis option \<Rightarrow> string \<Rightarrow> (nat \<Rightarrow> gotime) \<Rightarrow> duration \<Rightarrow>
    ('r loop_state \<Rightarrow> gerror option \<times> 'r loop_state) \<Rightarrow> 'r loop_state worker_config" where
  "loop_config rdb role beat interval tick =
     \<lparr>wc_Interval = interval, wc_Jitter = interval sdiv 8, wc_Tick = tick, wc_Heartbeat = beat_in rdb role beat\<rparr>"

definition scheduler_DefaultInterval :: duration where "scheduler_DefaultInterval = 15 * Second"
definition prober_DefaultInterval :: duration where "prober_DefaultInterval = 10 * Second"
definition alerter_DefaultInterval :: duration where "alerter_DefaultInterval = 30 * Second"
definition rollup_DefaultInterval :: duration where "rollup_DefaultInterval = Hour"

definition scheduler_Run :: "(nat \<Rightarrow> duration \<Rightarrow> duration) \<Rightarrow> 'r hbredis option \<Rightarrow> (nat \<Rightarrow> gotime) \<Rightarrow> duration \<Rightarrow>
    (nat \<Rightarrow> uuid \<Rightarrow> bool) \<Rightarrow> (nat \<Rightarrow> gotime) \<Rightarrow>
    turn list \<Rightarrow> 'r loop_state \<Rightarrow> 'r loop_state \<times> duration list" where
  "scheduler_Run rand rdb beat interval locked clock =
     worker_Run rand (loop_config rdb ''scheduler'' beat interval
       (tick_in (\<lambda>s. scheduler_tick (locked (ls_turn s)) (clock (ls_turn s))) (\<lambda>_ s. s)))"

definition prober_Run :: "(nat \<Rightarrow> duration \<Rightarrow> duration) \<Rightarrow> 'r hbredis option \<Rightarrow> (nat \<Rightarrow> gotime) \<Rightarrow> duration \<Rightarrow>
    extlib \<Rightarrow> (nat \<Rightarrow> uuid \<Rightarrow> bool) \<Rightarrow> (nat \<Rightarrow> gotime) \<Rightarrow> (nat \<Rightarrow> Monitor \<Rightarrow> (probeResult \<times> gotime) option) \<Rightarrow>
    turn list \<Rightarrow> 'r loop_state \<Rightarrow> 'r loop_state \<times> duration list" where
  "prober_Run rand rdb beat interval x locked clock observe =
     worker_Run rand (loop_config rdb ''prober'' beat interval
       (tick_in (\<lambda>s. prober_tick x (locked (ls_turn s)) (clock (ls_turn s)) (observe (ls_turn s))) (\<lambda>_ s. s)))"

definition alerter_Run :: "(nat \<Rightarrow> duration \<Rightarrow> duration) \<Rightarrow> 'r hbredis option \<Rightarrow> (nat \<Rightarrow> gotime) \<Rightarrow> duration \<Rightarrow>
    extlib \<Rightarrow> channel option \<Rightarrow> string \<Rightarrow> (nat \<Rightarrow> int \<Rightarrow> bool) \<Rightarrow> (nat \<Rightarrow> gotime) \<Rightarrow> (nat \<Rightarrow> gotime) \<Rightarrow>
    (nat \<Rightarrow> nat \<Rightarrow> gotime) \<Rightarrow> (nat \<Rightarrow> nat \<Rightarrow> bool) \<Rightarrow>
    turn list \<Rightarrow> 'r loop_state \<Rightarrow> 'r loop_state \<times> duration list" where
  "alerter_Run rand rdb beat interval x ch baseURL locked t1 t2 clock cancelled =
     worker_Run rand (loop_config rdb ''alerter'' beat interval
       (tick_in (\<lambda>s. let n = ls_turn s in alerter_tick x ch baseURL (locked n) (t1 n) (t2 n) (clock n) (cancelled n)) (\<lambda>_ s. s)))"

text \<open>A tick of the rollup worker remembers the day it rolled up.\<close>

definition rollup_Run :: "(nat \<Rightarrow> duration \<Rightarrow> duration) \<Rightarrow> 'r hbredis option \<Rightarrow> (nat \<Rightarrow> gotime) \<Rightarrow> duration \<Rightarrow>
    percentile \<Rightarrow> nat \<Rightarrow> int \<Rightarrow> (nat \<Rightarrow> nat \<Rightarrow> bool) \<Rightarrow> (nat \<Rightarrow> gotime) \<Rightarrow>
    turn list \<Rightarrow> 'r loop_state \<Rightarrow> 'r loop_state \<times> duration list" where
  "rollup_Run rand rdb beat interval pc fuel retentionDays cancelled clock =
     worker_Run rand (loop_config rdb ''rollup'' beat interval
       (tick_in (\<lambda>s. rollup_tick pc fuel (cancelled (ls_turn s)) (rollup_New retentionDays) (ls_rolled s) (clock (ls_turn s)))
         (\<lambda>rolled s. s\<lparr>ls_rolled := rolled\<rparr>)))"

section \<open>What a loop keeps\<close>

definition fires :: "turn list \<Rightarrow> nat" where
  "fires turns = length (takeWhile (\<lambda>t. t = TimerFires) turns)"

lemma worker_Run_keeps:
  assumes "\<And>s. P s \<Longrightarrow> P (snd (wc_Tick cfg s))" and "\<And>s. P s \<Longrightarrow> P (wc_Heartbeat cfg s)"
  shows "P s \<Longrightarrow> P (fst (worker_Run rand cfg turns s))"
proof (induction turns arbitrary: s)
  case (Cons t rest)
  then show ?case using assms by (cases t) (simp_all add: case_prod_unfold Let_def)
qed simp

text \<open>The delays between the ticks: one per turn, of at least the interval and less than an eighth more.\<close>

lemma worker_Run_delays:
  assumes "\<And>k mx. 0 < mx \<Longrightarrow> 0 \<le> rand k mx \<and> rand k mx < mx" and "wc_Jitter cfg \<le> j" "0 < j"
  shows "length (snd (worker_Run rand cfg turns s)) = fires turns"
    and "list_all (\<lambda>d. wc_Interval cfg \<le> d \<and> d < wc_Interval cfg + j) (snd (worker_Run rand cfg turns s))"
proof -
  have "0 \<le> jitter (rand k) (wc_Jitter cfg) \<and> jitter (rand k) (wc_Jitter cfg) < j" for k
    using assms(1) [of "wc_Jitter cfg" k] assms(2,3) by (auto simp: jitter_def)
  then have "list_all (\<lambda>d. wc_Interval cfg \<le> d \<and> d < wc_Interval cfg + j) (snd (worker_Run rand cfg turns s)) \<and>
    length (snd (worker_Run rand cfg turns s)) = fires turns"
  proof (induction turns arbitrary: s)
    case (Cons t rest)
    then show ?case by (cases t) (simp_all add: case_prod_unfold Let_def fires_def)
  qed (simp add: fires_def)
  then show "length (snd (worker_Run rand cfg turns s)) = fires turns"
    and "list_all (\<lambda>d. wc_Interval cfg \<le> d \<and> d < wc_Interval cfg + j) (snd (worker_Run rand cfg turns s))" by auto
qed

text \<open>Ticks of the four workers keep the schema, whatever the connection does, and so do their loops.\<close>

lemma tick_in_keeps:
  assumes "\<And>s. keeps_all I (m s)" and "\<And>v s. ls_sess (k v s) = ls_sess s" and "I (sdb (ls_sess s))"
  shows "I (sdb (ls_sess (snd (tick_in m k s))))"
  using assms by (auto simp: tick_in_def keeps_all_def split: prod.split sum.split) (metis snd_conv)+

lemma loop_keeps:
  assumes "\<And>s. keeps_all I (m s)" and "\<And>v s. ls_sess (k v s) = ls_sess s" and "I (sdb (ls_sess s))"
  shows "I (sdb (ls_sess (fst (worker_Run rand (loop_config rdb role beat interval (tick_in m k)) turns s))))"
  by (rule worker_Run_keeps [where P = "\<lambda>s. I (sdb (ls_sess s))"])
    (simp_all add: loop_config_def beat_in_def tick_in_keeps [OF assms(1,2)] assms(3))

lemma tick_wf:
  "keeps_all wf_db (scheduler_tick lk t)" "keeps_all wf_db (prober_tick x lk t observe)"
  unfolding scheduler_tick_def prober_tick_def store_ClaimDueProbes_def by (intro tx_rules)+

lemma loops_keep_schema:
  assumes "wf_db (sdb (ls_sess s))"
  shows "wf_db (sdb (ls_sess (fst (scheduler_Run rand rdb beat i lk c turns s))))"
    and "wf_db (sdb (ls_sess (fst (prober_Run rand rdb beat i x lk c obs turns s))))"
    and "wf_db (sdb (ls_sess (fst (alerter_Run rand rdb beat i x ch b lka t1 t2 ca cn turns s))))"
    and "wf_db (sdb (ls_sess (fst (rollup_Run rand rdb beat i pc fuel days cn c turns s))))"
  unfolding scheduler_Run_def prober_Run_def alerter_Run_def rollup_Run_def Let_def
  by (rule loop_keeps; (simp add: assms)?; intro tick_wf tx_rules)+

section \<open>A loop that turns in time is reported up\<close>

text \<open>The heartbeat in Redis is the one of the last turn, whatever the ticks returned.\<close>

lemma last_beat:
  assumes "\<And>s. ls_turn (snd (tick s)) = ls_turn s" and "0 < fires turns"
  shows "\<exists>r. ls_redis (fst (worker_Run rand (loop_config rdb role beat i tick) turns s)) =
    Heartbeat_Write rdb role (beat (ls_turn s + (fires turns - 1))) r"
  using assms(2)
proof (induction turns arbitrary: s)
  case (Cons t rest)
  then have t: "t = TimerFires" by (auto simp: fires_def split: if_splits)
  let ?s' = "beat_in rdb role beat (snd (tick s))"
  have turn: "ls_turn ?s' = Suc (ls_turn s)" by (simp add: beat_in_def assms(1))
  show ?case
  proof (cases "0 < fires rest")
    case True
    then have "ls_turn ?s' + (fires rest - 1) = ls_turn s + (fires (t # rest) - 1)" by (simp add: t turn fires_def)
    with Cons.IH [OF True, of ?s'] show ?thesis by (simp add: t loop_config_def case_prod_unfold Let_def)
  next
    case False
    then have "rest = [] \<or> (\<exists>rest'. rest = CtxDone # rest')"
      by (cases rest; cases "hd rest") (auto simp: fires_def)
    with t show ?thesis
      by (auto simp: loop_config_def case_prod_unfold Let_def fires_def beat_in_def assms(1))
  qed
qed (simp add: fires_def)

lemma tick_in_turn: "(\<And>v s. ls_turn (k v s) = ls_turn s) \<Longrightarrow> ls_turn (snd (tick_in m k s)) = ls_turn s"
  by (auto simp: tick_in_def split: prod.split sum.split)

lemma fresh_beat_up:
  assumes "expiring R" and "in_seconds_range t" and "t \<le> now" and "now < t + 59 * Second"
  shows "workerHeartbeatStatus now (heartbeats R (Heartbeat_Write (Some R) role t r) now role) =
    (\<lparr>cs_Status = ''up'', cs_Error = ''''\<rparr>, True)"
proof -
  let ?t' = "t - t mod Second"
  have "now < ?t' + 60 * Second" "?t' \<le> now"
    using assms(3,4) pos_mod_bound [of Second t] pos_mod_sign [of Second t] by (simp_all add: Second_def)
  then have "\<not> heartbeatStaleAfter < time_Sub now ?t'"
    by (auto simp: heartbeatStaleAfter_def time_Sub_def Second_def min_int64_def max_int64_def)
  moreover have "heartbeats R (Heartbeat_Write (Some R) role t r) now role = HbValue (show_int (time_Unix_seconds t))"
    using assms(1,3,4) by (simp add: heartbeats_def Heartbeat_Write_def expiring_def heartbeatTTL_def Second_def)
  ultimately show ?thesis using ParseInt64_unix [OF assms(2)] by (simp add: workerHeartbeatStatus_def Let_def)
qed

text \<open>
  A turning worker counts as up. Take a loop with an interval of at most 30 seconds, as the
  scheduler, the prober and the alerter have in production, after at least one turn. Until its next
  heartbeat, that is while the delay drawn after the last turn and the work of the running tick
  pass, the health endpoint reports the worker up, provided the tick takes at most 25 seconds.
\<close>

lemma loop_up:
  assumes "expiring R" and "\<And>k mx. 0 < mx \<Longrightarrow> 0 \<le> rand k mx \<and> rand k mx < mx"
    and "\<And>s. ls_turn (snd (tick s)) = ls_turn s" and "0 < i" "i \<le> 30 * Second" and "0 < fires turns"
    and "worker_Run rand (loop_config (Some R) role beat i tick) turns s = (s', delays)"
    and "t = beat (ls_turn s + (fires turns - 1))" "in_seconds_range t"
    and "t \<le> now" "now \<le> t + last delays + busy" "busy \<le> 25 * Second"
  shows "workerHeartbeatStatus now (heartbeats R (ls_redis s') now role) = (\<lparr>cs_Status = ''up'', cs_Error = ''''\<rparr>, True)"
proof -
  let ?cfg = "loop_config (Some R) role beat i tick"
  have j: "wc_Jitter ?cfg \<le> i div 8 + 1" "0 < i div 8 + 1"
    using assms(4) by (simp_all add: loop_config_def signed_divide_int_def sgn_if)
  note D = worker_Run_delays [where rand = rand and cfg = ?cfg and turns = turns and s = s, OF assms(2) j]
  have "delays \<noteq> []" using D(1) assms(6,7) by auto
  then have "last delays < i + (i div 8 + 1)"
    using D(2) assms(7) by (auto simp: list_all_iff loop_config_def)
  then have now: "now < t + 59 * Second" using assms(5,11,12) by (simp add: Second_def)
  obtain r where "ls_redis s' = Heartbeat_Write (Some R) role t r"
    using last_beat [OF assms(3,6), of rand "Some R" role beat i s] assms(7,8) by auto
  with fresh_beat_up [OF assms(1,9,10) now, of role r] show ?thesis by simp
qed

text \<open>The three workers the health endpoint watches, with their production intervals.\<close>

definition up_between_beats ::
  "'r hbredis \<Rightarrow> string \<Rightarrow> (nat \<Rightarrow> gotime) \<Rightarrow> turn list \<Rightarrow> 'r loop_state \<Rightarrow> 'r loop_state \<times> duration list \<Rightarrow> bool" where
  "up_between_beats R role beat turns s out \<longleftrightarrow> (\<forall>now busy.
     beat (ls_turn s + (fires turns - 1)) \<le> now \<and>
     now \<le> beat (ls_turn s + (fires turns - 1)) + last (snd out) + busy \<and> busy \<le> 25 * Second \<longrightarrow>
     workerHeartbeatStatus now (heartbeats R (ls_redis (fst out)) now role) = (\<lparr>cs_Status = ''up'', cs_Error = ''''\<rparr>, True))"

lemma loop_up_between_beats:
  assumes "expiring R" and "\<And>k mx. 0 < mx \<Longrightarrow> 0 \<le> rand k mx \<and> rand k mx < mx"
    and "\<And>n. in_seconds_range (beat n)" and "0 < fires turns" and "0 < i" "i \<le> 30 * Second"
  shows "up_between_beats R role beat turns s
    (worker_Run rand (loop_config (Some R) role beat i (tick_in m (\<lambda>_ s. s))) turns s)"
proof -
  obtain s' delays where out: "worker_Run rand (loop_config (Some R) role beat i (tick_in m (\<lambda>_ s. s))) turns s = (s', delays)"
    by fastforce
  show ?thesis
    unfolding up_between_beats_def out
    using loop_up [OF assms(1,2) tick_in_turn assms(5,6,4) out refl assms(3)] by auto
qed

theorem live_workers_up:
  assumes "expiring R" and "\<And>k mx. 0 < mx \<Longrightarrow> 0 \<le> rand k mx \<and> rand k mx < mx"
    and "\<And>n. in_seconds_range (beat n)" and "0 < fires turns"
  shows "up_between_beats R ''scheduler'' beat turns s
      (scheduler_Run rand (Some R) beat scheduler_DefaultInterval lk c turns s)"
    and "up_between_beats R ''prober'' beat turns s
      (prober_Run rand (Some R) beat prober_DefaultInterval x lk c obs turns s)"
    and "up_between_beats R ''alerter'' beat turns s
      (alerter_Run rand (Some R) beat alerter_DefaultInterval x ch b lka t1 t2 ca cn turns s)"
  unfolding scheduler_Run_def prober_Run_def alerter_Run_def
  by (rule loop_up_between_beats [OF assms];
      simp add: scheduler_DefaultInterval_def prober_DefaultInterval_def alerter_DefaultInterval_def Second_def)+

text \<open>
  The bound on the work of a tick matters. A tick of the alerter sends up to \<^verbatim>\<open>claimLimit\<close> messages
  one after the other, each for up to \<^verbatim>\<open>sendTimeout\<close>, and the heartbeat follows the tick: with a
  mail server that hangs, two messages after the interval are enough for the endpoint to report the
  turning worker as down.
\<close>

definition sendTimeout :: duration where "sendTimeout = 20 * Second"

lemma slow_tick_reported_down:
  assumes "expiring R" and "in_seconds_range t" and "2 \<le> n" and "n \<le> alerter_claimLimit"
  shows "\<exists>now \<le> t + alerter_DefaultInterval + n * sendTimeout.
    \<not> snd (workerHeartbeatStatus now (heartbeats R (Heartbeat_Write (Some R) ''alerter'' t r) now ''alerter''))"
proof (intro exI conjI)
  let ?now = "t + 61 * Second"
  show "?now \<le> t + alerter_DefaultInterval + n * sendTimeout"
    using assms(3) by (simp add: alerter_DefaultInterval_def sendTimeout_def Second_def)
  have "heartbeats R (Heartbeat_Write (Some R) ''alerter'' t r) ?now ''alerter'' = HbValue (show_int (time_Unix_seconds t))"
    using assms(1) by (simp add: heartbeats_def Heartbeat_Write_def expiring_def heartbeatTTL_def Second_def)
  moreover have "t - t mod Second < ?now - 60 * Second" using pos_mod_sign [of Second t] by (simp add: Second_def)
  ultimately show "\<not> snd (workerHeartbeatStatus ?now (heartbeats R (Heartbeat_Write (Some R) ''alerter'' t r) ?now ''alerter''))"
    using ParseInt64_unix [OF assms(2)] by (simp add: healthy_iff wedged_def)
qed

end
