(* ===== verification/System.thy ===== *)
theory System
  imports Scheduler Prober Alerter Accounts Rollup
begin

text \<open>
  The store as one system: every operation that writes, in any order, with any clock and any
  behaviour of the connection. The invariant is the contract of the transactional outbox: an
  event that users must hear about always has its outbox row, and an outbox row always has such
  an event of the same monitor; and no event is put into the outbox twice.
\<close>

section \<open>The contract of a transaction body\<close>

text \<open>
  What the store promises of a function it passes to \<open>withTx\<close>: it stops at the first error, it
  never moves a sequence backwards, and its successful runs keep an invariant that does not
  mention the sequences. The transaction then keeps the invariant whatever the connection does.
\<close>

lemma keeps_iff: "keeps I m \<longleftrightarrow> keeps_all I m"
proof
  assume k: "keeps I m"
  show "keeps_all I m" unfolding keeps_all_def
  proof (intro allI impI)
    fix s :: sess assume "I (sdb s)"
    with k show "I (sdb (snd (m s)))" unfolding keeps_def run_db_def by (cases s) simp
  qed
qed (simp add: keeps_def keeps_all_run)

locale tx_body =
  fixes I :: "db \<Rightarrow> bool" and body :: "'a dbm"
  assumes stable: "rollback_stable I"
    and stops: "strict body"
    and advances: "grows body"
    and preserves: "succ I body (\<lambda>_. I)"
begin

lemma transaction_keeps: "keeps_all I (withTx body)"
  using keeps_withTx [OF stable stops advances preserves] by (simp add: keeps_iff)

end

section \<open>The outbox invariant\<close>

definition alerting :: "string \<Rightarrow> bool" where
  "alerting ty \<longleftrightarrow> ty = ''down'' \<or> ty = ''up'' \<or> ty = ''tls_expiry''"

definition covered :: "db \<Rightarrow> event_row \<Rightarrow> bool" where
  "covered d e \<longleftrightarrow> (\<exists>a \<in> set (alerts d). a_event_id a = e_id e \<and> a_monitor_id a = e_monitor_id e \<and> \<not> a_is_reminder a)"

definition justified :: "db \<Rightarrow> alert_row \<Rightarrow> bool" where
  "justified d a \<longleftrightarrow> (\<exists>e \<in> set (events d). e_id e = a_event_id a \<and> e_monitor_id e = a_monitor_id a \<and> alerting (e_type e))"

definition firsts :: "db \<Rightarrow> int list" where
  "firsts d = map a_event_id (filter (\<lambda>a. \<not> a_is_reminder a) (alerts d))"

text \<open>
  \<open>owed X d\<close>: every alerting event has exactly one outbox row that is not a reminder, but those
  with an id in \<open>X\<close>, which have none yet.
\<close>

definition owed :: "int set \<Rightarrow> db \<Rightarrow> bool" where
  "owed X d \<longleftrightarrow> wf_db d \<and> (\<forall>e \<in> set (events d). alerting (e_type e) \<longrightarrow> e_id e \<in> X \<or> covered d e) \<and>
     (\<forall>a \<in> set (alerts d). justified d a) \<and> distinct (firsts d) \<and> set (firsts d) \<inter> X = {}"

definition outbox :: "db \<Rightarrow> bool" where
  "outbox d \<longleftrightarrow> owed {} d"

lemma owed_same_logs:
  "owed X d \<Longrightarrow> wf_db d' \<Longrightarrow> events d' = events d \<Longrightarrow> alerts d' = alerts d \<Longrightarrow> owed X d'"
  by (simp add: owed_def covered_def justified_def firsts_def)

lemma outbox_stable: "rollback_stable outbox"
proof -
  have "outbox d'" if "outbox d" and t: "tables_kept d d'" for d d'
  proof -
    have "wf_db d'" using that wf_rollback_stable by (auto simp: outbox_def owed_def rollback_stable_def)
    with that tables_kept_simps(7,8) [OF t] show ?thesis by (auto simp: outbox_def intro: owed_same_logs)
  qed
  then show ?thesis by (simp add: rollback_stable_def)
qed

named_theorems outbox_rules

text \<open>A statement that leaves the two log tables alone.\<close>

definition quiet_stmt :: "'a stmt \<Rightarrow> bool" where
  "quiet_stmt q \<longleftrightarrow> (\<forall>now d. events (snd (q now d)) = events d \<and> alerts (snd (q now d)) = alerts d)"

lemma quiet_stmt_keeps [outbox_rules]: "quiet_stmt q \<Longrightarrow> stmt_keeps wf_db q \<Longrightarrow> stmt_keeps outbox q"
  unfolding stmt_keeps_def quiet_stmt_def outbox_def by (metis owed_def owed_same_logs)

lemma reading_quiet [outbox_rules]: "quiet_stmt (reading f)"
  by (simp add: quiet_stmt_def reading_def)

lemma update_monitors_quiet:
  "quiet_stmt (\<lambda>now. sql_exec (update_monitors sel (f now)) now)"
  "quiet_stmt (\<lambda>now. sql_one (update_monitors sel (f now)) now)"
  by (simp_all add: quiet_stmt_def sql_exec_def sql_one_def update_monitors_def Let_def)

lemma monitor_updates_quiet [outbox_rules]:
  "quiet_stmt (q_MarkMonitorDown i)" "quiet_stmt (q_MarkMonitorLate dl i)" "quiet_stmt (q_MuteMonitor i u)"
  "quiet_stmt (q_PauseMonitor i u)" "quiet_stmt (q_ResumeMonitor dl i u)" "quiet_stmt (q_UnmuteMonitor i u)"
  "quiet_stmt (q_UpdateMonitor up i u)" "quiet_stmt (q_UpdateMonitorOnCheckin st t dl n i)"
  "quiet_stmt (q_SetTLSWarnedExpiry t i)" "quiet_stmt (q_UpdateMonitorOnProbe st n t i)"
  using update_monitors_quiet
  by (simp_all add: quiet_stmt_def q_MarkMonitorDown_def q_MarkMonitorLate_def q_MuteMonitor_def q_PauseMonitor_def
      q_ResumeMonitor_def q_UnmuteMonitor_def q_UpdateMonitor_def q_UpdateMonitorOnCheckin_def
      q_SetTLSWarnedExpiry_def q_UpdateMonitorOnProbe_def)

lemma other_tables_quiet [outbox_rules]:
  "quiet_stmt (q_CreateMonitor i p)" "quiet_stmt (q_InsertCheckin mid kind ip ua b)"
  "quiet_stmt (q_InsertProbeResult mid ok st lat err tls)" "quiet_stmt (q_DeleteOldCheckinsBatch c n)"
  "quiet_stmt (q_DeleteOldProbeResultsBatch c n)" "quiet_stmt (q_UpsertDailyStat r)" "quiet_stmt (q_CreateUser i em h)"
  "quiet_stmt (q_GetMonitorByID i)" "quiet_stmt (q_GetMonitorBySlugForUpdate sl)" "quiet_stmt (q_ClaimDueMonitors lk t n)"
  "quiet_stmt (q_RollupCheckinCounts t1 t2)" "quiet_stmt (q_RollupProbeStats pc t1 t2)" "quiet_stmt (q_RollupDowntimeSeconds t1 t2)"
  by (simp_all add: quiet_stmt_def q_CreateMonitor_def q_InsertCheckin_def q_InsertProbeResult_def
      q_DeleteOldCheckinsBatch_def q_DeleteOldProbeResultsBatch_def q_UpsertDailyStat_def q_CreateUser_def
      q_GetMonitorByID_def q_GetMonitorBySlugForUpdate_def q_ClaimDueMonitors_def q_RollupCheckinCounts_def
      q_RollupProbeStats_def q_RollupDowntimeSeconds_def reading_def Let_def bump_defs)

definition akey :: "alert_row \<Rightarrow> int \<times> uuid \<times> bool" where
  "akey a = (a_event_id a, a_monitor_id a, a_is_reminder a)"

definition event_for :: "event_row list \<Rightarrow> (int \<times> uuid \<times> bool) set" where
  "event_for es = {(ev, mid, r). \<exists>e \<in> set es. e_id e = ev \<and> e_monitor_id e = mid \<and> alerting (e_type e)}"

lemma owed_keys:
  "owed X d \<longleftrightarrow> wf_db d \<and>
    (\<forall>e \<in> set (events d). alerting (e_type e) \<longrightarrow> e_id e \<in> X \<or> (e_id e, e_monitor_id e, False) \<in> akey ` set (alerts d)) \<and>
    akey ` set (alerts d) \<subseteq> event_for (events d) \<and> distinct (firsts d) \<and> set (firsts d) \<inter> X = {}"
  by (force simp: owed_def covered_def justified_def akey_def image_iff event_for_def)

lemma firsts_keys: "firsts d = map fst (filter (\<lambda>k. \<not> snd (snd k)) (map akey (alerts d)))"
  by (simp add: firsts_def akey_def filter_map comp_def)

lemma stmt_keeps_outboxI:
  assumes "stmt_keeps wf_db q" and "\<And>now d. outbox d \<Longrightarrow> wf_db (snd (q now d)) \<Longrightarrow> outbox (snd (q now d))"
  shows "stmt_keeps outbox q"
  using assms unfolding stmt_keeps_def outbox_def owed_def by blast

lemma update_alerts_outbox:
  assumes "\<And>a. akey (f a) = akey a" and "outbox d" and "wf_db (snd (update_alerts sel f now d))"
  shows "outbox (snd (update_alerts sel f now d))"
proof -
  have k: "map akey (update_where sel f (alerts d)) = map akey (alerts d)"
    using assms(1) by (simp add: update_where_map_key)
  then have "akey ` set (update_where sel f (alerts d)) = akey ` set (alerts d)" by (metis list.set_map)
  with assms(2,3) k show ?thesis by (simp add: update_alerts_def outbox_def owed_keys firsts_keys split: if_splits)
qed

lemma alert_updates_outbox [outbox_rules]:
  "stmt_keeps outbox (q_MarkAlertFailed i)" "stmt_keeps outbox (q_MarkAlertSent i)"
  "stmt_keeps outbox (q_RescheduleAlert i t)" "stmt_keeps outbox (q_SuppressAlert i)"
  by (rule stmt_keeps_outboxI, rule wf_alert_updates,
      simp add: q_MarkAlertFailed_def q_MarkAlertSent_def q_RescheduleAlert_def q_SuppressAlert_def
        update_alerts_outbox akey_def)+

lemma event_id_unique: "wf_db d \<Longrightarrow> e \<in> set (events d) \<Longrightarrow> e' \<in> set (events d) \<Longrightarrow> e_id e = e_id e' \<Longrightarrow> e = e'"
  by (simp add: wf_db_def wf_events_def) (metis distinct_map inj_on_def)

lemma firsts_filter: "alerts d' = filter p (alerts d) \<Longrightarrow> distinct (firsts d) \<Longrightarrow> distinct (firsts d')"
proof -
  assume "alerts d' = filter p (alerts d)" and d: "distinct (firsts d)"
  then have "firsts d' = map a_event_id (filter p (filter (\<lambda>a. \<not> a_is_reminder a) (alerts d)))"
    by (simp add: firsts_def conj_commute)
  with d show ?thesis by (simp only: distinct_map_filter firsts_def)
qed

lemma DeleteMonitor_outbox [outbox_rules]: "stmt_keeps outbox (q_DeleteMonitor i u)"
proof (rule stmt_keeps_outboxI [OF wf_DeleteMonitor])
  fix now d assume o: "outbox d" and wf: "wf_db (snd (q_DeleteMonitor i u now d))"
  have u: "e = e'" if "e \<in> set (events d)" "e' \<in> set (events d)" "e_id e = e_id e'" for e e'
    using o that event_id_unique by (auto simp: outbox_def owed_def)
  show "outbox (snd (q_DeleteMonitor i u now d))"
  proof (cases "filter (\<lambda>m. m_id m = i \<and> m_user_id m = u) (monitors d) = []")
    case False
    let ?d' = "cascade_monitor i d"
    have gone: "snd (q_DeleteMonitor i u now d) = ?d'" using False by (simp add: q_DeleteMonitor_def Let_def)
    have al: "a \<in> set (alerts ?d') \<longleftrightarrow> a \<in> set (alerts d) \<and> a_monitor_id a \<noteq> i \<and>
        (\<forall>e \<in> set (events d). e_id e = a_event_id a \<longrightarrow> e_monitor_id e \<noteq> i)" for a
      by (simp add: cascade_monitor_def image_iff) metis
    have ev: "e \<in> set (events ?d') \<longleftrightarrow> e \<in> set (events d) \<and> e_monitor_id e \<noteq> i" for e
      by (auto simp: cascade_monitor_def)
    have "covered ?d' e" if "e \<in> set (events ?d')" "alerting (e_type e)" for e
    proof -
      from that ev have e: "e \<in> set (events d)" "e_monitor_id e \<noteq> i" by simp_all
      with o that(2) obtain a where a: "a \<in> set (alerts d)" "a_event_id a = e_id e" "a_monitor_id a = e_monitor_id e"
        "\<not> a_is_reminder a" by (auto simp: outbox_def owed_def covered_def)
      with e u have "a \<in> set (alerts ?d')" unfolding al by metis
      with a show ?thesis unfolding covered_def by blast
    qed
    moreover have "justified ?d' a" if "a \<in> set (alerts ?d')" for a
    proof -
      from that al have a: "a \<in> set (alerts d)" "a_monitor_id a \<noteq> i" by simp_all
      with o obtain e where "e \<in> set (events d)" "e_id e = a_event_id a" "e_monitor_id e = a_monitor_id a" "alerting (e_type e)"
        by (auto simp: outbox_def owed_def justified_def)
      with a ev show ?thesis unfolding justified_def by metis
    qed
    moreover have "distinct (firsts ?d')"
    proof (rule firsts_filter)
      show "alerts ?d' = filter (\<lambda>a. a_monitor_id a \<noteq> i \<and>
          a_event_id a \<notin> e_id ` set (filter (\<lambda>e. e_monitor_id e = i) (events d))) (alerts d)"
        by (simp add: cascade_monitor_def)
      show "distinct (firsts d)" using o by (simp add: outbox_def owed_def)
    qed
    ultimately show ?thesis using wf unfolding gone outbox_def owed_def by blast
  qed (use o in \<open>simp add: q_DeleteMonitor_def\<close>)
qed

lemma outbox_without:
  assumes "outbox d" and "wf_db d'" and "events d' = filter (\<lambda>e. e_id e \<notin> ids) (events d)"
    and "alerts d' = filter (\<lambda>a. a_event_id a \<notin> ids) (alerts d)"
  shows "outbox d'"
proof -
  have "covered d' e" if "e \<in> set (events d')" "alerting (e_type e)" for e
    using that assms(1) unfolding outbox_def owed_def covered_def assms(3,4) by fastforce
  moreover have "justified d' a" if "a \<in> set (alerts d')" for a
    using that assms(1) unfolding outbox_def owed_def justified_def assms(3,4) by fastforce
  moreover have "distinct (firsts d')"
    using assms(1) firsts_filter [OF assms(4)] by (simp add: outbox_def owed_def)
  ultimately show ?thesis using assms(2) by (simp add: outbox_def owed_def)
qed

lemma DeleteOldEvents_outbox [outbox_rules]: "stmt_keeps outbox (q_DeleteOldEventsBatch c n)"
proof (rule stmt_keeps_outboxI)
  fix now d assume o: "outbox d" and wf: "wf_db (snd (q_DeleteOldEventsBatch c n now d))"
  show "outbox (snd (q_DeleteOldEventsBatch c n now d))"
    using o wf by (cases "n < 0") (auto simp: q_DeleteOldEventsBatch_def Let_def intro: outbox_without)
qed (rule tx_rules)

lemma reminders_outbox [outbox_rules]: "stmt_keeps outbox (q_EnqueueDownReminders t)"
proof (rule stmt_keeps_outboxI [OF wf_EnqueueDownReminders])
  fix now d assume o: "outbox d" and wf: "wf_db (snd (q_EnqueueDownReminders t now d))"
  let ?rows = "number_reminders now (seq_alerts (seqs d)) (List.map_filter (reminder_source d t) (monitors d))"
  have "justified d a" if "a \<in> set ?rows" for a
    using reminder_row [OF that] by (auto simp: justified_def alerting_def)
  moreover have "filter (\<lambda>a. \<not> a_is_reminder a) ?rows = []"
    by (auto simp: filter_empty_conv dest: number_reminders_rows)
  ultimately show "outbox (snd (q_EnqueueDownReminders t now d))"
    using o wf by (auto simp: q_EnqueueDownReminders_def Let_def outbox_def owed_def covered_def justified_def firsts_def)
qed

text \<open>An event that nobody waits for, and an event with its outbox row.\<close>

lemma InsertEvent_silent [outbox_rules]:
  assumes "\<not> alerting ty" shows "stmt_keeps outbox (q_InsertEvent mid ty msg meta)"
proof (rule stmt_keeps_outboxI)
  fix now d assume "outbox d" and "wf_db (snd (q_InsertEvent mid ty msg meta now d))"
  with assms show "outbox (snd (q_InsertEvent mid ty msg meta now d))"
    by (auto simp: q_InsertEvent_def Let_def outbox_def owed_def covered_def justified_def firsts_def bump_defs)
qed (rule tx_rules)

lemma InsertEvent_owes:
  "stmt_succ outbox (q_InsertEvent mid ty msg meta)
     (\<lambda>e d. owed {e_id e} d \<and> e \<in> set (events d) \<and> e_monitor_id e = mid \<and> e_type e = ty)"
  unfolding stmt_succ_def
proof (intro allI impI)
  fix now d e d' assume o: "outbox d" and q: "q_InsertEvent mid ty msg meta now d = (Inr e, d')"
  have wf: "wf_db d" "wf_db d'"
    using o q wf_log_inserts(3) [of mid ty msg meta] by (auto simp: stmt_keeps_def outbox_def owed_def) (metis snd_conv)
  have d': "events d' = events d @ [e]" "alerts d' = alerts d" "e_id e = seq_events (seqs d)" "e_monitor_id e = mid" "e_type e = ty"
    using q by (auto simp: q_InsertEvent_def Let_def bump_defs split: if_splits)
  have "e_id e \<notin> event_ids d" using wf(1) by (auto simp: d'(3) wf_db_def wf_events_def)
  then have "e_id e \<notin> set (firsts d)" using wf(1) by (auto simp: firsts_def wf_db_def wf_alerts_def)
  moreover have "covered d' e'" if "covered d e'" for e' using that by (simp add: covered_def d'(2))
  moreover have "justified d' a" if "justified d a" for a using that by (auto simp: justified_def d'(1))
  ultimately have "owed {e_id e} d'"
    using o wf(2) by (auto simp: outbox_def owed_def d'(1,2) firsts_def)
  with d' show "owed {e_id e} d' \<and> e \<in> set (events d') \<and> e_monitor_id e = mid \<and> e_type e = ty" by simp
qed

lemma InsertAlert_pays:
  assumes "alerting ty"
  shows "stmt_succ (\<lambda>d. owed {e_id e} d \<and> e \<in> set (events d) \<and> e_monitor_id e = mid \<and> e_type e = ty)
     (q_InsertAlert mid (e_id e) ch) (\<lambda>_. outbox)"
  unfolding stmt_succ_def
proof (intro allI impI)
  fix now d a d'
  assume pre: "owed {e_id e} d \<and> e \<in> set (events d) \<and> e_monitor_id e = mid \<and> e_type e = ty"
    and q: "q_InsertAlert mid (e_id e) ch now d = (Inr a, d')"
  then have wf: "wf_db d" "wf_db d'"
    using wf_log_inserts(4) [of mid "e_id e" ch] by (auto simp: stmt_keeps_def owed_def) (metis snd_conv)
  have u: "e' = e" if "e' \<in> set (events d)" "e_id e' = e_id e" for e'
    using event_id_unique [OF wf(1)] that pre by blast
  have d': "events d' = events d" "alerts d' = alerts d @ [a]" "a_event_id a = e_id e" "a_monitor_id a = e_monitor_id e"
    "\<not> a_is_reminder a"
    using q pre by (auto simp: q_InsertAlert_def Let_def bump_defs new_alert_def split: if_splits)
  have "covered d' e'" if "e' \<in> set (events d')" "alerting (e_type e')" for e'
  proof (cases "e' = e")
    case True
    with d' show ?thesis by (auto simp: covered_def)
  next
    case False
    with that u pre d'(1) have "covered d e'" by (auto simp: owed_def)
    with d'(2) show ?thesis by (auto simp: covered_def)
  qed
  moreover have "justified d' a'" if "a' \<in> set (alerts d')" for a'
    using that pre assms d' by (auto simp: owed_def justified_def)
  moreover have "distinct (firsts d')" using pre d'(2,3,5) by (simp add: owed_def firsts_def)
  ultimately show "outbox d'" using wf(2) by (simp add: outbox_def owed_def)
qed

section \<open>Every transaction body keeps the outbox\<close>

text \<open>\<open>pays m\<close>: a run of \<open>m\<close> that succeeds leaves no event without its outbox row.\<close>

definition pays :: "'a dbm \<Rightarrow> bool" where
  "pays m \<longleftrightarrow> succ outbox m (\<lambda>_. outbox)"

lemma pays_rules [outbox_rules]:
  "pays (ret x)" "pays (raise e)" "pays m \<Longrightarrow> (\<And>x. pays (f x)) \<Longrightarrow> pays (bind m f)" "pays m \<Longrightarrow> pays (map_err g m)"
  unfolding pays_def by (auto intro: succ_ret succ_raise succ_bind succ_map_err)

lemma pays_query [outbox_rules]: "stmt_keeps outbox q \<Longrightarrow> pays (query q)"
  unfolding pays_def by (intro succ_query) (auto simp: stmt_succ_def stmt_keeps_def, metis snd_conv)

lemma pays_lift [outbox_rules]: "pays (lift_err r)"
  by (cases r) (simp_all add: lift_err_def outbox_rules)

lemma recordEventMeta_pays [outbox_rules]: "\<not> alerting ty \<Longrightarrow> pays (recordEventMeta mid ty msg meta)"
  unfolding recordEventMeta_def by (intro outbox_rules)

lemma recordEvent_pays [outbox_rules]: "\<not> alerting ty \<Longrightarrow> pays (recordEvent mid ty msg)"
  unfolding recordEvent_def by (intro outbox_rules)

lemma event_and_alert_pays:
  assumes "alerting ty" and "pays m"
  shows "pays (bind (recordEventMeta mid ty msg meta) (\<lambda>event.
     bind (map_err g (query (q_InsertAlert mid (e_id event) ch))) (\<lambda>_. m)))"
  unfolding pays_def recordEventMeta_def
proof (rule succ_bind, rule succ_map_err, rule succ_query, rule InsertEvent_owes)
  fix event
  show "succ (\<lambda>d. owed {e_id event} d \<and> event \<in> set (events d) \<and> e_monitor_id event = mid \<and> e_type event = ty)
     (bind (map_err g (query (q_InsertAlert mid (e_id event) ch))) (\<lambda>_. m)) (\<lambda>_. outbox)"
    by (rule succ_bind, rule succ_map_err, rule succ_query, rule InsertAlert_pays [OF assms(1)])
      (use assms(2) in \<open>simp add: pays_def\<close>)
qed

lemma recordTransition_pays [outbox_rules]: "alerting ty \<Longrightarrow> pays (recordTransition mid ty msg)"
  unfolding recordTransition_def recordEvent_def by (intro event_and_alert_pays outbox_rules)

lemma alerting_types [simp]:
  "alerting ''down''" "alerting ''up''" "alerting ''tls_expiry''" "\<not> alerting ''late''" "\<not> alerting ''pause''"
  "\<not> alerting ''resume''" "\<not> alerting ''mute''" "\<not> alerting ''unmute''" "\<not> alerting ''config_change''"
  "\<not> alerting ''alert_failed''"
  by (simp_all add: alerting_def)

lemma checkinBody_pays: "pays (checkinBody lib x p)"
  unfolding checkinBody_def applySuccess_def applyFail_def Let_def
  by (auto intro!: outbox_rules tx_rules split: sum.split)

lemma evaluateBody_pays: "pays (evaluateBody locked t n)"
proof -
  have "pays (evaluateOne m r)" for m r
    unfolding evaluateOne_def Let_def by (auto intro!: outbox_rules tx_rules split: option.split)
  then have "pays (evaluateAll ms r)" for ms r
    by (induction ms arbitrary: r) (auto intro!: outbox_rules)
  then show ?thesis unfolding evaluateBody_def by (auto intro!: outbox_rules tx_rules)
qed

lemma maybeWarnTLSExpiry_pays [outbox_rules]: "pays (maybeWarnTLSExpiry w mid po)"
proof -
  have "pays (bind (recordEventMeta mid ''tls_expiry'' msg meta) (\<lambda>event.
     bind (map_err g (query (q_InsertAlert mid (e_id event) alertChannelDefault))) (\<lambda>_.
     bind (map_err g' (query (q_SetTLSWarnedExpiry t mid))) (\<lambda>_. ret ()))))" for msg meta g g' t
    by (intro event_and_alert_pays outbox_rules tx_rules) simp
  then show ?thesis by (simp add: maybeWarnTLSExpiry_def Let_def pays_rules split: option.split)
qed

lemma recordBody_pays: "pays (recordBody x w po)"
proof -
  have "pays (case probe_transition po of None \<Rightarrow> ret '''' | Some (ty, msg) \<Rightarrow> bind (recordTransition mid ty msg) (\<lambda>_. ret ty))" for mid
    by (auto simp: probe_transition_def Let_def intro!: outbox_rules)
  then show ?thesis unfolding recordBody_def Let_def
    by (auto intro!: outbox_rules tx_rules split: prod.split)
qed

lemma updateBody_pays: "pays (updateBody x iu uu p)"
  unfolding updateBody_def by (auto intro!: outbox_rules tx_rules split: option.split)

lemma resumeBody_pays: "pays (resumeBody lib x iu uu t)"
  unfolding resumeBody_def by (intro outbox_rules tx_rules) simp

lemma flagBody_pays: "\<not> alerting ty \<Longrightarrow> stmt_keeps outbox q \<Longrightarrow> pays (flagBody x q ty msg)"
  unfolding flagBody_def by (intro pays_rules pays_query recordEvent_pays)

lemma failBody_pays: "pays (failBody i mid reason)"
  unfolding failBody_def Let_def by (intro outbox_rules) simp

section \<open>Every store operation keeps the outbox\<close>

interpretation checkin: tx_body outbox "checkinBody lib x p" for lib x p
  by unfold_locales (use checkinBody_pays in \<open>auto simp: pays_def intro: outbox_stable tx_rules\<close>)

interpretation evaluation: tx_body outbox "evaluateBody locked t limit" for locked t limit
  by unfold_locales (use evaluateBody_pays in \<open>auto simp: pays_def intro: outbox_stable tx_rules\<close>)

interpretation probe: tx_body outbox "recordBody x wallclock po" for x wallclock po
  by unfold_locales (use recordBody_pays in \<open>auto simp: pays_def intro: outbox_stable tx_rules\<close>)

interpretation config: tx_body outbox "updateBody x iu uu p" for x iu uu p
  by unfold_locales (use updateBody_pays in \<open>auto simp: pays_def intro: outbox_stable tx_rules\<close>)

interpretation resumption: tx_body outbox "resumeBody lib x iu uu t" for lib x iu uu t
  by unfold_locales (use resumeBody_pays in \<open>auto simp: pays_def intro: outbox_stable tx_rules\<close>)

interpretation pausing: tx_body outbox "flagBody x (q_PauseMonitor iu uu) ''pause'' msg" for x iu uu msg
  by unfold_locales (auto simp: pays_def [symmetric] intro!: outbox_stable tx_rules flagBody_pays outbox_rules)

interpretation muting: tx_body outbox "flagBody x (q_MuteMonitor iu uu) ''mute'' msg" for x iu uu msg
  by unfold_locales (auto simp: pays_def [symmetric] intro!: outbox_stable tx_rules flagBody_pays outbox_rules)

interpretation unmuting: tx_body outbox "flagBody x (q_UnmuteMonitor iu uu) ''unmute'' msg" for x iu uu msg
  by unfold_locales (auto simp: pays_def [symmetric] intro!: outbox_stable tx_rules flagBody_pays outbox_rules)

lemma failBody_rules: "strict (failBody i mid reason)" "grows (failBody i mid reason)"
  unfolding failBody_def Let_def by (intro tx_rules)+

interpretation failure: tx_body outbox "failBody i mid reason" for i mid reason
  by unfold_locales (use failBody_pays in \<open>auto simp: pays_def intro: outbox_stable failBody_rules\<close>)

lemma account_stmts_quiet [outbox_rules]:
  "quiet_stmt (q_CreateUser i email h)" "quiet_stmt (q_CreateRefreshToken i u f h t)"
  "quiet_stmt (q_RevokeRefreshTokenFamily f)" "quiet_stmt (q_RotateRefreshTokenIfUnrotated i)"
  "quiet_stmt (q_CreateAPIKey i u h l)" "quiet_stmt (q_RevokeAPIKey i u)" "quiet_stmt (q_TouchAPIKeyLastUsed i)"
  by (auto simp: quiet_stmt_def account_stmts Let_def)

lemma tx_ops_outbox:
  "keeps_all outbox (RecordCheckin lib x p)" "keeps_all outbox (EvaluateDueMonitors locked t limit)"
  "keeps_all outbox (RecordProbeResult x w po)" "keeps_all outbox (UpdateMonitor x i caller up)"
  "keeps_all outbox (ResumeMonitor lib x i caller t)" "keeps_all outbox (PauseMonitor x i caller)"
  "keeps_all outbox (MuteMonitor x i caller)" "keeps_all outbox (UnmuteMonitor x i caller)"
  "keeps_all outbox (FailAlert x k mon reason)"
  unfolding RecordCheckin_def EvaluateDueMonitors_def RecordProbeResult_def UpdateMonitor_def ResumeMonitor_def
    PauseMonitor_def MuteMonitor_def UnmuteMonitor_def flagMonitor_def FailAlert_def
  by (auto intro!: checkin.transaction_keeps evaluation.transaction_keeps probe.transaction_keeps
      config.transaction_keeps resumption.transaction_keeps pausing.transaction_keeps muting.transaction_keeps
      unmuting.transaction_keeps failure.transaction_keeps keeps_all_bind lift_rules parseMonitorIDs_rules)

lemma single_ops_outbox:
  "keeps_all outbox (DeleteMonitor x i caller)" "keeps_all outbox (MarkAlertSent k)" "keeps_all outbox (SuppressAlert k)"
  "keeps_all outbox (RescheduleAlert k t)" "keeps_all outbox (EnqueueDownReminders t)"
  "keeps_all outbox (RollupDay pc t)" "keeps_all outbox (PruneOldData fuel c t)"
proof -
  have "keeps_all outbox (upsertAll day es)" for day es
    by (induction es) (auto intro!: tx_rules outbox_rules)
  then show "keeps_all outbox (RollupDay pc t)"
    unfolding RollupDay_def Let_def by (intro tx_rules)
  show "keeps_all outbox (EnqueueDownReminders t)"
    unfolding EnqueueDownReminders_def by (intro keeps_all_withTx outbox_stable tx_rules outbox_rules)
qed (auto simp: DeleteMonitor_def MarkAlertSent_def SuppressAlert_def RescheduleAlert_def PruneOldData_def
      intro!: tx_rules outbox_rules)

lemma createLoop_outbox: "keeps_all outbox (createLoop n x u p rands ids)"
  by (induction n) (auto intro!: tx_rules outbox_rules)

lemma account_ops_outbox:
  "keeps_all outbox (CreateMonitor x cp rands ids)" "keeps_all outbox (Register x c i email pw open)"
  "keeps_all outbox (IssueRefreshToken x c i fr rand t uid ttl)"
  "keeps_all outbox (RotateRefreshToken x c i rand t t' tok ttl)" "keeps_all outbox (RevokeFamilyByToken c tok)"
  "keeps_all outbox (key_call x c kop)"
  unfolding CreateMonitor_def Register_def IssueRefreshToken_def RotateRefreshToken_def rotateLookup_def
    RevokeFamilyByToken_def key_call_def CreateAPIKey_def ListAPIKeys_def RevokeAPIKey_def AuthenticateAPIKey_def
    discard_def Let_def
  by (auto intro!: tx_rules outbox_rules createLoop_outbox split: option.split key_op.split)

section \<open>The reachable databases\<close>

text \<open>
  One call into the store by a request handler or by a worker. The alerter's marks take an
  arbitrary row id and a probe outcome is arbitrary, so calls that act on a stale claim are
  among them. The pruning worker also appears statement by statement.
\<close>

datatype store_op =
    Ping RecordCheckinParams
  | Evaluate "uuid \<Rightarrow> bool" gotime int
  | Probed gotime ProbeOutcome
  | Mutate string string mutation
  | Create CreateParams "nat \<Rightarrow> nat list option" "nat \<Rightarrow> uuid"
  | Remind gotime | MarkSent int | Suppress int | Reschedule int gotime | GiveUp int string string
  | SignUp uuid string string bool
  | Login uuid "nat list option" "nat list option" gotime string duration
  | Refresh uuid "nat list option" gotime gotime string duration | Logout string | Key key_op
  | Roll percentile gotime | Prune nat "nat \<Rightarrow> bool" gotime | PruneEvents gotime int

fun run_op :: "schedlib \<Rightarrow> extlib \<Rightarrow> cryptolib \<Rightarrow> store_op \<Rightarrow> unit dbm" where
  "run_op lib x c (Ping p) = discard (RecordCheckin lib x p)"
| "run_op lib x c (Evaluate locked t limit) = discard (EvaluateDueMonitors locked t limit)"
| "run_op lib x c (Probed w po) = discard (RecordProbeResult x w po)"
| "run_op lib x c (Mutate i caller mu) = mutate lib x i caller mu"
| "run_op lib x c (Create p rands ids) = discard (CreateMonitor x p rands ids)"
| "run_op lib x c (Remind t) = discard (EnqueueDownReminders t)"
| "run_op lib x c (MarkSent k) = MarkAlertSent k"
| "run_op lib x c (Suppress k) = SuppressAlert k"
| "run_op lib x c (Reschedule k t) = RescheduleAlert k t"
| "run_op lib x c (GiveUp k mon reason) = FailAlert x k mon reason"
| "run_op lib x c (SignUp i email pw open) = discard (Register x c i email pw open)"
| "run_op lib x c (Login i fr rand t user ttl) = discard (IssueRefreshToken x c i fr rand t user ttl)"
| "run_op lib x c (Refresh i rand t t' tok ttl) = discard (RotateRefreshToken x c i rand t t' tok ttl)"
| "run_op lib x c (Logout tok) = RevokeFamilyByToken c tok"
| "run_op lib x c (Key kop) = key_call x c kop"
| "run_op lib x c (Roll pc t) = discard (RollupDay pc t)"
| "run_op lib x c (Prune fuel cancelled t) = discard (PruneOldData fuel cancelled t)"
| "run_op lib x c (PruneEvents t n) = discard (query (q_DeleteOldEventsBatch t n))"

inductive store_reachable :: "schedlib \<Rightarrow> extlib \<Rightarrow> cryptolib \<Rightarrow> db \<Rightarrow> bool" for lib x c where
  start: "store_reachable lib x c empty_db"
| step: "store_reachable lib x c d \<Longrightarrow> store_reachable lib x c (run_db (run_op lib x c op) now os d)"

lemma mutate_outbox: "keeps_all outbox (mutate lib x i caller mu)"
  by (cases mu) (auto simp: discard_def intro!: tx_ops_outbox single_ops_outbox keeps_all_bind keeps_all_ret)

lemma run_op_outbox: "keeps_all outbox (run_op lib x c op)"
  by (cases op) (auto simp: discard_def intro!: tx_ops_outbox single_ops_outbox account_ops_outbox mutate_outbox
      keeps_all_bind keeps_all_ret keeps_all_query DeleteOldEvents_outbox)

lemma outbox_reachable: "store_reachable lib x c d \<Longrightarrow> outbox d"
proof (induction rule: store_reachable.induct)
  case start
  have "events empty_db = []" "alerts empty_db = []" by (simp_all add: empty_db_def)
  then show ?case using wf_empty_db by (simp add: outbox_def owed_def firsts_def)
next
  case (step d op now os)
  then show ?case by (intro keeps_all_run [OF run_op_outbox])
qed

lemma one_first:
  assumes "outbox d" and "e \<in> set (events d)" and "alerting (e_type e)"
  shows "length (filter (\<lambda>a. a_event_id a = e_id e \<and> \<not> a_is_reminder a) (alerts d)) = 1"
proof -
  let ?f = "filter (\<lambda>a. \<not> a_is_reminder a) (alerts d)"
  obtain a where a: "a \<in> set ?f" "a_event_id a = e_id e"
    using assms by (auto simp: outbox_def owed_def covered_def)
  have "filter (\<lambda>b. a_event_id b = e_id e) ?f = [a]"
    using assms(1) a by (intro filter_unique_key [of a_event_id]) (auto simp: outbox_def owed_def firsts_def)
  then show ?thesis by (simp add: conj_commute)
qed

text \<open>
  C1. The outbox is transactional. In every database that calls into the store can reach, in any
  order, with any clock and any failure of the connection or crash during each call, the schema's
  constraints hold, every event users must hear about (down, up, tls_expiry) has exactly one
  outbox row that is not a reminder, no such row belongs to another kind of event, and every
  outbox row, reminders included, belongs to such an event of the same monitor.
\<close>

theorem outbox_exactly_once:
  assumes "store_reachable lib x c d"
  shows "wf_db d \<and>
    (\<forall>e \<in> set (events d). length (filter (\<lambda>a. a_event_id a = e_id e \<and> \<not> a_is_reminder a) (alerts d)) =
       (if alerting (e_type e) then 1 else 0)) \<and>
    (\<forall>a \<in> set (alerts d). \<exists>e \<in> set (events d). e_id e = a_event_id a \<and> e_monitor_id e = a_monitor_id a \<and>
       alerting (e_type e))"
proof -
  have o: "outbox d" using assms by (rule outbox_reachable)
  then have j: "\<forall>a \<in> set (alerts d). \<exists>e \<in> set (events d). e_id e = a_event_id a \<and> e_monitor_id e = a_monitor_id a \<and>
       alerting (e_type e)" and wf: "wf_db d" by (auto simp: outbox_def owed_def justified_def)
  have "filter (\<lambda>a. a_event_id a = e_id e \<and> \<not> a_is_reminder a) (alerts d) = []"
    if e: "e \<in> set (events d)" "\<not> alerting (e_type e)" for e
  proof -
    have "a_event_id a \<noteq> e_id e" if "a \<in> set (alerts d)" for a
      using j that event_id_unique [OF wf e(1)] e(2) by metis
    then show ?thesis by (auto simp: filter_empty_conv)
  qed
  with one_first [OF o] wf j show ?thesis by auto
qed

text \<open>
  A sign-up, a new monitor, a failure ping that loses the connection before its commit, and the
  same ping again.
\<close>

definition demo_new :: CreateParams where
  "demo_new = \<lparr>cp_UserID = ''1'', cp_Kind = ''heartbeat'', cp_Name = ''n'', cp_ScheduleKind = ''period'',
     cp_PeriodS = Some 60, cp_CronExpr = '''', cp_TZ = ''UTC'', cp_GraceS = Some 60, cp_URL = '''',
     cp_Method = '''', cp_IntervalS = None, cp_TimeoutS = None, cp_FailThreshold = None,
     cp_HTTPConfig = None, cp_AutoResume = None\<rparr>"

fun run_ops :: "(store_op \<times> gotime \<times> outcome list) list \<Rightarrow> db \<Rightarrow> db" where
  "run_ops [] d = d"
| "run_ops ((op, now, os) # rest) d = run_ops rest (run_db (run_op demo_lib demo_ext demo_crypto op) now os d)"

lemma run_ops_reachable:
  "store_reachable demo_lib demo_ext demo_crypto d \<Longrightarrow> store_reachable demo_lib demo_ext demo_crypto (run_ops ops d)"
  by (induction ops d rule: run_ops.induct) (auto intro: store_reachable.step)

definition demo_start :: "(store_op \<times> gotime \<times> outcome list) list" where
  "demo_start = [(SignUp 1 ''a@b'' ''secret'' True, 10, []),
     (Create demo_new (\<lambda>_. Some (replicate 10 0)) (\<lambda>_. 7), 20, [])]"

definition demo_pings :: "(store_op \<times> gotime \<times> outcome list) list" where
  "demo_pings = [(Ping (demo_ping\<lparr>rp_Slug := ''aaaaaaaaaaaaaaaa''\<rparr>), 30, [Succeeds, Succeeds, Succeeds, FailsBefore]),
     (Ping (demo_ping\<lparr>rp_Slug := ''aaaaaaaaaaaaaaaa''\<rparr>), 40, [])]"

definition demo_started :: db where
  "demo_started = empty_db\<lparr>users := [\<lparr>u_id = 1, u_email = ''a@b'', u_password_hash = ''#secret'',
       u_created_at = 10, u_updated_at = 10\<rparr>],
     monitors := [new_monitor 7 (create_row_params 1 demo_new ''aaaaaaaaaaaaaaaa'') 20]\<rparr>"

lemma demo_slug: "generateSlug (Some (replicate 10 0)) = Inr ''aaaaaaaaaaaaaaaa''"
proof -
  have a: "char_of (97 :: nat) = CHR ''a''" by (simp add: char_of_def bit_0)
  have "group_slug (group_value 0 0 0 0 0) = ''aaaaaaaa''"
    by (simp add: group_slug_def group_value_def slug_char_def base32_char_def lower_char_def upt_rec a)
  then show ?thesis
    using slug_of_ten [of 0 0 0 0 0 0 0 0 0 0] by (simp add: numeral_eq_Suc)
qed

lemma demo_start_run: "run_ops demo_start empty_db = demo_started"
proof -
  let ?d = "demo_started\<lparr>monitors := []\<rparr>"
  let ?p = "create_row_params 1 demo_new ''aaaaaaaaaaaaaaaa''"
  have up: "run_db (run_op demo_lib demo_ext demo_crypto (SignUp 1 ''a@b'' ''secret'' True)) 10 [] empty_db = ?d"
    by code_simp
  have scan: "scanUUID demo_ext (cp_UserID demo_new) = Some 1" by code_simp
  have five: "maxSlugRetries = Suc 4" by (simp add: maxSlugRetries_def)
  have "query (q_CreateMonitor 7 ?p) (quiet ?d 20) = (Inr (new_monitor 7 ?p 20), quiet demo_started 20)"
    by (simp add: query_quiet q_CreateMonitor_def Let_def demo_started_def monitor_checks_def new_monitor_def
        create_row_params_def demo_new_def textOrNull_def)
  then have "CreateMonitor demo_ext demo_new (\<lambda>_. Some (replicate 10 0)) (\<lambda>_. 7) (quiet ?d 20) =
      (Inr (toMonitor demo_ext (new_monitor 7 ?p 20)), quiet demo_started 20)"
    by (simp only: CreateMonitor_def pgUUID_def scan lift_err_def bind_def ret_def five createLoop.simps demo_slug
        catch_def option.case sum.case prod.case)
  then have "run_db (run_op demo_lib demo_ext demo_crypto (Create demo_new (\<lambda>_. Some (replicate 10 0)) (\<lambda>_. 7))) 20 [] ?d
      = demo_started" by (simp add: run_db_def discard_def bind_def ret_def)
  with up show ?thesis by (simp add: demo_start_def)
qed

theorem outbox_exactly_once_witness:
  "map e_type (events (run_ops demo_pings demo_started)) = [''down''] \<and> wf_db (run_ops demo_pings demo_started) \<and>
   length (filter (\<lambda>a. \<not> a_is_reminder a) (alerts (run_ops demo_pings demo_started))) = 1"
proof -
  define d where "d = run_ops demo_pings demo_started"
  have r: "store_reachable demo_lib demo_ext demo_crypto d"
    unfolding d_def demo_start_run [symmetric] by (intro run_ops_reachable store_reachable.start)
  have "map e_type (events d) = [''down'']" unfolding d_def by code_simp
  then obtain e where e: "events d = [e]" "e_type e = ''down''" by auto
  from outbox_exactly_once [OF r] have w: "wf_db d"
    and l: "length (filter (\<lambda>a. a_event_id a = e_id e \<and> \<not> a_is_reminder a) (alerts d)) = 1"
    and a: "\<forall>a \<in> set (alerts d). e_id e = a_event_id a" by (auto simp: e)
  from a have "filter (\<lambda>a. \<not> a_is_reminder a) (alerts d) = filter (\<lambda>a. a_event_id a = e_id e \<and> \<not> a_is_reminder a) (alerts d)"
    by (auto intro!: filter_cong)
  with w l e show ?thesis unfolding d_def [symmetric] by simp
qed

end
