(* ===== verification/Heartbeat.thy ===== *)
theory Heartbeat
  imports Scheduler Monitor_Store
begin

text \<open>
  What a heartbeat monitor promises its owner, as an abstract machine with four states, and the
  proof that the check-in, the scheduler tick, pause and resume implement it together.
\<close>

section \<open>Simulations\<close>

text \<open>
  A program refines a machine when every step of the program is the machine's step on the
  abstract states. \<open>ok n\<close> holds of program states with room for \<open>n\<close> more steps.
\<close>

locale simulation =
  fixes ok :: "nat \<Rightarrow> 's \<Rightarrow> bool" and abstract :: "'s \<Rightarrow> 'a" and cstep :: "'i \<Rightarrow> 's \<Rightarrow> 's"
    and astep :: "'i \<Rightarrow> 'a \<Rightarrow> 'a" and legal :: "'i \<Rightarrow> bool"
  assumes sim: "ok (Suc n) s \<Longrightarrow> legal i \<Longrightarrow> ok n (cstep i s) \<and> abstract (cstep i s) = astep i (abstract s)"
begin

lemma runs:
  "ok (length is) s \<Longrightarrow> list_all legal is \<Longrightarrow> abstract (fold cstep is s) = fold astep is (abstract s)"
proof (induction "is" arbitrary: s)
  case (Cons i "is")
  then have "ok (length is) (cstep i s)" "abstract (cstep i s) = astep i (abstract s)" using sim by simp_all
  with Cons show ?case by simp
qed simp

end

section \<open>The machine\<close>

datatype health = HNew | HUp gotime | HLate gotime | HDown

record spec =
  h_health :: health
  h_paused :: bool
  h_news :: "string list"

datatype hb_input = Pinged string gotime | Evaluated gotime | PausedAt gotime | ResumedAt gotime

text \<open>
  The machine of a monitor whose schedule gives the occurrence \<open>nxt t\<close> after \<open>t\<close>. It lists the
  announcements of outages and recoveries.
\<close>

fun spec_step :: "(gotime \<Rightarrow> gotime) \<Rightarrow> duration \<Rightarrow> bool \<Rightarrow> hb_input \<Rightarrow> spec \<Rightarrow> spec" where
  "spec_step nxt grace auto (Pinged kind t) s =
    (if kind = ''start'' then s
     else if kind = ''success''
       then \<lparr>h_health = HUp (nxt t), h_paused = (h_paused s \<and> \<not> auto),
             h_news = h_news s @ (if h_health s = HDown then [''up''] else [])\<rparr>
     else \<lparr>h_health = HDown, h_paused = (h_paused s \<and> \<not> auto),
           h_news = h_news s @ (if h_health s = HDown then [] else [''down''])\<rparr>)"
| "spec_step nxt grace auto (Evaluated t) s =
    (if h_paused s then s
     else case h_health s of
       HUp occ \<Rightarrow> if occ < t then s\<lparr>h_health := HLate (occ + grace)\<rparr> else s
     | HLate limit \<Rightarrow> if limit < t then s\<lparr>h_health := HDown, h_news := h_news s @ [''down'']\<rparr> else s
     | _ \<Rightarrow> s)"
| "spec_step nxt grace auto (PausedAt t) s = s\<lparr>h_paused := True\<rparr>"
| "spec_step nxt grace auto (ResumedAt t) s = s\<lparr>h_health := HUp (nxt t), h_paused := False\<rparr>"

section \<open>The program\<close>

text \<open>A monitor of the store, its owner, and what the calls on it need.\<close>

record hb_env =
  he_lib :: schedlib
  he_ext :: extlib
  he_ping :: RecordCheckinParams
  he_id :: uuid
  he_user :: uuid
  he_slug :: string
  he_id_text :: string
  he_user_text :: string
  he_next :: "gotime \<Rightarrow> gotime"
  he_grace :: duration
  he_auto :: bool

fun drive :: "hb_env \<Rightarrow> hb_input \<Rightarrow> db \<Rightarrow> db" where
  "drive E (Pinged kind t) d =
     run_db (RecordCheckin (he_lib E) (he_ext E) ((he_ping E)\<lparr>rp_Slug := he_slug E, rp_Kind := kind, rp_Now := t\<rparr>)) t [] d"
| "drive E (Evaluated t) d = run_db (scheduler_tick (\<lambda>_. False) t) t [] d"
| "drive E (PausedAt t) d = run_db (PauseMonitor (he_ext E) (he_id_text E) (he_user_text E)) t [] d"
| "drive E (ResumedAt t) d = run_db (ResumeMonitor (he_lib E) (he_ext E) (he_id_text E) (he_user_text E) t) t [] d"

definition health_of :: "monitor_row \<Rightarrow> health" where
  "health_of m = (if m_state m = ''up'' then HUp (the (m_next_deadline m))
     else if m_state m = ''late'' then HLate (the (m_next_deadline m))
     else if m_state m = ''down'' then HDown else HNew)"

definition news :: "uuid \<Rightarrow> (uuid \<times> string) list \<Rightarrow> string list" where
  "news i es = map snd (filter (\<lambda>(mid, ty). mid = i \<and> (ty = ''down'' \<or> ty = ''up'')) es)"

definition current :: "uuid \<Rightarrow> db \<Rightarrow> monitor_row" where
  "current i d = the (the_row (\<lambda>m. m_id m = i) (monitors d))"

definition hb_abs :: "uuid \<Rightarrow> db \<Rightarrow> spec" where
  "hb_abs i d = \<lparr>h_health = health_of (current i d), h_paused = (m_paused_at (current i d) \<noteq> None),
     h_news = news i (map (\<lambda>e. (e_monitor_id e, e_type e)) (events d))\<rparr>"

text \<open>The row of the monitor in question: its schedule is valid and a running state has a deadline.\<close>

definition hb_row :: "hb_env \<Rightarrow> monitor_row \<Rightarrow> bool" where
  "hb_row E m \<longleftrightarrow> m_id m = he_id E \<and> m_slug m = he_slug E \<and> m_user_id m = he_user E \<and>
     m_auto_resume m = he_auto E \<and> seconds_of (int_value (m_grace_s m)) = he_grace E \<and>
     (\<forall>t. nextDeadlineFor (he_lib E) m t = Inr (Some (he_next E t))) \<and>
     (m_state m \<in> {''up'', ''late''} \<longrightarrow> m_next_deadline m \<noteq> None)"

text \<open>
  A database with room for \<open>n\<close> steps: one scheduler claim covers all monitors, and no failure
  streak reaches the end of its column.
\<close>

definition hb_ok :: "hb_env \<Rightarrow> nat \<Rightarrow> db \<Rightarrow> bool" where
  "hb_ok E n d \<longleftrightarrow> wf_db d \<and> int (length (monitors d)) \<le> claimLimit \<and>
     list_all (\<lambda>m. max 0 (m_fail_streak m) + int n < max_int32) (monitors d) \<and>
     list_ex (hb_row E) (monitors d) \<and>
     scanUUID (he_ext E) (he_id_text E) = Some (he_id E) \<and> scanUUID (he_ext E) (he_user_text E) = Some (he_user E)"

definition hb_legal :: "hb_input \<Rightarrow> bool" where
  "hb_legal inp = (case inp of Pinged kind t \<Rightarrow> kind \<in> {''success'', ''start'', ''fail''} | _ \<Rightarrow> True)"

lemma hb_current:
  assumes "hb_ok E n d"
  shows "current (he_id E) d \<in> set (monitors d)" "hb_row E (current (he_id E) d)"
    "\<And>r. r \<in> set (monitors d) \<Longrightarrow> m_id r = he_id E \<Longrightarrow> r = current (he_id E) d"
proof -
  obtain m where m: "m \<in> set (monitors d)" "hb_row E m" using assms by (auto simp: hb_ok_def list_ex_iff)
  then have "m_id m = he_id E" by (simp add: hb_row_def)
  then have "the_row (\<lambda>r. m_id r = he_id E) (monitors d) = Some m"
    using the_row_key [of m_id "monitors d" m] assms m by (simp add: hb_ok_def wf_db_monitor_ids)
  then have c: "current (he_id E) d = m" by (simp add: current_def)
  with m show "current (he_id E) d \<in> set (monitors d)" "hb_row E (current (he_id E) d)" by simp_all
  show "r = current (he_id E) d" if "r \<in> set (monitors d)" "m_id r = he_id E" for r
    using wf_db_monitor_unique [of d r m] assms m that by (simp add: c hb_ok_def hb_row_def)
qed

lemma the_row_map: "(\<And>r. m_id (f r) = m_id r) \<Longrightarrow>
    the_row (\<lambda>m. m_id m = i) (map f ms) = map_option f (the_row (\<lambda>m. m_id m = i) ms)"
  by (induction ms) auto

text \<open>A step that maps the monitor table, with at most one more failure per monitor.\<close>

lemma hb_mapped:
  assumes ok: "hb_ok E (Suc n) d" and wf: "wf_db d'" and ms: "monitors d' = map f (monitors d)"
    and f: "\<And>r. m_id (f r) = m_id r" "\<And>r. r \<in> set (monitors d) \<Longrightarrow> max 0 (m_fail_streak (f r)) \<le> max 0 (m_fail_streak r) + 1"
    and row: "hb_row E (f (current (he_id E) d))"
  shows "hb_ok E n d' \<and> current (he_id E) d' = f (current (he_id E) d)"
proof
  have "the_row (\<lambda>m. m_id m = he_id E) (monitors d) = Some (current (he_id E) d)"
    using hb_current(1,2) [OF ok] ok the_row_key [of m_id "monitors d" "current (he_id E) d"]
    by (simp add: hb_ok_def wf_db_monitor_ids hb_row_def)
  then show "current (he_id E) d' = f (current (he_id E) d)"
    by (simp add: current_def [of _ d'] ms the_row_map f(1))
  have "max 0 (m_fail_streak (f r)) + int n < max_int32" if "r \<in> set (monitors d)" for r
  proof -
    have "max 0 (m_fail_streak r) + int (Suc n) < max_int32"
      using ok that unfolding hb_ok_def list_all_iff by blast
    with f(2) [OF that] show ?thesis by linarith
  qed
  with ok wf ms row hb_current(1) [OF ok] show "hb_ok E n d'"
    by (auto simp: hb_ok_def list_all_iff list_ex_iff)
qed

section \<open>Every step is a step of the machine\<close>

lemma hb_row_cong:
  assumes "hb_row E m" and "m_id m' = m_id m" "m_slug m' = m_slug m" "m_user_id m' = m_user_id m"
    "m_auto_resume m' = m_auto_resume m" "m_grace_s m' = m_grace_s m" "m_kind m' = m_kind m"
    "m_schedule_kind m' = m_schedule_kind m" "m_period_s m' = m_period_s m" "m_cron_expr m' = m_cron_expr m" "m_tz m' = m_tz m"
    and "m_state m' \<in> {''up'', ''late''} \<Longrightarrow> m_next_deadline m' \<noteq> None"
  shows "hb_row E m'"
proof -
  have "nextDeadlineFor (he_lib E) m' t = nextDeadlineFor (he_lib E) m t" for t
    by (simp add: nextDeadlineFor_def scheduleConfig_def assms)
  with assms show ?thesis unfolding hb_row_def by simp
qed

lemma news_append: "news i (xs @ ys) = news i xs @ news i ys"
  by (simp add: news_def)

lemma news_filter_ids:
  "news i (map (\<lambda>r. (m_id r, g r)) (filter (\<lambda>r. m_id r = i) ms)) = news i (map (\<lambda>r. (m_id r, g r)) ms)"
  by (induction ms) (auto simp: news_def)

lemma ping_sim:
  fixes t :: gotime
  assumes ok: "hb_ok E (Suc n) d" and kind: "kind \<in> {''success'', ''start'', ''fail''}"
  defines "d' \<equiv> drive E (Pinged kind t) d"
  shows "hb_ok E n d' \<and> hb_abs (he_id E) d' = spec_step (he_next E) (he_grace E) (he_auto E) (Pinged kind t) (hb_abs (he_id E) d)"
proof -
  let ?m = "current (he_id E) d"
  let ?p = "(he_ping E)\<lparr>rp_Slug := he_slug E, rp_Kind := kind, rp_Now := t\<rparr>"
  let ?f = "\<lambda>r. if m_id r = he_id E then checked_in kind (Some (he_next E t)) t t r else r"
  have wf: "wf_db d" using ok by (simp add: hb_ok_def)
  have m: "?m \<in> set (monitors d)" "m_id ?m = he_id E" "m_slug ?m = he_slug E" "m_auto_resume ?m = he_auto E"
    "nextDeadlineFor (he_lib E) ?m t = Inr (Some (he_next E t))"
    using hb_current(1,2) [OF ok] by (simp_all add: hb_row_def)
  have row: "the_row (\<lambda>r. m_slug r = rp_Slug ?p) (monitors d) = Some ?m"
    using the_row_key [of m_slug "monitors d" ?m] wf m by (simp add: wf_db_def wf_monitors_def)
  have d': "d' = checkin_effect (he_ext E) ?p (Some (he_next E t)) ?m t d"
    unfolding d'_def drive.simps by (rule RecordCheckin_quiet(2) [OF wf row]) (use kind m in auto)
  have wf': "wf_db d'" unfolding d'_def drive.simps RecordCheckin_def
    by (rule keeps_all_run [OF keeps_all_withTx [OF wf_rollback_stable checkinBody_rules(3,2)] wf])
  have ms: "monitors d' = map ?f (monitors d)"
    by (simp add: d' checkin_effect_def with_optional_transition_def update_where_def m(2) split: option.split)
  have "max 0 (m_fail_streak (?f r)) \<le> max 0 (m_fail_streak r) + 1" if r: "r \<in> set (monitors d)" for r
  proof -
    have "max 0 (m_fail_streak r) + int (Suc n) < max_int32" using ok r unfolding hb_ok_def list_all_iff by blast
    moreover have "int32_range (m_fail_streak r)" using wf_db_monitor [OF wf r] by blast
    ultimately have "wrap32 (m_fail_streak r + 1) = m_fail_streak r + 1"
      by (intro wrap32_id) (simp add: int32_range_def max_int32_def)
    then show ?thesis by (simp add: checked_in_def max_def)
  qed
  moreover have "hb_row E (?f ?m)"
  proof -
    have "m_next_deadline ?m \<noteq> None" if "m_state ?m \<in> {''up'', ''late''}"
      using hb_current(2) [OF ok] that unfolding hb_row_def by blast
    then have "hb_row E (checked_in kind (Some (he_next E t)) t t ?m)"
      by (intro hb_row_cong [OF hb_current(2) [OF ok]]) (auto simp: checked_in_def split: if_splits)
    then show ?thesis by (simp add: m(2))
  qed
  ultimately have c: "hb_ok E n d' \<and> current (he_id E) d' = ?f ?m"
    by (intro hb_mapped [OF ok wf' ms]) (simp_all add: checked_in_def)
  have "health_of ?m = HDown \<longleftrightarrow> m_state ?m = ''down''" by (simp add: health_of_def)
  moreover have "map (\<lambda>e. (e_monitor_id e, e_type e)) (events d') = map (\<lambda>e. (e_monitor_id e, e_type e)) (events d) @
      (case checkin_transition kind (m_state ?m) of None \<Rightarrow> [] | Some (ty, _) \<Rightarrow> [(he_id E, ty)])"
    by (simp add: d' checkin_effect_def with_optional_transition_def with_transition_def with_event_def bump_defs m(2)
        split: option.split)
  ultimately show ?thesis using c kind m(2,4)
    by (auto simp: hb_abs_def news_append checkin_transition_def health_of_def checked_in_def news_def)
qed

lemma tick_sim:
  fixes t :: gotime
  assumes ok: "hb_ok E (Suc n) d"
  defines "d' \<equiv> drive E (Evaluated t) d"
  shows "hb_ok E n d' \<and> hb_abs (he_id E) d' = spec_step (he_next E) (he_grace E) (he_auto E) (Evaluated t) (hb_abs (he_id E) d)"
proof -
  let ?m = "current (he_id E) d" and ?c = "claimed (\<lambda>_. False) t claimLimit d"
  let ?f = "\<lambda>r. if m_id r \<in> m_id ` set ?c then sched_row t r else r"
  have wf: "wf_db d" using ok by (simp add: hb_ok_def)
  have m: "?m \<in> set (monitors d)" "m_id ?m = he_id E" "seconds_of (int_value (m_grace_s ?m)) = he_grace E"
    "m_state ?m \<in> {''up'', ''late''} \<Longrightarrow> m_next_deadline ?m \<noteq> None"
    using hb_current(1,2) [OF ok] by (simp_all add: hb_row_def)
  have c: "set ?c = {r \<in> set (monitors d). due t r}" using ok by (intro claimed_all) (unfold hb_ok_def, linarith)
  have streak: "m_fail_streak r + 1 < max_int32" if "r \<in> set (monitors d)" for r
  proof -
    have "max 0 (m_fail_streak r) + int (Suc n) < max_int32" using ok that unfolding hb_ok_def list_all_iff by blast
    then show ?thesis by linarith
  qed
  have "streak_ok r" if "r \<in> set ?c" for r using streak that c by (force simp: streak_ok_def)
  then have d': "d' = fold (sched_step t) ?c d"
    using EvaluateDueMonitors_quiet [OF wf, of claimLimit "\<lambda>_. False" t t]
    by (simp add: d'_def run_db_def scheduler_tick_def bind_def ret_def claimLimit_def)
  have wf': "wf_db d'" unfolding d'_def drive.simps scheduler_tick_def
    by (rule keeps_all_run [OF keeps_all_bind [OF EvaluateDueMonitors_wf keeps_all_ret] wf])
  have ms: "monitors d' = map ?f (monitors d)"
    unfolding d' by (rule fold_sched_monitors) (rule claimed_distinct [OF wf])
  have hit: "m_id ?m \<in> m_id ` set ?c \<longleftrightarrow> due t ?m"
  proof
    assume "m_id ?m \<in> m_id ` set ?c"
    then obtain r where "r \<in> set (monitors d)" "due t r" "m_id r = he_id E" using c m(2) by auto
    with hb_current(3) [OF ok] show "due t ?m" by metis
  qed (use m(1) c in auto)
  have row: "hb_row E (?f ?m)"
  proof (cases "due t ?m")
    case True
    then have "hb_row E (sched_row t ?m)"
      by (intro hb_row_cong [OF hb_current(2) [OF ok]]) (auto simp: sched_row_def split: if_splits)
    with True hit show ?thesis by simp
  qed (use hit hb_current(2) [OF ok] in simp)
  have "hb_ok E n d' \<and> current (he_id E) d' = ?f ?m"
    by (rule hb_mapped [OF ok wf' ms _ _ row]) (auto simp: sched_row_def max_def)
  moreover have "filter (\<lambda>r. m_id r = he_id E) ?c = (if due t ?m then [?m] else [])"
  proof (cases "due t ?m")
    case True
    with c m(1) have "?m \<in> set ?c" by simp
    with True m(2) show ?thesis
      using filter_unique_key [OF claimed_distinct [OF wf], of ?m "\<lambda>_. False" t claimLimit "\<lambda>r. m_id r = he_id E"] by simp
  next
    case False
    have "\<not> due t r" if "r \<in> set (monitors d)" "m_id r = he_id E" for r
      using hb_current(3) [OF ok that] False by simp
    with False show ?thesis by (auto simp: filter_empty_conv c)
  qed
  then have "news (he_id E) (map (\<lambda>r. (m_id r, sched_event_type r)) ?c) =
      news (he_id E) (map (\<lambda>r. (m_id r, sched_event_type r)) (if due t ?m then [?m] else []))"
    using news_filter_ids [of "he_id E" sched_event_type ?c] by simp
  moreover have "map (\<lambda>e. (e_monitor_id e, e_type e)) (events d') =
      map (\<lambda>e. (e_monitor_id e, e_type e)) (events d) @ map (\<lambda>r. (m_id r, sched_event_type r)) ?c"
    unfolding d' by (rule fold_sched_events)
  moreover have f: "?f ?m = (if due t ?m then sched_row t ?m else ?m)" by (simp only: hit)
  ultimately have ok': "hb_ok E n d'" and abs: "hb_abs (he_id E) d' =
      \<lparr>h_health = health_of (if due t ?m then sched_row t ?m else ?m),
       h_paused = (m_paused_at (if due t ?m then sched_row t ?m else ?m) \<noteq> None),
       h_news = h_news (hb_abs (he_id E) d) @ news (he_id E) (if due t ?m then [(he_id E, sched_event_type ?m)] else [])\<rparr>"
    by (simp_all only: hb_abs_def news_append m(2) list.map if_distrib [of "map _"] spec.select_convs)
  show ?thesis
  proof (cases "due t ?m")
    case True
    then obtain dl where dl: "m_next_deadline ?m = Some dl" "dl < t" "m_paused_at ?m = None"
      and st: "m_state ?m = ''up'' \<or> m_state ?m = ''late''"
      by (auto simp: due_def elim: null_less_SomeE)
    from st show ?thesis
    proof
      assume "m_state ?m = ''up''"
      with ok' abs True dl m(3) show ?thesis
        by (simp add: hb_abs_def [of _ d] health_of_def sched_row_def sched_event_type_def news_def)
    next
      assume "m_state ?m = ''late''"
      with ok' abs True dl show ?thesis
        by (simp add: hb_abs_def [of _ d] health_of_def sched_row_def sched_event_type_def news_def)
    qed
  next
    case False
    then have "m_paused_at ?m \<noteq> None \<or> m_state ?m \<notin> {''up'', ''late''} \<or>
        (\<exists>dl. m_next_deadline ?m = Some dl \<and> \<not> dl < t)" using m(4) by (auto simp: due_def)
    then have "spec_step (he_next E) (he_grace E) (he_auto E) (Evaluated t) (hb_abs (he_id E) d) = hb_abs (he_id E) d"
      by (auto simp: hb_abs_def health_of_def)
    with ok' abs False show ?thesis by (simp add: hb_abs_def [of _ d] news_def)
  qed
qed

text \<open>An owner's call on the monitor updates its row and appends a silent event.\<close>

definition with_row :: "uuid \<Rightarrow> (monitor_row \<Rightarrow> monitor_row) \<Rightarrow> db \<Rightarrow> db" where
  "with_row i f d = d\<lparr>monitors := update_where (\<lambda>r. m_id r = i) f (monitors d)\<rparr>"

lemma owner_update:
  assumes ok: "hb_ok E (Suc n) d" and q: "q t = sql_one (update_monitors (\<lambda>m. m_id m = he_id E \<and> m_user_id m = he_user E) f) t"
    and f: "\<And>m. monitor_checks m \<Longrightarrow> monitor_checks (f m)" "\<And>m. m_fail_streak (f m) = m_fail_streak m"
  shows "query q (quiet d t) = (Inr (f (current (he_id E) d)), quiet (with_row (he_id E) f d) t)"
proof -
  let ?m = "current (he_id E) d" and ?sel = "\<lambda>m. m_id m = he_id E \<and> m_user_id m = he_user E"
  have wf: "wf_db d" using ok by (simp add: hb_ok_def)
  have m: "?m \<in> set (monitors d)" "m_id ?m = he_id E" "m_user_id ?m = he_user E"
    using hb_current(1,2) [OF ok] by (simp_all add: hb_row_def)
  have "filter ?sel (monitors d) = [?m]"
    by (rule filter_unique_key [OF wf_db_monitor_ids [OF wf] m(1)]) (use m(2,3) in auto)
  then have "the_row ?sel (monitors d) = Some ?m"
    using first_row_filter [of ?sel "monitors d"] by (auto simp: first_row_def split: option.splits)
  moreover have "update_where ?sel f (monitors d) = update_where (\<lambda>r. m_id r = he_id E) f (monitors d)"
    unfolding update_where_def using hb_current(3) [OF ok] m(3) by (auto intro!: map_cong)
  moreover have "query q (quiet d t) = (case the_row ?sel (monitors d) of
      None \<Rightarrow> (Inl (DbE NoRows), quiet d t)
    | Some m \<Rightarrow> (Inr (f m), quiet (d\<lparr>monitors := update_where ?sel f (monitors d)\<rparr>) t))"
    by (rule query_one_update, rule q) (use f wf_db_monitor [OF wf] in auto)
  ultimately show ?thesis by (simp add: with_row_def)
qed

lemma owner_sim:
  assumes ok: "hb_ok E (Suc n) d" and wf': "wf_db d'"
    and d': "d' = with_event (he_id E) ty msg meta t (with_row (he_id E) f d)" and ty: "ty \<noteq> ''down''" "ty \<noteq> ''up''"
    and f: "\<And>m. m_id (f m) = m_id m" "\<And>m. m_fail_streak (f m) = m_fail_streak m" "hb_row E (f (current (he_id E) d))"
  shows "hb_ok E n d' \<and> hb_abs (he_id E) d' = (hb_abs (he_id E) d)\<lparr>h_health := health_of (f (current (he_id E) d)),
      h_paused := (m_paused_at (f (current (he_id E) d)) \<noteq> None)\<rparr>"
proof -
  let ?g = "\<lambda>r. if m_id r = he_id E then f r else r"
  have id: "m_id (current (he_id E) d) = he_id E" using hb_current(2) [OF ok] by (simp add: hb_row_def)
  have ms: "monitors d' = map ?g (monitors d)" by (simp add: d' with_row_def update_where_def)
  have "hb_ok E n d' \<and> current (he_id E) d' = ?g (current (he_id E) d)"
    by (rule hb_mapped [OF ok wf' ms]) (use f id in \<open>auto simp: max_def\<close>)
  moreover have "map (\<lambda>e. (e_monitor_id e, e_type e)) (events d') =
      map (\<lambda>e. (e_monitor_id e, e_type e)) (events d) @ [(he_id E, ty)]"
    by (simp add: d' with_event_def with_row_def bump_defs)
  moreover have "news (he_id E) [(he_id E, ty)] = []" using ty by (simp add: news_def)
  ultimately show ?thesis using id by (simp add: hb_abs_def news_append)
qed

lemma hb_ids:
  assumes "hb_ok E n d"
  shows "parseMonitorIDs (he_ext E) (he_id_text E) (he_user_text E) (quiet d t) = (Inr (he_id E, he_user E), quiet d t)"
  using assms by (simp add: hb_ok_def parseMonitorIDs_def uuid_or_404_def pgUUID_def bind_def ret_def)

lemma with_row_has:
  assumes "\<And>m. m_id (f m) = m_id m"
  shows "has_monitor (with_row i f d) j \<longleftrightarrow> has_monitor d j"
proof -
  have "map m_id (update_where (\<lambda>r. m_id r = i) f (monitors d)) = map m_id (monitors d)"
    using assms by (simp add: update_where_map_key)
  from arg_cong [OF this, of set] show ?thesis by (simp add: has_monitor_def with_row_def)
qed

lemma hb_has: "hb_ok E n d \<Longrightarrow> has_monitor d (he_id E)"
  using hb_current(1,2) [of E n d] unfolding has_monitor_def hb_row_def by (metis imageI)

lemma pause_sim:
  fixes t :: gotime
  assumes ok: "hb_ok E (Suc n) d"
  defines "d' \<equiv> drive E (PausedAt t) d"
  shows "hb_ok E n d' \<and> hb_abs (he_id E) d' = spec_step (he_next E) (he_grace E) (he_auto E) (PausedAt t) (hb_abs (he_id E) d)"
proof -
  let ?f = "\<lambda>m. m\<lparr>m_paused_at := Some t, m_updated_at := t\<rparr>" and ?m = "current (he_id E) d"
  have m: "?m \<in> set (monitors d)" "m_id ?m = he_id E" using hb_current(1,2) [OF ok] by (simp_all add: hb_row_def)
  have q: "query (q_PauseMonitor (he_id E) (he_user E)) (quiet d t) = (Inr (?f ?m), quiet (with_row (he_id E) ?f d) t)"
    by (rule owner_update [OF ok]) (simp_all add: q_PauseMonitor_def monitor_checks_def)
  have has: "has_monitor (with_row (he_id E) ?f d) (he_id E)" by (subst with_row_has) (simp_all add: hb_has [OF ok])
  have d': "d' = with_event (he_id E) ''pause'' ''Monitor paused'' MetaEmpty t (with_row (he_id E) ?f d)"
    by (simp add: d'_def run_db_def PauseMonitor_def flagMonitor_def bind_def [of "parseMonitorIDs _ _ _"] hb_ids [OF ok]
        withTx_unfold flagBody_def bind_def map_err_def q recordEvent_def recordEventMeta_quiet [OF has] ret_def m(2))
  have wf': "wf_db d'" unfolding d'_def drive.simps
    by (rule keeps_all_run) (use ok in \<open>auto intro: tx_rules simp: hb_ok_def\<close>)
  have row: "hb_row E (?f ?m)"
    by (rule hb_row_cong [OF hb_current(2) [OF ok]]) (use hb_current(2) [OF ok] in \<open>auto simp: hb_row_def\<close>)
  have "hb_ok E n d' \<and> hb_abs (he_id E) d' = (hb_abs (he_id E) d)\<lparr>h_health := health_of (?f ?m),
      h_paused := (m_paused_at (?f ?m) \<noteq> None)\<rparr>"
    by (rule owner_sim [OF ok wf' d' _ _ _ _ row]) simp_all
  then show ?thesis by (simp add: hb_abs_def health_of_def)
qed

lemma resume_sim:
  fixes t :: gotime
  assumes ok: "hb_ok E (Suc n) d"
  defines "d' \<equiv> drive E (ResumedAt t) d"
  shows "hb_ok E n d' \<and> hb_abs (he_id E) d' = spec_step (he_next E) (he_grace E) (he_auto E) (ResumedAt t) (hb_abs (he_id E) d)"
proof -
  let ?m = "current (he_id E) d"
  let ?f = "\<lambda>m. m\<lparr>m_paused_at := None, m_state := ''up'', m_next_deadline := Some (he_next E t), m_updated_at := t\<rparr>"
  have m: "?m \<in> set (monitors d)" "m_id ?m = he_id E" "nextDeadlineFor (he_lib E) ?m t = Inr (Some (he_next E t))"
    using hb_current(1,2) [OF ok] by (simp_all add: hb_row_def)
  have get: "query (q_GetMonitorByID (he_id E)) (quiet d t) = (Inr ?m, quiet d t)"
    using the_row_key [of m_id "monitors d" ?m] ok m(1,2)
    by (simp add: tx_unfold q_GetMonitorByID_def first_row_filter hb_ok_def wf_db_monitor_ids)
  have q: "query (q_ResumeMonitor (Some (he_next E t)) (he_id E) (he_user E)) (quiet d t) =
      (Inr (?f ?m), quiet (with_row (he_id E) ?f d) t)"
    by (rule owner_update [OF ok]) (simp_all add: q_ResumeMonitor_def monitor_checks_def)
  have has: "has_monitor (with_row (he_id E) ?f d) (he_id E)" by (subst with_row_has) (simp_all add: hb_has [OF ok])
  have d': "d' = with_event (he_id E) ''resume'' ''Monitor resumed'' MetaEmpty t (with_row (he_id E) ?f d)"
    by (simp add: d'_def run_db_def ResumeMonitor_def bind_def [of "parseMonitorIDs _ _ _"] hb_ids [OF ok]
        withTx_unfold resumeBody_def bind_def map_err_def lift_err_def get m(3) q recordEvent_def
        recordEventMeta_quiet [OF has] ret_def m(2))
  have wf': "wf_db d'" unfolding d'_def drive.simps
    by (rule keeps_all_run) (use ok in \<open>auto intro: tx_rules simp: hb_ok_def\<close>)
  have row: "hb_row E (?f ?m)" by (rule hb_row_cong [OF hb_current(2) [OF ok]]) simp_all
  have "hb_ok E n d' \<and> hb_abs (he_id E) d' = (hb_abs (he_id E) d)\<lparr>h_health := health_of (?f ?m),
      h_paused := (m_paused_at (?f ?m) \<noteq> None)\<rparr>"
    by (rule owner_sim [OF ok wf' d' _ _ _ _ row]) simp_all
  then show ?thesis by (simp add: health_of_def)
qed

interpretation heartbeat: simulation "hb_ok E" "hb_abs (he_id E)" "drive E"
  "spec_step (he_next E) (he_grace E) (he_auto E)" hb_legal for E
proof unfold_locales
  fix n d inp assume ok: "hb_ok E (Suc n) d" and legal: "hb_legal inp"
  then show "hb_ok E n (drive E inp d) \<and> hb_abs (he_id E) (drive E inp d) =
      spec_step (he_next E) (he_grace E) (he_auto E) inp (hb_abs (he_id E) d)"
  proof (cases inp)
    case (Pinged kind t)
    with ok legal ping_sim [OF ok, of kind t] show ?thesis by (simp only: hb_legal_def hb_input.case)
  next
    case (Evaluated t)
    then show ?thesis using tick_sim [OF ok, of t] by (simp only:)
  next
    case (PausedAt t)
    then show ?thesis using pause_sim [OF ok, of t] by (simp only:)
  next
    case (ResumedAt t)
    then show ?thesis using resume_sim [OF ok, of t] by (simp only:)
  qed
qed

section \<open>The refinement\<close>

text \<open>
  C2. Refinement. For any sequence of pings, scheduler ticks, pauses and resumes of a heartbeat
  monitor with a valid schedule, the store's calls on the whole database (other monitors
  included) act on the monitor exactly as the four-state machine: its state, its deadline or end
  of grace, whether it is paused, and the outages and recoveries announced. The database may hold
  at most one scheduler claim of monitors and no failure streak near the end of its column.
\<close>

theorem heartbeat_refines:
  assumes "hb_ok E (length inputs) d" and "list_all hb_legal inputs"
  shows "hb_abs (he_id E) (fold (drive E) inputs d) =
    fold (spec_step (he_next E) (he_grace E) (he_auto E)) inputs (hb_abs (he_id E) d)"
  using assms by (rule heartbeat.runs)

definition demo_hb_env :: hb_env where
  "demo_hb_env = \<lparr>he_lib = demo_lib, he_ext = demo_ext, he_ping = demo_ping, he_id = 7, he_user = 1, he_slug = ''s'',
     he_id_text = ''7'', he_user_text = ''1'', he_next = (\<lambda>t. t + Minute), he_grace = Minute, he_auto = True\<rparr>"

definition demo_inputs :: "hb_input list" where
  "demo_inputs = [Pinged ''success'' 100, Evaluated (101 + Minute), Evaluated (102 + 2 * Minute),
     Pinged ''success'' (103 + 2 * Minute)]"

lemma demo_hb_row: "hb_row demo_hb_env demo_monitor"
proof -
  have "valid_config demo_lib (scheduleConfig demo_monitor)"
    by (simp add: valid_config_def demo_lib_def demo_monitor_def scheduleConfig_def text_value_def
        KindPeriod_def schedule_bounds seconds_of_def int64_range_def)
  then have "nextDeadlineFor demo_lib demo_monitor t = Inr (Some (t + Minute))" for t
    by (simp add: nextDeadlineFor_def NextOccurrence_valid)
       (simp add: demo_monitor_def scheduleConfig_def text_value_def KindPeriod_def seconds_of_def
         int64_range_def duration_units)
  moreover have "seconds_of 60 = Minute" by (simp add: seconds_of_def int64_range_def duration_units)
  ultimately show ?thesis by (simp add: hb_row_def demo_hb_env_def) (simp add: demo_monitor_def)
qed

theorem heartbeat_refines_witness:
  "hb_abs 7 (fold (drive demo_hb_env) demo_inputs demo_db) =
     \<lparr>h_health = HUp (103 + 3 * Minute), h_paused = False, h_news = [''down'', ''up'']\<rparr>"
proof -
  have "monitors demo_db = [demo_monitor]" by (simp add: demo_db_def)
  moreover have "m_fail_streak demo_monitor = 0" by (simp add: demo_monitor_def)
  moreover have "scanUUID demo_ext ''7'' = Some 7" "scanUUID demo_ext ''1'' = Some 1" by code_simp+
  ultimately have "hb_ok demo_hb_env (length demo_inputs) demo_db"
    using demo_db_wf demo_hb_row
    by (simp add: hb_ok_def claimLimit_def max_int32_def demo_inputs_def demo_hb_env_def)
  moreover have "list_all hb_legal demo_inputs" by (simp add: demo_inputs_def hb_legal_def)
  ultimately have "hb_abs (he_id demo_hb_env) (fold (drive demo_hb_env) demo_inputs demo_db) =
      fold (spec_step (he_next demo_hb_env) (he_grace demo_hb_env) (he_auto demo_hb_env)) demo_inputs
        (hb_abs (he_id demo_hb_env) demo_db)"
    by (rule heartbeat_refines)
  moreover have "hb_abs 7 demo_db = \<lparr>h_health = HUp 5, h_paused = False, h_news = []\<rparr>"
    by (simp add: hb_abs_def current_def demo_db_def demo_monitor_def health_of_def news_def empty_db_def)
  ultimately show ?thesis by (simp add: demo_hb_env_def demo_inputs_def duration_units)
qed

end
