(* ===== verification/Mail.thy ===== *)
theory Mail
  imports Alerter Calendar
begin

text \<open>
  Email notifications: the templates of src/backend/alert/template.go and the SMTP channel of
  src/backend/alert/email.go, with the mail server as a record of its answers.
\<close>

section \<open>Text\<close>

definition dash :: string where
  "dash = map char_of [32, 226, 128, 148, 32 :: nat]"

definition LF :: char where "LF = char_of (10 :: nat)"
definition CR :: char where "CR = char_of (13 :: nat)"

text \<open>\<^verbatim>\<open>html.EscapeString\<close>.\<close>

definition escape_char :: "char \<Rightarrow> string" where
  "escape_char c = (if c = CHR ''&'' then ''&amp;'' else if byte c = 39 then ''&#39;''
     else if c = CHR ''<'' then ''&lt;'' else if c = CHR ''>'' then ''&gt;''
     else if byte c = 34 then ''&#34;'' else [c])"

definition EscapeString :: "string \<Rightarrow> string" where
  "EscapeString s = concat (map escape_char s)"

text \<open>The layouts \<^verbatim>\<open>time.RFC1123\<close> and \<^verbatim>\<open>time.RFC1123Z\<close> of an instant in UTC; day 0 is a Monday.\<close>

definition weekdays :: "string list" where
  "weekdays = [''Mon'', ''Tue'', ''Wed'', ''Thu'', ''Fri'', ''Sat'', ''Sun'']"

definition months :: "string list" where
  "months = [''Jan'', ''Feb'', ''Mar'', ''Apr'', ''May'', ''Jun'', ''Jul'', ''Aug'', ''Sep'', ''Oct'', ''Nov'', ''Dec'']"

definition format_RFC1123 :: "string \<Rightarrow> gotime \<Rightarrow> string" where
  "format_RFC1123 zone t =
    (let (y, m, dd) = date_of_days (t div Day); s = t mod Day div Second in
     weekdays ! nat (t div Day mod 7) @ '', '' @ show_padded 2 dd @ '' '' @ months ! nat ((m - 1) mod 12) @ '' '' @
     show_padded 4 y @ '' '' @ show_padded 2 (s div 3600) @ '':'' @ show_padded 2 (s mod 3600 div 60) @ '':'' @
     show_padded 2 (s mod 60) @ '' '' @ zone)"

text \<open>
  What the templates take from outside: \<open>hours\<close> is \<^verbatim>\<open>int(d.Hours())\<close>, a floating-point division
  (the two smaller units stay below the rounding error), and \<open>clock\<close> the time read when a
  notification has no instant of its own.
\<close>

record mail_env =
  hours :: "duration \<Rightarrow> int"
  clock :: gotime

section \<open>Templates\<close>

record Message =
  ms_To :: string
  ms_Subject :: string
  ms_TextBody :: string
  ms_HTMLBody :: string

definition reasonOrDefault :: "string \<Rightarrow> string \<Rightarrow> string" where
  "reasonOrDefault reason def = (if str_TrimSpace reason = '''' then def else reason)"

definition humanDuration :: "mail_env \<Rightarrow> duration \<Rightarrow> string" where
  "humanDuration V d0 =
    (let d = max d0 0 in
     if d < Minute then show_int (d div Second) @ ''s''
     else if d < Hour then show_int (d div Minute) @ ''m''
     else if d < 24 * Hour then
       (let h = hours V d; m = d div Minute mod 60 in
        if m = 0 then show_int h @ ''h'' else show_int h @ ''h '' @ show_int m @ ''m'')
     else
       (let days = hours V d sdiv 24; h = hours V d smod 24 in
        if h = 0 then show_int days @ ''d'' else show_int days @ ''d '' @ show_int h @ ''h''))"

definition expiryWindow :: "mail_env \<Rightarrow> gotime \<Rightarrow> gotime \<Rightarrow> string" where
  "expiryWindow V expiresAt now0 =
    (if time_IsZero expiresAt then ''unknown''
     else let now = (if time_IsZero now0 then clock V else now0); d = time_Sub expiresAt now in
       if d \<le> 0 then ''already expired''
       else if d < 48 * Hour then ''in '' @ show_int (hours V d) @ '' hours''
       else ''in '' @ show_int (hours V d sdiv 24) @ '' days'')"

definition subject :: "mail_env \<Rightarrow> Notification \<Rightarrow> string" where
  "subject V n = (case no_Kind n of
      KindDown \<Rightarrow> ''[DOWN] '' @ no_MonitorName n @ dash @ reasonOrDefault (no_Reason n) ''check failed''
    | KindUp \<Rightarrow> ''[UP] '' @ no_MonitorName n @ dash @ ''recovered after '' @ humanDuration V (no_Downtime n)
    | KindTLSExpiry \<Rightarrow> ''[TLS] '' @ no_MonitorName n @ dash @ ''certificate expires '' @
        expiryWindow V (no_TLSExpiresAt n) (no_At n)
    | KindReminder \<Rightarrow> ''[DOWN] '' @ no_MonitorName n @ dash @ ''still down after '' @ humanDuration V (no_Downtime n)
    | KindTest \<Rightarrow> ''[TEST] ping'' @ dash @ ''SMTP delivery is working'')"

definition line :: "string \<Rightarrow> string" where
  "line s = s @ [LF]"

definition renderText :: "mail_env \<Rightarrow> Notification \<Rightarrow> string" where
  "renderText V n =
    (case no_Kind n of
       KindDown \<Rightarrow> line (no_MonitorName n @ '' is DOWN.'') @ [LF] @
         line (''Reason: '' @ reasonOrDefault (no_Reason n) ''check failed'')
     | KindUp \<Rightarrow> line (no_MonitorName n @ '' has RECOVERED.'') @ [LF] @ line (''Downtime: '' @ humanDuration V (no_Downtime n))
     | KindTLSExpiry \<Rightarrow> line (no_MonitorName n @ '': TLS certificate expiring soon.'') @ [LF] @
         line (''Expires: '' @ format_RFC1123 ''UTC'' (no_TLSExpiresAt n) @ '' ('' @
           expiryWindow V (no_TLSExpiresAt n) (no_At n) @ '')'')
     | KindReminder \<Rightarrow> line (no_MonitorName n @ '' is STILL DOWN.'') @ [LF] @
         line (''Down for: '' @ humanDuration V (no_Downtime n)) @
         (if no_Reason n \<noteq> '''' then line (''Reason: '' @ no_Reason n) else [])
     | KindTest \<Rightarrow> line ''This is a test email from ping.'' @ [LF] @
         line ''If you received this, your SMTP settings are working and alerts will be delivered here.'') @
    (if no_MonitorSlug n \<noteq> '''' then line (''Monitor: '' @ no_MonitorSlug n) else []) @
    (if \<not> time_IsZero (no_At n) then line (''Time: '' @ format_RFC1123 ''UTC'' (no_At n)) else []) @
    (if no_DashboardURL n \<noteq> '''' then [LF] @ line (''View monitor: '' @ no_DashboardURL n) else [])"

definition colBg :: string where "colBg = ''#0B0D10''"
definition colSurface :: string where "colSurface = ''#12151A''"
definition colBorder :: string where "colBorder = ''#232830''"
definition colText :: string where "colText = ''#E6EAF0''"
definition colTextDim :: string where "colTextDim = ''#8B94A3''"
definition colAccent :: string where "colAccent = ''#6E9BF5''"
definition colUp :: string where "colUp = ''#2DD4A7''"
definition colLate :: string where "colLate = ''#F5B84B''"
definition colDown :: string where "colDown = ''#F4564E''"

definition accentFor :: "alert_kind \<Rightarrow> string" where
  "accentFor k = (case k of KindUp \<Rightarrow> colUp | KindTLSExpiry \<Rightarrow> colLate | KindDown \<Rightarrow> colDown
     | KindReminder \<Rightarrow> colDown | KindTest \<Rightarrow> colAccent)"

definition headline :: "Notification \<Rightarrow> string" where
  "headline n = (case no_Kind n of KindDown \<Rightarrow> ''Monitor is down'' | KindUp \<Rightarrow> ''Monitor recovered''
     | KindTLSExpiry \<Rightarrow> ''TLS certificate expiring'' | KindReminder \<Rightarrow> ''Still down'' | KindTest \<Rightarrow> ''SMTP test email'')"

definition html_row :: "string \<Rightarrow> string \<Rightarrow> string" where
  "html_row label val = (if val = '''' then []
     else ''<tr><td style=\"padding:4px 0;color:'' @ colTextDim @ '';font-size:13px;width:120px;vertical-align:top\">'' @
       EscapeString label @ ''</td>'' @ ''<td style=\"padding:4px 0;color:'' @ colText @ '';font-size:13px\">'' @
       EscapeString val @ ''</td></tr>'')"

definition html_rows :: "mail_env \<Rightarrow> Notification \<Rightarrow> string" where
  "html_rows V n =
    (case no_Kind n of
       KindDown \<Rightarrow> html_row ''Reason'' (reasonOrDefault (no_Reason n) ''check failed'')
     | KindUp \<Rightarrow> html_row ''Downtime'' (humanDuration V (no_Downtime n))
     | KindTLSExpiry \<Rightarrow> html_row ''Expires'' (format_RFC1123 ''UTC'' (no_TLSExpiresAt n)) @
         html_row ''Window'' (expiryWindow V (no_TLSExpiresAt n) (no_At n))
     | KindReminder \<Rightarrow> html_row ''Down for'' (humanDuration V (no_Downtime n)) @ html_row ''Reason'' (no_Reason n)
     | KindTest \<Rightarrow> []) @
    html_row ''Monitor'' (no_MonitorSlug n) @
    (if \<not> time_IsZero (no_At n) then html_row ''Time'' (format_RFC1123 ''UTC'' (no_At n)) else [])"

definition html_button :: "Notification \<Rightarrow> string" where
  "html_button n = (if no_DashboardURL n = '''' then []
     else ''<a href=\"'' @ EscapeString (no_DashboardURL n) @
       ''\" style=\"display:inline-block;margin-top:20px;padding:9px 16px;'' @ ''background:'' @ colAccent @ '';color:'' @ colBg @
       '';text-decoration:none;border-radius:6px;font-size:13px;font-weight:600\">View monitor</a>'')"

definition html_intro :: "Notification \<Rightarrow> string" where
  "html_intro n = (if no_Kind n = KindTest
     then ''<p style=\"margin:0 0 4px;color:'' @ colTextDim @ '';font-size:13px\">'' @
       ''If you received this, your SMTP settings are working and alerts will be delivered here.</p>''
     else [])"

definition renderHTML :: "mail_env \<Rightarrow> Notification \<Rightarrow> string" where
  "renderHTML V n =
     line ''<!doctype html>'' @
     line (''<html><body style=\"margin:0;padding:0;background:'' @ colBg @ ''\">'') @
     line (''<table role=\"presentation\" width=\"100%\" cellpadding=\"0\" cellspacing=\"0\" style=\"background:'' @ colBg @
       ''\"><tr><td align=\"center\" style=\"padding:24px\">'') @
     line (''<table role=\"presentation\" width=\"480\" cellpadding=\"0\" cellspacing=\"0\" style=\"max-width:480px;background:'' @
       colSurface @ '';border:1px solid '' @ colBorder @ '';border-radius:8px\">'') @
     line ''<tr><td style=\"padding:24px\">'' @
     line (''<div style=\"font-size:12px;letter-spacing:.08em;text-transform:uppercase;color:'' @ accentFor (no_Kind n) @
       '';font-weight:600\">ping</div>'') @
     line (''<h1 style=\"margin:6px 0 16px;color:'' @ colText @ '';font-size:18px;font-weight:600\">'' @
       EscapeString (headline n) @ '': '' @ EscapeString (no_MonitorName n) @ ''</h1>'') @
     line (html_intro n) @
     line (''<table role=\"presentation\" cellpadding=\"0\" cellspacing=\"0\" width=\"100%\">'' @ html_rows V n @ ''</table>'') @
     line (html_button n) @
     line ''</td></tr></table>'' @ line ''</td></tr></table>'' @ ''</body></html>''"

definition Render :: "mail_env \<Rightarrow> Notification \<Rightarrow> Message" where
  "Render V n = \<lparr>ms_To = '''', ms_Subject = subject V n, ms_TextBody = renderText V n, ms_HTMLBody = renderHTML V n\<rparr>"

section \<open>The SMTP channel\<close>

record EmailConfig =
  ec_Host :: string
  ec_Port :: int
  ec_Username :: string
  ec_Password :: string
  ec_From :: string

definition configured :: "EmailConfig \<Rightarrow> bool" where
  "configured c \<longleftrightarrow> ec_Host c \<noteq> '''' \<and> ec_From c \<noteq> ''''"

text \<open>
  An error of a stage: the code of an SMTP reply (\<^verbatim>\<open>*textproto.Error\<close>) if it carries one, and
  whether it is a \<^verbatim>\<open>net.Error\<close>.
\<close>

record smtperr =
  se_Code :: "int option"
  se_Net :: bool

definition isRetryable :: "string \<Rightarrow> smtperr \<Rightarrow> bool" where
  "isRetryable op err =
    (if op = ''auth'' then False
     else case se_Code err of
       Some code \<Rightarrow> code \<ge> 400 \<and> code < 500
     | None \<Rightarrow> se_Net err \<or> op \<in> {''dial'', ''tls'', ''starttls'', ''greet''})"

definition sendErr :: "string \<Rightarrow> smtperr \<Rightarrow> senderr" where
  "sendErr op err = SendError (isRetryable op err) op"

text \<open>
  The answers of the network and the mail server to one delivery (None: no error). The extensions
  a server offers may depend on whether the connection is encrypted.
\<close>

record smtpd =
  sd_dial :: "smtperr option"
  sd_tls :: "smtperr option"
  sd_greet :: "smtperr option"
  sd_offers :: "string \<Rightarrow> bool \<Rightarrow> bool"
  sd_starttls :: "smtperr option"
  sd_auth :: "smtperr option"
  sd_mail :: "smtperr option"
  sd_rcpt :: "smtperr option"
  sd_data :: "smtperr option"
  sd_write :: "smtperr option"
  sd_close :: "smtperr option"

text \<open>The calls on the SMTP client that carry data to the server, with a flag for an encrypted connection.\<close>

datatype wire = AUTH string string bool | MAIL string bool | RCPT string bool | DATA string bool

text \<open>The result of \<open>dial\<close> is whether the connection is encrypted.\<close>

definition dial :: "EmailConfig \<Rightarrow> smtpd \<Rightarrow> senderr + bool" where
  "dial c S =
    (case sd_dial S of
       Some e \<Rightarrow> Inl (sendErr ''dial'' e)
     | None \<Rightarrow>
         (case (if ec_Port c = 465 then sd_tls S else None) of
            Some e \<Rightarrow> Inl (sendErr ''tls'' e)
          | None \<Rightarrow>
              (case sd_greet S of
                 Some e \<Rightarrow> Inl (sendErr ''greet'' e)
               | None \<Rightarrow>
                   if ec_Port c \<noteq> 465
                   then (if sd_offers S ''STARTTLS'' False
                         then (case sd_starttls S of Some e \<Rightarrow> Inl (sendErr ''starttls'' e) | None \<Rightarrow> Inr True)
                         else Inr False)
                   else Inr True)))"

definition authenticate :: "EmailConfig \<Rightarrow> smtpd \<Rightarrow> bool \<Rightarrow> senderr option \<times> wire list" where
  "authenticate c S tls =
    (if ec_Username c = '''' then (None, [])
     else if \<not> sd_offers S ''AUTH'' tls then (Some (SendError False ''auth''), [])
     else if \<not> tls then (Some (SendError False ''auth''), [])
     else (map_option (sendErr ''auth'') (sd_auth S), [AUTH (ec_Username c) (ec_Password c) tls]))"

definition hasHeaderInjection :: "string \<Rightarrow> bool" where
  "hasHeaderInjection s = list_ex (\<lambda>c. c = CR \<or> c = LF) s"

fun crlf_to_lf :: "string \<Rightarrow> string" where
  "crlf_to_lf (a # b # s) = (if a = CR \<and> b = LF then LF # crlf_to_lf s else a # crlf_to_lf (b # s))"
| "crlf_to_lf s = s"

fun lf_to_crlf :: "string \<Rightarrow> string" where
  "lf_to_crlf [] = []"
| "lf_to_crlf (a # s) = (if a = LF then CR # LF # lf_to_crlf s else a # lf_to_crlf s)"

definition normalizeCRLF :: "string \<Rightarrow> string" where
  "normalizeCRLF s = lf_to_crlf (crlf_to_lf s)"

definition crlf :: string where
  "crlf = [CR, LF]"

text \<open>\<open>q\<close> is \<^verbatim>\<open>mime.QEncoding.Encode("utf-8", _)\<close>; the clock is read for the date and for the boundary.\<close>

definition mime_boundary :: "gotime \<Rightarrow> string" where
  "mime_boundary t = ''ping-boundary-'' @ show_int ((t - 62135596800 * Second) mod 2 ^ 31)"

definition buildMIME :: "(string \<Rightarrow> string) \<Rightarrow> gotime \<Rightarrow> gotime \<Rightarrow> string \<Rightarrow> Message \<Rightarrow> string" where
  "buildMIME q t t' from msg =
    (let hdr = ''From: '' @ from @ crlf @ ''To: '' @ ms_To msg @ crlf @ ''Subject: '' @ q (ms_Subject msg) @ crlf @
           ''MIME-Version: 1.0'' @ crlf @ ''Date: '' @ format_RFC1123 ''+0000'' t @ crlf in
     if ms_HTMLBody msg = '''' then hdr @ ''Content-Type: text/plain; charset=utf-8'' @ crlf @ crlf @ normalizeCRLF (ms_TextBody msg)
     else let b = mime_boundary t' in
       hdr @ ''Content-Type: multipart/alternative; boundary=\"'' @ b @ ''\"'' @ crlf @ crlf @
       ''--'' @ b @ crlf @ ''Content-Type: text/plain; charset=utf-8'' @ crlf @ crlf @ normalizeCRLF (ms_TextBody msg) @ crlf @
       ''--'' @ b @ crlf @ ''Content-Type: text/html; charset=utf-8'' @ crlf @ crlf @ normalizeCRLF (ms_HTMLBody msg) @ crlf @
       ''--'' @ b @ ''--'' @ crlf)"

text \<open>The stages after authentication; the first error ends the delivery. QUIT is best effort.\<close>

definition deliver :: "(string \<Rightarrow> string) \<Rightarrow> gotime \<Rightarrow> gotime \<Rightarrow> EmailConfig \<Rightarrow> smtpd \<Rightarrow> bool \<Rightarrow> Message \<Rightarrow> senderr option \<times> wire list" where
  "deliver q t t' c S tls msg =
    (case sd_mail S of Some e \<Rightarrow> (Some (sendErr ''from'' e), [MAIL (ec_From c) tls])
     | None \<Rightarrow>
    (case sd_rcpt S of Some e \<Rightarrow> (Some (sendErr ''rcpt'' e), [MAIL (ec_From c) tls, RCPT (ms_To msg) tls])
     | None \<Rightarrow>
    (case sd_data S of Some e \<Rightarrow> (Some (sendErr ''data'' e), [MAIL (ec_From c) tls, RCPT (ms_To msg) tls])
     | None \<Rightarrow>
        (map_option (sendErr ''write'') (coalesce (sd_write S) (sd_close S)),
         [MAIL (ec_From c) tls, RCPT (ms_To msg) tls, DATA (buildMIME q t t' (ec_From c) msg) tls]))))"

definition Send :: "(string \<Rightarrow> string) \<Rightarrow> gotime \<Rightarrow> gotime \<Rightarrow> EmailConfig \<Rightarrow> smtpd \<Rightarrow> Message \<Rightarrow> senderr option \<times> wire list" where
  "Send q t t' c S msg =
    (if \<not> configured c then (Some ErrNotConfigured, [])
     else if hasHeaderInjection (ms_To msg) \<or> hasHeaderInjection (ec_From c) \<or> hasHeaderInjection (ms_Subject msg)
       then (Some (SendError False ''validate''), [])
     else case dial c S of
       Inl e \<Rightarrow> (Some e, [])
     | Inr tls \<Rightarrow>
         (case authenticate c S tls of
            (Some e, w) \<Rightarrow> (Some e, w)
          | (None, w) \<Rightarrow> (case deliver q t t' c S tls msg of (r, w') \<Rightarrow> (r, w @ w'))))"

text \<open>The channel of the alerter: render the notification, address it, send it.\<close>

definition email_send ::
  "mail_env \<Rightarrow> (string \<Rightarrow> string) \<Rightarrow> gotime \<Rightarrow> gotime \<Rightarrow> EmailConfig \<Rightarrow> smtpd \<Rightarrow> Notification \<Rightarrow> string \<Rightarrow>
     senderr option \<times> wire list" where
  "email_send V q t t' c S n to = Send q t t' c S ((Render V n)\<lparr>ms_To := to\<rparr>)"

text \<open>The error is what \<open>dispatch\<close> decides on.\<close>

definition email_channel :: "mail_env \<Rightarrow> (string \<Rightarrow> string) \<Rightarrow> gotime \<Rightarrow> gotime \<Rightarrow> EmailConfig \<Rightarrow> smtpd \<Rightarrow> channel" where
  "email_channel V q t t' c S n to = fst (email_send V q t t' c S n to)"

section \<open>Headers and credentials\<close>

fun crlf_lines :: "string \<Rightarrow> string \<Rightarrow> string list" where
  "crlf_lines acc (a # b # s) = (if a = CR \<and> b = LF then acc # crlf_lines [] s else crlf_lines (acc @ [a]) (b # s))"
| "crlf_lines acc s = [acc @ s]"

definition header_lines :: "string \<Rightarrow> string list" where
  "header_lines s = takeWhile (\<lambda>l. l \<noteq> []) (crlf_lines [] s)"

lemma CR_LF [simp]: "CR \<noteq> LF" "LF \<noteq> CR"
  by (simp_all add: CR_def LF_def char_of_def bit_0)

lemma no_injection: "\<not> hasHeaderInjection s \<longleftrightarrow> CR \<notin> set s \<and> LF \<notin> set s"
  by (auto simp: hasHeaderInjection_def list_ex_iff)

lemma crlf_lines_line: "CR \<notin> set l \<Longrightarrow> crlf_lines acc (l @ crlf @ s) = (acc @ l) # crlf_lines [] s"
proof (induction l arbitrary: acc)
  case Nil
  then show ?case by (cases s) (simp_all add: crlf_def)
next
  case (Cons a l)
  obtain b r where r: "l @ crlf @ s = b # r" by (cases "l @ crlf @ s") (simp_all add: crlf_def)
  with Cons have "crlf_lines acc ((a # l) @ crlf @ s) = crlf_lines (acc @ [a]) (l @ crlf @ s)" by auto
  with Cons show ?case by simp
qed

lemma header_lines_line:
  "CR \<notin> set l \<Longrightarrow> header_lines (l @ crlf @ s) = (if l = [] then [] else l # header_lines s)"
  by (simp add: header_lines_def crlf_lines_line)

lemma crlf_roundtrip: "crlf_to_lf (lf_to_crlf s) = s"
proof (induction s)
  case (Cons a s)
  have "lf_to_crlf s = [] \<or> hd (lf_to_crlf s) \<noteq> LF" by (cases s) auto
  with Cons show ?case by (cases "lf_to_crlf s") (auto simp: CR_def LF_def)
qed simp

lemma normalizeCRLF_idem: "normalizeCRLF (normalizeCRLF s) = normalizeCRLF s"
  by (simp add: normalizeCRLF_def crlf_roundtrip)

text \<open>The printable text of the headers: numbers and dates contain no line break.\<close>

definition plain :: "string \<Rightarrow> bool" where
  "plain s \<longleftrightarrow> CR \<notin> set s"

lemma plain_simps [simp]: "plain []" "plain (s @ t) \<longleftrightarrow> plain s \<and> plain t" "plain (c # s) \<longleftrightarrow> c \<noteq> CR \<and> plain s"
  by (auto simp: plain_def)

lemma CR_chars: "CR = CHR 0x0D"
  by (simp add: CR_def char_of_def bit_0)

lemma LF_chars: "LF = CHR 0x0A"
  by (simp add: LF_def char_of_def bit_0)

lemma plain_show_int [simp]: "plain (show_int i)"
proof -
  have "CR \<notin> set (show_nat n)" for n
    using show_nat_digits [of CR n] by (auto simp: is_digit_def CR_def)
  then show ?thesis by (simp add: show_int_def plain_def CR_chars)
qed

lemma plain_show_padded [simp]: "plain (show_padded w i)"
proof -
  have "plain s \<Longrightarrow> plain (replicate n (CHR ''0'') @ s)" for n s by (induction n) (simp_all add: CR_chars)
  then show ?thesis using plain_show_int by (simp add: show_padded_def pad_left_def CR_chars del: plain_simps(2))
qed

lemma plain_nth: "\<forall>s \<in> set xs. plain s \<Longrightarrow> xs \<noteq> [] \<Longrightarrow> plain (xs ! nat (i mod int (length xs)))"
  by (simp add: nat_less_iff)

lemma plain_date [simp]: "plain zone \<Longrightarrow> plain (format_RFC1123 zone t)"
proof -
  have "plain (weekdays ! nat (i mod 7))" "plain (months ! nat (i mod 12))" for i
    using plain_nth [of weekdays i] plain_nth [of months i] by (simp_all add: weekdays_def months_def CR_chars)
  then show "plain zone \<Longrightarrow> plain (format_RFC1123 zone t)"
    by (simp add: format_RFC1123_def Let_def CR_chars split: prod.split)
qed

text \<open>RFC 2047 words contain printable characters only.\<close>

definition encodes_lines :: "(string \<Rightarrow> string) \<Rightarrow> bool" where
  "encodes_lines q \<longleftrightarrow> (\<forall>s. \<not> hasHeaderInjection (q s))"

definition content_type :: "gotime \<Rightarrow> Message \<Rightarrow> string" where
  "content_type t' msg = (if ms_HTMLBody msg = '''' then ''Content-Type: text/plain; charset=utf-8''
     else ''Content-Type: multipart/alternative; boundary=\"'' @ mime_boundary t' @ ''\"'')"

lemma buildMIME_headers:
  assumes "encodes_lines q" and "\<not> hasHeaderInjection from" and "\<not> hasHeaderInjection (ms_To msg)"
  shows "header_lines (buildMIME q t t' from msg) =
    [''From: '' @ from, ''To: '' @ ms_To msg, ''Subject: '' @ q (ms_Subject msg), ''MIME-Version: 1.0'',
     ''Date: '' @ format_RFC1123 ''+0000'' t, content_type t' msg]"
proof -
  obtain rest where m: "buildMIME q t t' from msg = (''From: '' @ from) @ crlf @ (''To: '' @ ms_To msg) @ crlf @
      (''Subject: '' @ q (ms_Subject msg)) @ crlf @ ''MIME-Version: 1.0'' @ crlf @
      (''Date: '' @ format_RFC1123 ''+0000'' t) @ crlf @ content_type t' msg @ crlf @ [] @ crlf @ rest"
    unfolding buildMIME_def Let_def content_type_def append_assoc by (cases "ms_HTMLBody msg = ''''") simp_all
  have "plain from" "plain (ms_To msg)" "plain (q (ms_Subject msg))"
    using assms by (auto simp: encodes_lines_def no_injection plain_def)
  moreover have "plain (content_type t' msg)" by (simp add: content_type_def mime_boundary_def CR_chars)
  moreover have "content_type t' msg \<noteq> []" by (simp add: content_type_def)
  moreover have "plain (format_RFC1123 ''+0000'' t)" by (rule plain_date) (simp add: CR_chars)
  ultimately show ?thesis unfolding m
    by (subst header_lines_line, simp add: CR_chars plain_def)+ (simp add: header_lines_line)
qed

lemma dial_encrypted: "dial c S = Inr tls \<Longrightarrow> ec_Port c = 465 \<or> sd_offers S ''STARTTLS'' False \<Longrightarrow> tls"
  by (auto simp: dial_def split: option.splits if_splits)

lemma authenticate_wire: "authenticate c S tls = (r, w) \<Longrightarrow> k \<in> set w \<Longrightarrow> k = AUTH (ec_Username c) (ec_Password c) True \<and> tls"
  by (auto simp: authenticate_def split: if_splits)

text \<open>
  C36. Whatever the mail server answers and whatever text a monitor name, a probe error or an
  account's email holds: the SMTP password is only ever sent over an encrypted connection, the
  envelope names exactly the configured sender and the one recipient, and the message that is
  sent has exactly six header lines, so no text can add a header or a recipient.
\<close>

theorem send_safe:
  assumes "encodes_lines q" and "Send q t t' c S msg = (res, wires)" and "w \<in> set wires"
  shows "case w of
      AUTH user pw tls \<Rightarrow> tls \<and> user = ec_Username c \<and> pw = ec_Password c
    | MAIL from tls \<Rightarrow> from = ec_From c
    | RCPT to tls \<Rightarrow> to = ms_To msg
    | DATA bytes tls \<Rightarrow> header_lines bytes =
        [''From: '' @ ec_From c, ''To: '' @ ms_To msg, ''Subject: '' @ q (ms_Subject msg), ''MIME-Version: 1.0'',
         ''Date: '' @ format_RFC1123 ''+0000'' t, content_type t' msg]"
proof -
  obtain tls where dial: "dial c S = Inr tls" and ok: "\<not> hasHeaderInjection (ec_From c)" "\<not> hasHeaderInjection (ms_To msg)"
    using assms(2,3) by (auto simp: Send_def split: if_splits sum.splits)
  obtain r1 w1 r2 w2 where a: "authenticate c S tls = (r1, w1)" and d: "deliver q t t' c S tls msg = (r2, w2)" by force
  have "wires = w1 \<or> wires = w1 @ w2"
    using assms(2,3) by (auto simp: Send_def dial a d split: if_splits option.splits)
  with assms(3) consider "w \<in> set w1" | "w \<in> set w2" by auto
  then show ?thesis
  proof cases
    case 1
    with authenticate_wire [OF a] have "w = AUTH (ec_Username c) (ec_Password c) True" by blast
    then show ?thesis by simp
  next
    case 2
    with d buildMIME_headers [OF assms(1) ok] show ?thesis by (auto simp: deliver_def split: option.splits)
  qed
qed

definition demo_mail :: EmailConfig where
  "demo_mail = \<lparr>ec_Host = ''mail'', ec_Port = 587, ec_Username = ''u'', ec_Password = ''p'', ec_From = ''ping@x''\<rparr>"

definition demo_smtpd :: smtpd where
  "demo_smtpd = \<lparr>sd_dial = None, sd_tls = None, sd_greet = None, sd_offers = (\<lambda>_ _. True), sd_starttls = None, sd_auth = None,
     sd_mail = None, sd_rcpt = None, sd_data = None, sd_write = None, sd_close = None\<rparr>"

text \<open>A stand-in for the encoder: characters that are not printable become question marks.\<close>

definition demo_encode :: "string \<Rightarrow> string" where
  "demo_encode = map (\<lambda>c. if 32 \<le> byte c \<and> byte c < 127 then c else CHR ''?'')"

lemma demo_encodes: "encodes_lines demo_encode"
proof -
  have "byte CR = 13" "byte LF = 10" by (simp_all add: CR_def LF_def byte_def)
  moreover have "CHR ''?'' \<noteq> CR" "CHR ''?'' \<noteq> LF" by (simp_all add: CR_chars LF_chars)
  ultimately show ?thesis
    by (auto simp: encodes_lines_def hasHeaderInjection_def demo_encode_def list_ex_iff split: if_splits)
qed

definition demo_message :: Message where
  "demo_message = \<lparr>ms_To = ''a@b'', ms_Subject = ''hi'', ms_TextBody = ''x'', ms_HTMLBody = ''''\<rparr>"

theorem send_safe_witness:
  "\<exists>res auth mail rcpt bytes tls.
     Send demo_encode 0 0 demo_mail demo_smtpd demo_message = (res, [auth, mail, rcpt, DATA bytes tls]) \<and>
     length (header_lines bytes) = 6"
proof -
  obtain res wires where run: "Send demo_encode 0 0 demo_mail demo_smtpd demo_message = (res, wires)" by force
  then have w: "wires = [AUTH ''u'' ''p'' True, MAIL ''ping@x'' True, RCPT ''a@b'' True,
      DATA (buildMIME demo_encode 0 0 ''ping@x'' demo_message) True]"
    by (auto simp: Send_def configured_def demo_mail_def demo_message_def hasHeaderInjection_def CR_chars LF_def dial_def
        demo_smtpd_def authenticate_def deliver_def char_of_def bit_0)
  from send_safe [OF demo_encodes run, of "DATA (buildMIME demo_encode 0 0 ''ping@x'' demo_message) True"]
  have "length (header_lines (buildMIME demo_encode 0 0 ''ping@x'' demo_message)) = 6" by (simp add: w)
  with run w show ?thesis by blast
qed

section \<open>Names with line breaks\<close>

lemma announces_kind: "announces r n \<Longrightarrow> no_Kind n \<noteq> KindTest"
  by (simp add: announces_def)

lemma subject_names:
  "no_Kind n \<noteq> KindTest \<Longrightarrow> hasHeaderInjection (no_MonitorName n) \<Longrightarrow> hasHeaderInjection (subject V n)"
  by (auto simp: subject_def hasHeaderInjection_def split: alert_kind.split)

lemma Send_injection:
  "configured c \<Longrightarrow> hasHeaderInjection (ms_Subject msg) \<Longrightarrow>
    Send q t t' c S msg = (Some (SendError False ''validate''), [])"
  by (simp add: Send_def)

lemma email_send_newline:
  assumes "configured c" and "no_Kind n \<noteq> KindTest" and "hasHeaderInjection (no_MonitorName n)"
  shows "email_send V q u u' c S n to = (Some (SendError False ''validate''), [])"
  using Send_injection [of c "(Render V n)\<lparr>ms_To := to\<rparr>" q u u' S] subject_names [of n V] assms
  by (simp add: email_send_def Render_def)

text \<open>What a sequence of messages handed to the channel puts on the wire.\<close>

definition emailed ::
  "mail_env \<Rightarrow> (string \<Rightarrow> string) \<Rightarrow> gotime \<Rightarrow> gotime \<Rightarrow> EmailConfig \<Rightarrow> smtpd \<Rightarrow> (Notification \<times> string) list \<Rightarrow> wire list" where
  "emailed V q t t' c S sent = concat (map (\<lambda>(n, to). snd (email_send V q t t' c S n to)) sent)"

text \<open>Whatever the connection does, the messages of a dispatch carry the monitor's name.\<close>

lemma render_name:
  "render x b t job s = (Inr n, s') \<Longrightarrow> no_MonitorName n = aj_MonitorName job \<and> no_Kind n \<noteq> KindTest"
  by (auto simp: render_def Let_def bind_def map_err_def ret_def split: if_splits sum.splits prod.splits)

lemma logged_returns: "\<exists>s'. logged m s = (Inr (), s')"
  by (cases "m s"; cases "fst (m s)") (auto simp: logged_def catch_def ret_def split: sum.split)

lemma logged_then: "\<exists>s'. bind (logged m) (\<lambda>_. ret v) s = (Inr v, s')"
  using logged_returns [of m s] by (auto simp: bind_def ret_def)

lemma dispatch_name:
  "\<exists>sent s'. dispatch x (Some send) b t t' job s = (Inr sent, s') \<and>
    (\<forall>(n, to) \<in> set sent. no_MonitorName n = aj_MonitorName job \<and> no_Kind n \<noteq> KindTest)"
proof (cases "aj_AlertsMuted job")
  case True
  with logged_then [of "SuppressAlert (aj_ID job)" "[]" s] show ?thesis by (auto simp: dispatch_def)
next
  case False
  obtain res s1 where r: "render x b t job s = (res, s1)" by force
  show ?thesis
  proof (cases res)
    case (Inl e)
    with False r logged_then [of "FailAlert x (aj_ID job) (aj_MonitorID job) ''could not build notification''" "[]" s1]
    show ?thesis
      by (auto simp: dispatch_def bind_def [of "catch _ _"] bind_def [of "render _ _ _ _"] catch_def [of "bind _ _"] ret_def [of None] fail_def)
  next
    case (Inr n)
    have name: "no_MonitorName n = aj_MonitorName job \<and> no_Kind n \<noteq> KindTest" using render_name r Inr by blast
    have "\<exists>m. dispatch x (Some send) b t t' job s = bind (logged m) (\<lambda>_. ret [(n, aj_Recipient job)]) s1"
      using False r Inr
      by (auto simp: dispatch_def bind_def [of "catch _ _"] bind_def [of "render _ _ _ _"] catch_def [of "bind _ _"]
          ret_def [of "Some _"] fail_def Let_def split: option.split)
    with name logged_then show ?thesis by fastforce
  qed
qed

text \<open>
  C37. No alert of a monitor whose name contains a line break is ever mailed. Whatever the mail
  server would answer and whatever the database does meanwhile, a dispatch of its outbox row puts
  nothing on the wire; on a connection that holds, the channel is handed the one notification of
  the row, which it refuses for good: the row is marked failed and an 'alert_failed' event is logged.
\<close>

theorem newline_name_fails:
  assumes "wf_db d" and "a \<in> set (alerts d)" and "a_attempts a < max_int32" and "join_alert d a = Some r"
    and "scanUUID x (uuidString x (a_monitor_id a)) = Some (a_monitor_id a)"
    and "configured c" and "\<not> ca_AlertsMuted r" and "hasHeaderInjection (ca_MonitorName r)"
  shows "(case dispatch x (Some (email_channel V q u u' c S)) b t t' (alert_job x r) s of
      (Inr sent, _) \<Rightarrow> emailed V q u u' c S sent = [] | (Inl _, _) \<Rightarrow> False) \<and>
    (\<exists>n d'. dispatch x (Some (email_channel V q u u' c S)) b t t' (alert_job x r) (quiet d now) =
        (Inr [(n, ca_Recipient r)], quiet d' now) \<and>
      announces r n \<and> email_send V q u u' c S n (ca_Recipient r) = (Some (SendError False ''validate''), []) \<and>
      alerts d' = update_where (\<lambda>p. a_id p = a_id a)
        (\<lambda>p. p\<lparr>a_status := ''failed'', a_attempts := a_attempts p + 1\<rparr>) (alerts d) \<and>
      map e_type (events d') = map e_type (events d) @ [''alert_failed''])"
proof
  let ?ch = "email_channel V q u u' c S"
  obtain sent s' where run: "dispatch x (Some ?ch) b t t' (alert_job x r) s = (Inr sent, s')"
    and names: "\<forall>(n, to) \<in> set sent. no_MonitorName n = aj_MonitorName (alert_job x r) \<and> no_Kind n \<noteq> KindTest"
    using dispatch_name [of x ?ch b t t' "alert_job x r" s] by blast
  have "email_send V q u u' c S n to = (Some (SendError False ''validate''), [])" if "(n, to) \<in> set sent" for n to
    using names that assms(6,8) by (intro email_send_newline) (auto simp: alert_job_def)
  then have "emailed V q u u' c S sent = []" by (auto simp: emailed_def)
  then show "case dispatch x (Some ?ch) b t t' (alert_job x r) s of
      (Inr sent, _) \<Rightarrow> emailed V q u u' c S sent = [] | (Inl _, _) \<Rightarrow> False"
    by (simp add: run)
next
  let ?ch = "email_channel V q u u' c S"
  obtain d' n where run: "dispatch x (Some ?ch) b t t' (alert_job x r) (quiet d now) = (Inr [(n, ca_Recipient r)], quiet d' now)"
    and an: "announces r n"
    and al: "alerts d' = update_where (\<lambda>p. a_id p = a_id a) (delivered (?ch n (ca_Recipient r)) t' now) (alerts d)"
    and ev: "map e_type (events d') = map e_type (events d) @
      (if gives_up (?ch n (ca_Recipient r)) a then [''alert_failed''] else [])"
    using dispatch_quiet [OF assms(1-5), of ?ch b t t' now] assms(7) by auto
  have "hasHeaderInjection (no_MonitorName n)" using an assms(8) by (simp add: announces_def)
  then have send: "email_send V q u u' c S n (ca_Recipient r) = (Some (SendError False ''validate''), [])"
    by (rule email_send_newline [OF assms(6) announces_kind [OF an]])
  have "delivered (Some (SendError False ''validate'')) t' now =
      (\<lambda>p. p\<lparr>a_status := ''failed'', a_attempts := a_attempts p + 1\<rparr>)"
    by (auto simp: delivered_def)
  moreover have "gives_up (Some (SendError False ''validate'')) a" by (simp add: gives_up_def)
  ultimately show "\<exists>n d'. dispatch x (Some ?ch) b t t' (alert_job x r) (quiet d now) =
        (Inr [(n, ca_Recipient r)], quiet d' now) \<and>
      announces r n \<and> email_send V q u u' c S n (ca_Recipient r) = (Some (SendError False ''validate''), []) \<and>
      alerts d' = update_where (\<lambda>p. a_id p = a_id a)
        (\<lambda>p. p\<lparr>a_status := ''failed'', a_attempts := a_attempts p + 1\<rparr>) (alerts d) \<and>
      map e_type (events d') = map e_type (events d) @ [''alert_failed'']"
    using run al ev an send by (intro exI [of _ n] exI [of _ d']) (simp add: email_channel_def)
qed

definition broken_outbox :: db where
  "broken_outbox = demo_outbox\<lparr>monitors := map (\<lambda>m. m\<lparr>m_name := ''a'' @ [LF]\<rparr>) (monitors demo_outbox)\<rparr>"

definition demo_mail_env :: mail_env where
  "demo_mail_env = \<lparr>hours = (\<lambda>d. d div Hour), clock = 0\<rparr>"

theorem newline_name_fails_witness:
  "\<exists>n d'. dispatch demo_ext (Some (email_channel demo_mail_env demo_encode 0 0 demo_mail demo_smtpd)) '''' 60 60
      (alert_job demo_ext (the (join_alert broken_outbox demo_alert))) (quiet broken_outbox 70) = (Inr [n], quiet d' 70) \<and>
    emailed demo_mail_env demo_encode 0 0 demo_mail demo_smtpd [n] = [] \<and>
    map a_status (alerts d') = [''failed''] \<and> map e_type (events d') = [''down'', ''alert_failed'']"
proof -
  obtain r where r: "join_alert broken_outbox demo_alert = Some r" "\<not> ca_AlertsMuted r" "hasHeaderInjection (ca_MonitorName r)"
    by (simp add: join_alert_def broken_outbox_def demo_outbox_def demo_db_def demo_user_def demo_monitor_def demo_event_def
        demo_alert_def new_alert_def hasHeaderInjection_def)
  have a: "demo_alert \<in> set (alerts broken_outbox)" "a_attempts demo_alert < max_int32" "a_monitor_id demo_alert = 7"
    "alerts broken_outbox = [demo_alert]" "map e_type (events broken_outbox) = [''down'']" "a_status demo_alert = ''pending''"
    by (simp_all add: broken_outbox_def demo_outbox_def demo_alert_def demo_event_def new_alert_def max_int32_def)
  have u: "scanUUID demo_ext (uuidString demo_ext (a_monitor_id demo_alert)) = Some (a_monitor_id demo_alert)"
    by (rule demo_ext_roundtrip) (simp add: a(3) int64_range_def)
  have wf: "wf_db broken_outbox"
    by (simp add: wf_db_def wf_table_defs broken_outbox_def demo_outbox_def demo_db_def empty_db_def demo_user_def
      demo_monitor_def demo_event_def demo_alert_def new_alert_def monitor_checks_def int32_range_def)
  have c: "configured demo_mail" by (simp add: configured_def demo_mail_def)
  from newline_name_fails [OF wf a(1,2) r(1) u c r(2,3), of demo_mail_env demo_encode 0 0 demo_smtpd "''''" 60 60
      "quiet broken_outbox 70" 70]
  show ?thesis by (auto simp: a(4,5) r(1))
qed

section \<open>Escaping\<close>

text \<open>The characters that open and close tags and attribute values.\<close>

definition markup :: "string \<Rightarrow> string" where
  "markup = filter (\<lambda>c. c = CHR ''<'' \<or> c = CHR ''>'' \<or> byte c = 34 \<or> byte c = 39)"

lemma markup_append: "markup (s @ t) = markup s @ markup t"
  by (simp add: markup_def)

lemma markup_escape: "markup (EscapeString s) = []"
proof -
  have "markup (escape_char c) = []" for c
    by (simp add: markup_def escape_char_def byte_def)
  then show ?thesis by (induction s) (simp_all add: EscapeString_def markup_append, simp add: markup_def)
qed

definition row_frame :: string where
  "row_frame = markup (html_row [] ''x'')"

lemma markup_row: "markup (html_row l v) = (if v = '''' then [] else row_frame)"
proof (cases "v = ''''")
  case False
  then show ?thesis unfolding row_frame_def html_row_def
    by (simp only: if_False markup_append markup_escape list.distinct not_False_eq_True)
qed (simp add: html_row_def markup_def)

lemma reasonOrDefault_nonempty: "def \<noteq> '''' \<Longrightarrow> reasonOrDefault s def \<noteq> ''''"
  by (auto simp: reasonOrDefault_def str_TrimSpace_def trim_left.simps [of "[]"])

lemma rendered_nonempty:
  "humanDuration V d \<noteq> []" "expiryWindow V e t \<noteq> []" "format_RFC1123 z t \<noteq> []"
  by (simp_all add: humanDuration_def expiryWindow_def format_RFC1123_def Let_def split: prod.split)

text \<open>The shape of a notification: its kind and which optional parts it has.\<close>

definition shape :: "Notification \<Rightarrow> alert_kind \<times> bool \<times> bool \<times> bool \<times> bool" where
  "shape n = (no_Kind n, no_Reason n = '''', no_MonitorSlug n = '''', time_IsZero (no_At n), no_DashboardURL n = '''')"

text \<open>
  C38. The HTML mail cannot be injected into: two notifications of the same shape are rendered
  with the same sequence of angle brackets and quotes, whatever their monitor names, reasons,
  slugs and links contain, so no text of theirs opens or closes a tag or an attribute.
\<close>

theorem html_escaped:
  assumes "shape n = shape n'"
  shows "markup (renderHTML V n) = markup (renderHTML V n')"
proof -
  have sh: "no_Kind n = no_Kind n'" "(no_Reason n = '''') = (no_Reason n' = '''')"
      "(no_MonitorSlug n = '''') = (no_MonitorSlug n' = '''')" "time_IsZero (no_At n) = time_IsZero (no_At n')"
      "(no_DashboardURL n = '''') = (no_DashboardURL n' = '''')"
    using assms by (simp_all add: shape_def)
  have rows: "markup (html_rows V n) = markup (html_rows V n')"
    by (simp add: html_rows_def sh markup_append markup_row rendered_nonempty reasonOrDefault_nonempty split: alert_kind.split)
  have "markup (html_button n) = markup (html_button n')"
    unfolding html_button_def sh(5) by (simp only: markup_append markup_escape split: if_split) simp
  moreover have "html_intro n = html_intro n'" "headline n = headline n'" "accentFor (no_Kind n) = accentFor (no_Kind n')"
    by (simp_all add: html_intro_def headline_def sh(1))
  ultimately show ?thesis
    unfolding renderHTML_def line_def by (simp only: markup_append markup_escape rows)
qed

definition demo_note :: "string \<Rightarrow> Notification" where
  "demo_note name = \<lparr>no_Kind = KindDown, no_MonitorName = name, no_MonitorSlug = ''s'', no_Reason = '''', no_Downtime = 0,
     no_TLSExpiresAt = 0, no_At = 5, no_DashboardURL = ''u''\<rparr>"

theorem html_escaped_witness:
  "markup (renderHTML demo_mail_env (demo_note ''<script>'')) = markup (renderHTML demo_mail_env (demo_note ''x''))"
  by (rule html_escaped) (simp add: shape_def demo_note_def)

end
