(* ===== verification/Startup.thy ===== *)
theory Startup
  imports Mail Probe Rollup
begin

text \<open>
  From the environment to the running parts: the configuration of
  src/backend/internal/config/config.go, the wiring of src/backend/cmd/ping/main.go and the route
  table of src/backend/server/server.go.
\<close>

section \<open>Configuration\<close>

text \<open>\<^verbatim>\<open>os.Getenv\<close>: an unset variable reads as the empty string.\<close>

type_synonym environment = "string \<Rightarrow> string"

text \<open>The parsers of durations, ps and addresses.\<close>

record cfglib =
  ParseDuration :: "string \<Rightarrow> duration option"
  ParsePrefix :: "string \<Rightarrow> prefix option"
  ParseAddr :: "string \<Rightarrow> addr option"

datatype cfgerr = NotSet string | NotInteger string string | NotDuration string string | NotBoolean string string
  | NotPrefix string

record SMTPConfig =
  sc_Host :: string
  sc_Port :: int
  sc_Username :: string
  sc_Password :: string
  sc_From :: string

definition SMTP_Configured :: "SMTPConfig \<Rightarrow> bool" where
  "SMTP_Configured c \<longleftrightarrow> sc_Host c \<noteq> '''' \<and> sc_From c \<noteq> ''''"

record process_config =
  cf_Port :: int
  cf_Env :: string
  cf_BaseURL :: string
  cf_DatabaseURL :: string
  cf_RedisURL :: string
  cf_CORSAllowedOrigin :: string
  cf_JWTPrivateKeyPath :: string
  cf_JWTPublicKeyPath :: string
  cf_JWTAccessTTL :: duration
  cf_JWTRefreshTTL :: duration
  cf_RegistrationOpen :: bool
  cf_SMTP :: SMTPConfig
  cf_SSRFAllowlist :: "prefix list"
  cf_RetentionDays :: int

fun bindE :: "'e + 'a \<Rightarrow> ('a \<Rightarrow> 'e + 'b) \<Rightarrow> 'e + 'b" where
  "bindE (Inl e) f = Inl e"
| "bindE (Inr x) f = f x"

definition require :: "environment \<Rightarrow> string \<Rightarrow> cfgerr + string" where
  "require env name = (if env name = '''' then Inl (NotSet name) else Inr (env name))"

definition requireInt :: "environment \<Rightarrow> string \<Rightarrow> cfgerr + int" where
  "requireInt env name = bindE (require env name) (\<lambda>v.
     case ParseInt64 v of None \<Rightarrow> Inl (NotInteger name v) | Some n \<Rightarrow> Inr n)"

definition optionalInt :: "environment \<Rightarrow> string \<Rightarrow> int \<Rightarrow> cfgerr + int" where
  "optionalInt env name def =
    (if env name = '''' then Inr def
     else case ParseInt64 (env name) of None \<Rightarrow> Inl (NotInteger name (env name)) | Some n \<Rightarrow> Inr n)"

definition requireDuration :: "cfglib \<Rightarrow> environment \<Rightarrow> string \<Rightarrow> cfgerr + duration" where
  "requireDuration L env name = bindE (require env name) (\<lambda>v.
     case ParseDuration L v of None \<Rightarrow> Inl (NotDuration name v) | Some d \<Rightarrow> Inr d)"

definition ParseBool :: "string \<Rightarrow> bool option" where
  "ParseBool s = (if s \<in> {''1'', ''t'', ''T'', ''TRUE'', ''true'', ''True''} then Some True
     else if s \<in> {''0'', ''f'', ''F'', ''FALSE'', ''false'', ''False''} then Some False else None)"

definition requireBool :: "environment \<Rightarrow> string \<Rightarrow> cfgerr + bool" where
  "requireBool env name = bindE (require env name) (\<lambda>v.
     case ParseBool v of None \<Rightarrow> Inl (NotBoolean name v) | Some b \<Rightarrow> Inr b)"

text \<open>\<^verbatim>\<open>strings.SplitSeq(v, ",")\<close> and \<^verbatim>\<open>netip.PrefixFrom(addr, addr.BitLen())\<close>, which drops the zone.\<close>

fun split_comma :: "string \<Rightarrow> string list" where
  "split_comma [] = [[]]"
| "split_comma (c # cs) = (if c = CHR '','' then [] # split_comma cs
     else case split_comma cs of [] \<Rightarrow> [[c]] | w # ws \<Rightarrow> (c # w) # ws)"

fun PrefixFrom :: "addr \<Rightarrow> prefix" where
  "PrefixFrom (V4 a) = P4 a 32"
| "PrefixFrom (V6 a z) = P6 a 128"

fun allowlist_entries :: "cfglib \<Rightarrow> string list \<Rightarrow> prefix list \<Rightarrow> cfgerr + prefix list" where
  "allowlist_entries L [] ps = Inr ps"
| "allowlist_entries L (w # ws) ps =
    (let entry = str_TrimSpace w in
     if entry = '''' then allowlist_entries L ws ps
     else case ParsePrefix L entry of
       Some p \<Rightarrow> allowlist_entries L ws (ps @ [p])
     | None \<Rightarrow>
         (case ParseAddr L entry of
            None \<Rightarrow> Inl (NotPrefix entry)
          | Some a \<Rightarrow> allowlist_entries L ws (ps @ [PrefixFrom a])))"

definition parseAllowlist :: "cfglib \<Rightarrow> string \<Rightarrow> cfgerr + prefix list" where
  "parseAllowlist L v = (if v = '''' then Inr [] else allowlist_entries L (split_comma v) [])"

definition Load :: "cfglib \<Rightarrow> environment \<Rightarrow> cfgerr + process_config" where
  "Load L env =
    bindE (requireInt env ''PING_PORT'') (\<lambda>port.
    bindE (require env ''PING_ENV'') (\<lambda>penv.
    bindE (require env ''PING_BASE_URL'') (\<lambda>baseURL.
    bindE (require env ''DATABASE_URL'') (\<lambda>databaseURL.
    bindE (require env ''REDIS_URL'') (\<lambda>redisURL.
    bindE (require env ''CORS_ALLOWED_ORIGIN'') (\<lambda>origin.
    bindE (require env ''JWT_PRIVATE_KEY_PATH'') (\<lambda>privPath.
    bindE (require env ''JWT_PUBLIC_KEY_PATH'') (\<lambda>pubPath.
    bindE (requireDuration L env ''JWT_ACCESS_TTL'') (\<lambda>accessTTL.
    bindE (requireDuration L env ''JWT_REFRESH_TTL'') (\<lambda>refreshTTL.
    bindE (requireBool env ''REGISTRATION_OPEN'') (\<lambda>registrationOpen.
    bindE (optionalInt env ''SMTP_PORT'' 587) (\<lambda>smtpPort.
    bindE (parseAllowlist L (env ''SSRF_ALLOWLIST'')) (\<lambda>allowlist.
    bindE (optionalInt env ''RETENTION_DAYS'' 90) (\<lambda>retention.
    Inr \<lparr>cf_Port = port, cf_Env = penv, cf_BaseURL = baseURL, cf_DatabaseURL = databaseURL, cf_RedisURL = redisURL,
      cf_CORSAllowedOrigin = origin, cf_JWTPrivateKeyPath = privPath, cf_JWTPublicKeyPath = pubPath,
      cf_JWTAccessTTL = accessTTL, cf_JWTRefreshTTL = refreshTTL, cf_RegistrationOpen = registrationOpen,
      cf_SMTP = \<lparr>sc_Host = env ''SMTP_HOST'', sc_Port = smtpPort, sc_Username = env ''SMTP_USERNAME'',
        sc_Password = env ''SMTP_PASSWORD'', sc_From = env ''SMTP_FROM''\<rparr>,
      cf_SSRFAllowlist = allowlist, cf_RetentionDays = retention\<rparr>))))))))))))))"

section \<open>Wiring\<close>

text \<open>What the start-up needs from outside: connecting, parsing the Redis URL, files and keys.\<close>

record boot =
  bt_pgx :: "string \<Rightarrow> bool"
  bt_redis :: "string \<Rightarrow> bool"
  bt_ReadFile :: "string \<Rightarrow> string option"
  bt_PrivateKey :: "string \<Rightarrow> string option"
  bt_PublicKey :: "string \<Rightarrow> string option"

datatype booterr = ConfigErr cfgerr | BootErr string

definition loadRSAKeys :: "boot \<Rightarrow> string \<Rightarrow> string \<Rightarrow> booterr + string \<times> string" where
  "loadRSAKeys B privPath pubPath =
    (case bt_ReadFile B privPath of None \<Rightarrow> Inl (BootErr ''read private key'') | Some privPEM \<Rightarrow>
    (case bt_PrivateKey B privPEM of None \<Rightarrow> Inl (BootErr ''parse private key'') | Some priv \<Rightarrow>
    (case bt_ReadFile B pubPath of None \<Rightarrow> Inl (BootErr ''read public key'') | Some pubPEM \<Rightarrow>
    (case bt_PublicKey B pubPEM of None \<Rightarrow> Inl (BootErr ''parse public key'') | Some pub \<Rightarrow> Inr (priv, pub)))))"

definition emailChannel :: "SMTPConfig \<Rightarrow> EmailConfig option" where
  "emailChannel smtp = (if \<not> SMTP_Configured smtp then None
     else Some \<lparr>ec_Host = sc_Host smtp, ec_Port = sc_Port smtp, ec_Username = sc_Username smtp,
       ec_Password = sc_Password smtp, ec_From = sc_From smtp\<rparr>)"

record Deps =
  dp_AllowedOrigin :: string
  dp_BaseURL :: string
  dp_Env :: string
  dp_SSRFAllowlist :: "prefix list"
  dp_JWTPrivateKey :: string
  dp_JWTPublicKey :: string
  dp_JWTAccessTTL :: duration
  dp_JWTRefreshTTL :: duration
  dp_RegistrationOpen :: bool
  dp_CookieSecure :: bool
  dp_AuthRateLimitDisabled :: bool
  dp_AlertChannel :: "EmailConfig option"

text \<open>The goroutines of the process, with their arguments.\<close>

datatype task = Serve int Deps | Shut_down | Schedule_every duration | Alert_every "EmailConfig option" duration string
  | Probe_every duration "prefix list" | Rollup_every duration int

definition server_deps :: "process_config \<Rightarrow> string \<Rightarrow> string \<Rightarrow> Deps" where
  "server_deps cfg priv pub =
    \<lparr>dp_AllowedOrigin = cf_CORSAllowedOrigin cfg, dp_BaseURL = cf_BaseURL cfg, dp_Env = cf_Env cfg,
     dp_SSRFAllowlist = cf_SSRFAllowlist cfg, dp_JWTPrivateKey = priv, dp_JWTPublicKey = pub,
     dp_JWTAccessTTL = cf_JWTAccessTTL cfg, dp_JWTRefreshTTL = cf_JWTRefreshTTL cfg,
     dp_RegistrationOpen = cf_RegistrationOpen cfg, dp_CookieSecure = (cf_Env cfg = ''production''),
     dp_AuthRateLimitDisabled = (cf_Env cfg = ''test''), dp_AlertChannel = emailChannel (cf_SMTP cfg)\<rparr>"

definition api_tasks :: "boot \<Rightarrow> process_config \<Rightarrow> booterr + task list" where
  "api_tasks B cfg = bindE (loadRSAKeys B (cf_JWTPrivateKeyPath cfg) (cf_JWTPublicKeyPath cfg)) (\<lambda>(priv, pub).
     Inr [Serve (cf_Port cfg) (server_deps cfg priv pub), Shut_down])"

definition worker_tasks :: "process_config \<Rightarrow> task list" where
  "worker_tasks cfg = [Schedule_every (15 * Second), Alert_every (emailChannel (cf_SMTP cfg)) (30 * Second) (cf_BaseURL cfg),
     Probe_every (10 * Second) (cf_SSRFAllowlist cfg), Rollup_every Hour (rollup_New (cf_RetentionDays cfg))]"

text \<open>\<open>run\<close> up to the point where it waits for its goroutines.\<close>

definition run :: "boot \<Rightarrow> cfglib \<Rightarrow> environment \<Rightarrow> string \<Rightarrow> booterr + task list" where
  "run B L env role =
    (case Load L env of
       Inl e \<Rightarrow> Inl (ConfigErr e)
     | Inr cfg \<Rightarrow>
         if \<not> bt_pgx B (cf_DatabaseURL cfg) then Inl (BootErr ''connect postgres'')
         else if \<not> bt_redis B (cf_RedisURL cfg) then Inl (BootErr ''parse REDIS_URL'')
         else bindE (if role = ''api'' \<or> role = ''all'' then api_tasks B cfg else Inr []) (\<lambda>api.
           Inr (api @ (if role = ''worker'' \<or> role = ''all'' then worker_tasks cfg else []))))"

section \<open>Routes\<close>

datatype guard = Open | RequireAuth | RequireAuthOrAPIKey

datatype endpoint_handler = Health | AdvanceClock | Register | Login | Refresh | Logout | PingSuccess | PingStart | PingFail
  | PingExitCode | DescribeSchedule | SendTest | ListEvents | CreateMonitorH | ListMonitors | GetMonitorH | UpdateMonitorH
  | DeleteMonitorH | PauseH | ResumeH | MuteH | UnmuteH | MonitorEvents | MonitorCheckins | MonitorProbeResults | MonitorLatency
  | CreateKey | ListKeys | RevokeKey

record route =
  rt_method :: string
  rt_pattern :: string
  rt_guard :: guard
  rt_handler :: endpoint_handler

definition under :: "guard \<Rightarrow> string \<Rightarrow> (string \<times> string \<times> endpoint_handler) list \<Rightarrow> route list" where
  "under g base rs = map (\<lambda>(m, p, h). \<lparr>rt_method = m, rt_pattern = base @ p, rt_guard = g, rt_handler = h\<rparr>) rs"

text \<open>The flag says whether the binary was built for the end-to-end tests.\<close>

definition registerTestRoutes :: "bool \<Rightarrow> Deps \<Rightarrow> route list" where
  "registerTestRoutes e2e deps = (if \<not> e2e then [] else if dp_Env deps \<noteq> ''test'' then []
     else under Open '''' [(''POST'', ''/test/advance-clock'', AdvanceClock)])"

definition server_New :: "bool \<Rightarrow> Deps \<Rightarrow> route list" where
  "server_New e2e deps =
    under Open '''' [(''GET'', ''/health'', Health)] @ registerTestRoutes e2e deps @
    under Open ''/api/v1/auth'' [(''POST'', ''/register'', Register), (''POST'', ''/login'', Login),
      (''POST'', ''/refresh'', Refresh), (''POST'', ''/logout'', Logout)] @
    concat (map (\<lambda>m. under Open ''/p/{slug}'' [(m, ''/'', PingSuccess), (m, ''/start'', PingStart), (m, ''/fail'', PingFail),
      (m, ''/{code}'', PingExitCode)]) [''GET'', ''POST'', ''HEAD'']) @
    under RequireAuthOrAPIKey '''' [(''POST'', ''/api/v1/schedule/describe'', DescribeSchedule),
      (''POST'', ''/api/v1/alerting/test'', SendTest), (''GET'', ''/api/v1/events'', ListEvents)] @
    under RequireAuthOrAPIKey ''/api/v1/monitors'' [(''POST'', ''/'', CreateMonitorH), (''GET'', ''/'', ListMonitors),
      (''GET'', ''/{id}'', GetMonitorH), (''PATCH'', ''/{id}'', UpdateMonitorH), (''DELETE'', ''/{id}'', DeleteMonitorH),
      (''POST'', ''/{id}/pause'', PauseH), (''POST'', ''/{id}/resume'', ResumeH), (''POST'', ''/{id}/mute'', MuteH),
      (''POST'', ''/{id}/unmute'', UnmuteH), (''GET'', ''/{id}/events'', MonitorEvents),
      (''GET'', ''/{id}/checkins'', MonitorCheckins), (''GET'', ''/{id}/probe-results'', MonitorProbeResults),
      (''GET'', ''/{id}/latency'', MonitorLatency)] @
    under RequireAuth ''/api/v1/apikeys'' [(''POST'', ''/'', CreateKey), (''GET'', ''/'', ListKeys), (''DELETE'', ''/{id}'', RevokeKey)]"

section \<open>What a configuration accepts\<close>

text \<open>The variables in the order they are checked, with the rule each must satisfy.\<close>

datatype rule = TextR | IntegerR | DurationR | BooleanR | OptIntegerR | AllowlistR

definition variables :: "(string \<times> rule) list" where
  "variables = [(''PING_PORT'', IntegerR), (''PING_ENV'', TextR), (''PING_BASE_URL'', TextR), (''DATABASE_URL'', TextR),
     (''REDIS_URL'', TextR), (''CORS_ALLOWED_ORIGIN'', TextR), (''JWT_PRIVATE_KEY_PATH'', TextR),
     (''JWT_PUBLIC_KEY_PATH'', TextR), (''JWT_ACCESS_TTL'', DurationR), (''JWT_REFRESH_TTL'', DurationR),
     (''REGISTRATION_OPEN'', BooleanR), (''SMTP_PORT'', OptIntegerR), (''SSRF_ALLOWLIST'', AllowlistR),
     (''RETENTION_DAYS'', OptIntegerR)]"

definition entry_ok :: "cfglib \<Rightarrow> string \<Rightarrow> bool" where
  "entry_ok L e \<longleftrightarrow> e = '''' \<or> ParsePrefix L e \<noteq> None \<or> ParseAddr L e \<noteq> None"

definition acceptable :: "cfglib \<Rightarrow> rule \<Rightarrow> string \<Rightarrow> bool" where
  "acceptable L r v = (case r of TextR \<Rightarrow> v \<noteq> '''' | IntegerR \<Rightarrow> ParseInt64 v \<noteq> None
     | DurationR \<Rightarrow> v \<noteq> '''' \<and> ParseDuration L v \<noteq> None | BooleanR \<Rightarrow> ParseBool v \<noteq> None
     | OptIntegerR \<Rightarrow> v = '''' \<or> ParseInt64 v \<noteq> None
     | AllowlistR \<Rightarrow> list_all (\<lambda>w. entry_ok L (str_TrimSpace w)) (split_comma v))"

text \<open>The variable an error message names.\<close>

fun blames :: "cfgerr \<Rightarrow> string" where
  "blames (NotSet v) = v"
| "blames (NotInteger v _) = v"
| "blames (NotDuration v _) = v"
| "blames (NotBoolean v _) = v"
| "blames (NotPrefix _) = ''SSRF_ALLOWLIST''"

definition entry_prefix :: "cfglib \<Rightarrow> string \<Rightarrow> prefix option" where
  "entry_prefix L e = (if e = '''' then None else case ParsePrefix L e of Some p \<Rightarrow> Some p
     | None \<Rightarrow> map_option PrefixFrom (ParseAddr L e))"

text \<open>A step of \<open>Load\<close> reads one variable: it succeeds with a value, or blames the variable.\<close>

definition reads :: "cfglib \<Rightarrow> string \<Rightarrow> rule \<Rightarrow> environment \<Rightarrow> cfgerr + 'a \<Rightarrow> bool" where
  "reads L v r env res \<longleftrightarrow> (case res of Inl e \<Rightarrow> \<not> acceptable L r (env v) \<and> blames e = v | Inr _ \<Rightarrow> acceptable L r (env v))"

lemma ParseInt64_empty: "ParseInt64 '''' = None"
  by (simp add: ParseInt64_def parse_int_def parse_nat_def)

lemma reads_variables:
  "reads L v TextR env (require env v)" "reads L v IntegerR env (requireInt env v)"
  "reads L v DurationR env (requireDuration L env v)" "reads L v BooleanR env (requireBool env v)"
  "reads L v OptIntegerR env (optionalInt env v n)"
  by (auto simp: reads_def acceptable_def require_def requireInt_def requireDuration_def requireBool_def optionalInt_def
      ParseInt64_empty ParseBool_def split: option.split)

lemma allowlist_entries_spec:
  "allowlist_entries L ws ps =
    (case find (\<lambda>w. \<not> entry_ok L (str_TrimSpace w)) ws of
       Some w \<Rightarrow> Inl (NotPrefix (str_TrimSpace w))
     | None \<Rightarrow> Inr (ps @ List.map_filter (\<lambda>w. entry_prefix L (str_TrimSpace w)) ws))"
proof (induction ws arbitrary: ps)
  case (Cons w ws)
  show ?case
    by (cases "str_TrimSpace w = ''''"; cases "ParsePrefix L (str_TrimSpace w)"; cases "cfglib.ParseAddr L (str_TrimSpace w)")
      (simp_all add: Cons entry_ok_def entry_prefix_def map_filter_simps split: option.split)
qed (simp add: map_filter_simps)

lemma TrimSpace_empty: "str_TrimSpace [] = []"
  by (simp add: str_TrimSpace_def trim_left.simps [of "[]"])

lemma parseAllowlist_spec:
  "parseAllowlist L v =
    (case find (\<lambda>w. \<not> entry_ok L (str_TrimSpace w)) (split_comma v) of
       Some w \<Rightarrow> Inl (NotPrefix (str_TrimSpace w))
     | None \<Rightarrow> Inr (List.map_filter (\<lambda>w. entry_prefix L (str_TrimSpace w)) (split_comma v)))"
  by (simp add: parseAllowlist_def allowlist_entries_spec TrimSpace_empty entry_ok_def entry_prefix_def map_filter_simps
      split: option.split)

lemma reads_allowlist: "reads L ''SSRF_ALLOWLIST'' AllowlistR env (parseAllowlist L (env ''SSRF_ALLOWLIST''))"
  by (auto simp: reads_def acceptable_def parseAllowlist_spec list_all_iff find_None_iff find_Some_iff split: option.split)

text \<open>Reading on: the first bad variable of the rest decides.\<close>

definition loads :: "cfglib \<Rightarrow> environment \<Rightarrow> (string \<times> rule) list \<Rightarrow> cfgerr + 'a \<Rightarrow> bool" where
  "loads L env vs res \<longleftrightarrow> (case find (\<lambda>(v, r). \<not> acceptable L r (env v)) vs of
     Some (v, _) \<Rightarrow> \<exists>e. res = Inl e \<and> blames e = v | None \<Rightarrow> \<exists>x. res = Inr x)"

lemma loads_bind:
  assumes "reads L v r env m" and "\<And>x. m = Inr x \<Longrightarrow> loads L env vs (f x)"
  shows "loads L env ((v, r) # vs) (bindE m f)"
  using assms by (cases m) (auto simp: loads_def reads_def)

lemma Load_loads: "loads L env variables (Load L env)"
  unfolding Load_def variables_def
  by (intro loads_bind reads_variables reads_allowlist) (simp add: loads_def)

lemma bindE_Inr: "bindE m f = Inr y \<longleftrightarrow> (\<exists>x. m = Inr x \<and> f x = Inr y)"
  by (cases m) auto

lemma read_values:
  "require env v = Inr s \<Longrightarrow> s = env v"
  "requireInt env v = Inr n \<Longrightarrow> Some n = ParseInt64 (env v)"
  "requireDuration L env v = Inr d \<Longrightarrow> Some d = ParseDuration L (env v)"
  "requireBool env v = Inr b \<Longrightarrow> Some b = ParseBool (env v)"
  "optionalInt env v k = Inr n \<Longrightarrow> n = (case ParseInt64 (env v) of None \<Rightarrow> k | Some p \<Rightarrow> p)"
  "parseAllowlist L t = Inr ps \<Longrightarrow> ps = List.map_filter (\<lambda>w. entry_prefix L (str_TrimSpace w)) (split_comma t)"
  by (auto simp: require_def requireInt_def requireDuration_def requireBool_def optionalInt_def ParseInt64_empty bindE_Inr
      parseAllowlist_spec split: option.splits if_splits)

text \<open>
  The configuration an accepted environment stands for: every field of \<open>process_config\<close> is the
  variable of its name, as written or parsed.
\<close>

definition configured_by :: "cfglib \<Rightarrow> environment \<Rightarrow> process_config \<Rightarrow> bool" where
  "configured_by L env cfg \<longleftrightarrow>
    Some (cf_Port cfg) = ParseInt64 (env ''PING_PORT'') \<and>
    cf_Env cfg = env ''PING_ENV'' \<and>
    cf_BaseURL cfg = env ''PING_BASE_URL'' \<and>
    cf_DatabaseURL cfg = env ''DATABASE_URL'' \<and>
    cf_RedisURL cfg = env ''REDIS_URL'' \<and>
    cf_CORSAllowedOrigin cfg = env ''CORS_ALLOWED_ORIGIN'' \<and>
    cf_JWTPrivateKeyPath cfg = env ''JWT_PRIVATE_KEY_PATH'' \<and>
    cf_JWTPublicKeyPath cfg = env ''JWT_PUBLIC_KEY_PATH'' \<and>
    Some (cf_JWTAccessTTL cfg) = ParseDuration L (env ''JWT_ACCESS_TTL'') \<and>
    Some (cf_JWTRefreshTTL cfg) = ParseDuration L (env ''JWT_REFRESH_TTL'') \<and>
    Some (cf_RegistrationOpen cfg) = ParseBool (env ''REGISTRATION_OPEN'') \<and>
    sc_Port (cf_SMTP cfg) = (case ParseInt64 (env ''SMTP_PORT'') of None \<Rightarrow> 587 | Some p \<Rightarrow> p) \<and>
    sc_Host (cf_SMTP cfg) = env ''SMTP_HOST'' \<and>
    sc_Username (cf_SMTP cfg) = env ''SMTP_USERNAME'' \<and>
    sc_Password (cf_SMTP cfg) = env ''SMTP_PASSWORD'' \<and>
    sc_From (cf_SMTP cfg) = env ''SMTP_FROM'' \<and>
    cf_SSRFAllowlist cfg = List.map_filter (\<lambda>w. entry_prefix L (str_TrimSpace w)) (split_comma (env ''SSRF_ALLOWLIST'')) \<and>
    cf_RetentionDays cfg = (case ParseInt64 (env ''RETENTION_DAYS'') of None \<Rightarrow> 90 | Some p \<Rightarrow> p)"

lemma some_same: "Some x = m \<Longrightarrow> Some y = m \<Longrightarrow> x = y"
  by auto

text \<open>These equations determine the configuration: no field is left open.\<close>

lemma configured_by_unique: "configured_by L env c \<Longrightarrow> configured_by L env c' \<Longrightarrow> c = c'"
  unfolding configured_by_def
  by (intro process_config.equality SMTPConfig.equality) (auto dest: some_same)

lemma Load_values:
  assumes "Load L env = Inr cfg"
  shows "configured_by L env cfg"
  using assms unfolding Load_def bindE_Inr sum.inject configured_by_def
  by (elim exE conjE, hypsubst, unfold process_config.simps SMTPConfig.simps)
    (intro conjI refl; erule read_values)

text \<open>
  C39. Loading the configuration fails exactly when a variable breaks its rule, and the error names
  the first such variable in the documented order. Otherwise it returns the one configuration that
  has every variable as written or parsed in the field of its name: the exact allowlist of the prober
  (an address is its own prefix, blanks are skipped, an unset variable allows nothing), and the
  SMTP port and the retention with their defaults 587 and 90.
\<close>

theorem Load_first_error:
  "case find (\<lambda>(v, r). \<not> acceptable L r (env v)) variables of
     Some (v, _) \<Rightarrow> \<exists>e. Load L env = Inl e \<and> blames e = v
   | None \<Rightarrow> \<exists>cfg. Load L env = Inr cfg \<and> {c. configured_by L env c} = {cfg}"
  using Load_loads [of L env] Load_values [of L env]
  by (auto simp: loads_def split: option.splits dest: configured_by_unique)

section \<open>What is started\<close>

lemma emailChannel_configured: "emailChannel smtp = Some c \<Longrightarrow> configured c"
  by (auto simp: emailChannel_def SMTP_Configured_def configured_def split: if_splits)

text \<open>A channel that was built at start-up never answers that it is not configured.\<close>

lemma channel_configured:
  assumes "emailChannel smtp = Some c"
  shows "email_channel V q t t' c S n to \<noteq> Some ErrNotConfigured"
proof -
  have "fst (authenticate c S tls) \<noteq> Some ErrNotConfigured" "fst (deliver q t t' c S tls msg) \<noteq> Some ErrNotConfigured"
    "dial c S \<noteq> Inl ErrNotConfigured" for tls msg
    by (auto simp: authenticate_def deliver_def dial_def sendErr_def split: option.splits if_splits)
  then show ?thesis
    using emailChannel_configured [OF assms]
    by (auto simp: email_channel_def email_send_def Send_def split: sum.splits prod.splits option.splits if_splits) (metis fst_conv)+
qed

text \<open>
  Whatever the role: cookies are marked secure exactly in production, the limiter of the
  authentication routes is off exactly in the test environment, the alerter has a channel exactly
  when both the host and the sender are set, the guard of the prober has the configured
  allowlist, and the pruning horizon is at least one day.
\<close>

lemma run_tasks:
  assumes "run B L env role = Inr tasks" and "k \<in> set tasks"
  shows "\<exists>cfg. Load L env = Inr cfg \<and> (case k of
      Serve p deps \<Rightarrow> dp_CookieSecure deps = (env ''PING_ENV'' = ''production'') \<and>
        dp_AuthRateLimitDisabled deps = (env ''PING_ENV'' = ''test'') \<and> dp_SSRFAllowlist deps = cf_SSRFAllowlist cfg
    | Alert_every ch _ _ \<Rightarrow> ch = emailChannel (cf_SMTP cfg)
    | Probe_every _ allow \<Rightarrow> allow = cf_SSRFAllowlist cfg
    | Rollup_every _ days \<Rightarrow> 0 < days | _ \<Rightarrow> True)"
proof -
  obtain cfg api where cfg: "Load L env = Inr cfg" and api: "api = [] \<or> api_tasks B cfg = Inr api"
    and tasks: "set tasks \<subseteq> set api \<union> set (worker_tasks cfg)"
    using assms(1) by (auto simp: run_def bindE_Inr split: sum.splits if_splits) blast
  have "cf_Env cfg = env ''PING_ENV''"
    using cfg unfolding Load_def bindE_Inr sum.inject
    by (elim exE conjE, hypsubst, unfold process_config.simps) (erule read_values)
  with api have "k \<in> set api \<Longrightarrow> k = Shut_down \<or> (\<exists>p deps. k = Serve p deps \<and>
      dp_CookieSecure deps = (env ''PING_ENV'' = ''production'') \<and> dp_AuthRateLimitDisabled deps = (env ''PING_ENV'' = ''test'') \<and>
      dp_SSRFAllowlist deps = cf_SSRFAllowlist cfg)"
    by (auto simp: api_tasks_def bindE_Inr server_deps_def)
  moreover have "k \<in> set (worker_tasks cfg) \<Longrightarrow> k = Schedule_every (15 * Second) \<or> (\<exists>i b. k = Alert_every (emailChannel (cf_SMTP cfg)) i b) \<or>
      (\<exists>i. k = Probe_every i (cf_SSRFAllowlist cfg)) \<or> (\<exists>i days. k = Rollup_every i days \<and> 0 < days)"
    by (auto simp: worker_tasks_def rollup_New_def DefaultRetentionDays_def)
  moreover have "k \<in> set api \<or> k \<in> set (worker_tasks cfg)" using tasks assms(2) by blast
  ultimately show ?thesis using cfg by (elim disjE) auto
qed

text \<open>
  A misspelt role starts nothing and reports no error: with a good configuration the process
  starts no task at all and ends successfully.
\<close>

lemma unknown_role_starts_nothing:
  assumes "role \<notin> {''api'', ''worker'', ''all''}" and "Load L env = Inr cfg"
    and "bt_pgx B (cf_DatabaseURL cfg)" and "bt_redis B (cf_RedisURL cfg)"
  shows "run B L env role = Inr []"
  using assms by (simp add: run_def)

text \<open>The guard a pattern must have.\<close>

definition guard_for :: "string \<Rightarrow> guard" where
  "guard_for p = (if take 15 p = ''/api/v1/apikeys'' then RequireAuth
     else if take 8 p = ''/api/v1/'' \<and> take 13 p \<noteq> ''/api/v1/auth/'' then RequireAuthOrAPIKey else Open)"

text \<open>
  Every route of the API outside the authentication routes is behind a guard, the management of
  API keys takes access tokens only, no two routes have the same method and pattern, and the
  time-warp route exists only in a test build that runs in the test environment.
\<close>

lemma routes_guarded: "list_all (\<lambda>r. rt_guard r = guard_for (rt_pattern r)) (server_New e2e deps)"
  by (simp add: server_New_def registerTestRoutes_def under_def guard_for_def)

lemma routes_distinct: "distinct (map (\<lambda>r. (rt_method r, rt_pattern r)) (server_New e2e deps))"
  by (simp add: server_New_def registerTestRoutes_def under_def)

lemma warp_route: "AdvanceClock \<in> rt_handler ` set (server_New e2e deps) \<longleftrightarrow> e2e \<and> dp_Env deps = ''test''"
  by (auto simp: server_New_def registerTestRoutes_def under_def)

end
