(* ===== verification/Soak_Audit.thy ===== *)
theory Soak_Audit
  imports System
begin

text \<open>
  The auditor of the soak test (src/backend/cmd/soakaudit/main.go): its queries over the database
  and what they say about the databases the store can reach.
\<close>

section \<open>The queries\<close>

record runSummary =
  su_Monitors :: nat
  su_Checkins :: nat
  su_ProbeResults :: nat
  su_UpDownEvents :: nat
  su_Alerts :: nat

definition up_or_down :: "event_row \<Rightarrow> bool" where
  "up_or_down e \<longleftrightarrow> e_type e \<in> {''up'', ''down''}"

definition fetchSummary :: "db \<Rightarrow> runSummary" where
  "fetchSummary d = \<lparr>su_Monitors = length (monitors d), su_Checkins = length (checkins d),
     su_ProbeResults = length (probe_results d), su_UpDownEvents = length (filter up_or_down (events d)),
     su_Alerts = length (alerts d)\<rparr>"

record alertViolation =
  av_EventID :: int
  av_MonitorID :: uuid
  av_NonReminders :: nat
  av_StillPending :: nat
  av_EventCreatedAt :: gotime

definition non_reminders :: "db \<Rightarrow> event_row \<Rightarrow> alert_row list" where
  "non_reminders d e = filter (\<lambda>a. a_event_id a = e_id e \<and> \<not> a_is_reminder a) (alerts d)"

definition still_pending :: "db \<Rightarrow> event_row \<Rightarrow> alert_row list" where
  "still_pending d e = filter (\<lambda>a. a_status a = ''pending'') (non_reminders d e)"

definition checkAlertPerDownEvent :: "gotime \<Rightarrow> duration \<Rightarrow> db \<Rightarrow> alertViolation list" where
  "checkAlertPerDownEvent now pendingGrace d =
     map (\<lambda>e. \<lparr>av_EventID = e_id e, av_MonitorID = e_monitor_id e, av_NonReminders = length (non_reminders d e),
            av_StillPending = length (still_pending d e), av_EventCreatedAt = e_created_at e\<rparr>)
       (sort_key e_created_at
         (filter (\<lambda>e. e_type e = ''down'' \<and>
            (length (non_reminders d e) \<noteq> 1 \<or> 0 < length (still_pending d e) \<and> e_created_at e < now - pendingGrace))
          (events d)))"

record staleLate =
  sl_MonitorID :: uuid
  sl_Slug :: string
  sl_NextDeadline :: gotime
  sl_OverdueBy :: duration

definition checkNoStuckLate :: "gotime \<Rightarrow> db \<Rightarrow> staleLate list" where
  "checkNoStuckLate now d =
     map (\<lambda>m. \<lparr>sl_MonitorID = m_id m, sl_Slug = m_slug m, sl_NextDeadline = the (m_next_deadline m),
            sl_OverdueBy = now - the (m_next_deadline m)\<rparr>)
       (sort_key (\<lambda>m. the (m_next_deadline m))
         (filter (\<lambda>m. m_state m = ''late'' \<and> null_less (m_next_deadline m) (now - 2 * Minute)) (monitors d)))"

record duplicateTransition =
  dt_MonitorID :: uuid
  dt_EventID :: int
  dt_Type :: string
  dt_CreatedAt :: gotime

text \<open>\<^verbatim>\<open>lag(type)\<close> over the transitions of a monitor by time and id, paired with the event.\<close>

fun with_lag :: "event_row option \<Rightarrow> event_row list \<Rightarrow> (event_row option \<times> event_row) list" where
  "with_lag prev [] = []"
| "with_lag prev (e # es) = (prev, e) # with_lag (Some e) es"

definition audit_transitions :: "db \<Rightarrow> uuid \<Rightarrow> event_row list" where
  "audit_transitions d i = sort_key e_created_at (sort_key e_id (filter (\<lambda>e. e_monitor_id e = i \<and> up_or_down e) (events d)))"

definition checkNoDuplicateTransitions :: "db \<Rightarrow> duplicateTransition list" where
  "checkNoDuplicateTransitions d =
     map (\<lambda>e. \<lparr>dt_MonitorID = e_monitor_id e, dt_EventID = e_id e, dt_Type = e_type e, dt_CreatedAt = e_created_at e\<rparr>)
       (sort_key e_created_at (concat (map (\<lambda>i. map snd (filter (\<lambda>(prev, e). map_option e_type prev = Some (e_type e))
          (with_lag None (audit_transitions d i)))) (remdups (map e_monitor_id (events d))))))"

definition audit_run :: "gotime \<Rightarrow> duration \<Rightarrow> db \<Rightarrow> bool" where
  "audit_run now pendingGrace d \<longleftrightarrow>
     length (checkAlertPerDownEvent now pendingGrace d) = 0 \<and> length (checkNoStuckLate now d) = 0 \<and>
     length (checkNoDuplicateTransitions d) = 0"

section \<open>What the audit finds\<close>

text \<open>
  C40. On every database the store can reach, the first check of the audit reports exactly the down
  events whose single first alert is still pending after the grace: never a missing and never a
  duplicate alert.
\<close>

theorem audit_only_stale:
  assumes "store_reachable lib x c d"
  shows "v \<in> set (checkAlertPerDownEvent now pendingGrace d) \<longleftrightarrow>
    (\<exists>e \<in> set (events d). \<exists>a. e_type e = ''down'' \<and> e_created_at e < now - pendingGrace \<and>
       non_reminders d e = [a] \<and> a_status a = ''pending'' \<and>
       v = \<lparr>av_EventID = e_id e, av_MonitorID = e_monitor_id e, av_NonReminders = 1, av_StillPending = 1,
            av_EventCreatedAt = e_created_at e\<rparr>)"
proof -
  have one: "\<exists>a. non_reminders d e = [a]" if "e \<in> set (events d)" "e_type e = ''down''" for e
    using one_first [OF outbox_reachable [OF assms] that(1)] that(2)
    by (simp add: alerting_def non_reminders_def length_Suc_conv)
  show ?thesis
    using one by (fastforce simp: checkAlertPerDownEvent_def still_pending_def split: if_splits)
qed

theorem audit_only_stale_witness:
  "store_reachable demo_lib demo_ext demo_crypto (run_ops demo_pings demo_started) \<and>
   map (\<lambda>v. (av_NonReminders v, av_StillPending v)) (checkAlertPerDownEvent 400 300 (run_ops demo_pings demo_started)) = [(1, 1)]"
proof -
  let ?d = "run_ops demo_pings demo_started"
  have r: "store_reachable demo_lib demo_ext demo_crypto ?d"
    unfolding demo_start_run [symmetric] by (intro run_ops_reachable store_reachable.start)
  have "length (checkAlertPerDownEvent 400 300 ?d) = 1" by code_simp
  then obtain v where v: "checkAlertPerDownEvent 400 300 ?d = [v]" by (auto simp: length_Suc_conv)
  with audit_only_stale [OF r, of v 400 300] have "av_NonReminders v = 1 \<and> av_StillPending v = 1" by auto
  with r v show ?thesis by simp
qed

text \<open>
  After two evaluations at t that reach every monitor, no monitor that is not paused is reported
  as stuck late until two minutes after t.
\<close>

lemma none_stuck_late:
  assumes "wf_db d" and "int (length (monitors d)) \<le> limit"
    and "\<And>m. m \<in> set (monitors d) \<Longrightarrow> m_fail_streak m < max_int32"
    and "d1 = run_db (EvaluateDueMonitors nobody t limit) now1 [] d"
    and "d2 = run_db (EvaluateDueMonitors nobody t limit) now2 [] d1"
    and "now \<le> t + 2 * Minute" and "\<And>m. m \<in> set (monitors d2) \<Longrightarrow> m_paused_at m = None"
  shows "checkNoStuckLate now d2 = []"
proof -
  have "\<not> (m_state m = ''late'' \<and> null_less (m_next_deadline m) (now - 2 * Minute))" if m: "m \<in> set (monitors d2)" for m
    using two_ticks_monitors(2) [OF assms(1-5) m] assms(6) assms(7) [OF m]
    by (cases "m_next_deadline m") (auto simp: due_def)
  then show ?thesis by (auto simp: checkNoStuckLate_def filter_empty_conv)
qed

text \<open>
  A paused monitor keeps its state, so the second check reports a monitor that was paused while it
  was late, whatever the scheduler does.
\<close>

lemma paused_late_reported:
  assumes "m \<in> set (monitors d)" and "m_state m = ''late''" and "null_less (m_next_deadline m) (now - 2 * Minute)"
  shows "\<not> audit_run now g d"
  using assms by (auto simp: audit_run_def checkNoStuckLate_def filter_empty_conv)

text \<open>
  Resuming a monitor that is down sets it up without an 'up' event, so the next outage makes two
  down events in a row, which the third check reports.
\<close>

definition resumed_twice :: "(store_op \<times> gotime \<times> outcome list) list" where
  "resumed_twice = demo_pings @ [(Mutate ''7'' ''1'' Pause, 50, []), (Mutate ''7'' ''1'' (Resume 60), 60, []),
     (Ping (demo_ping\<lparr>rp_Slug := ''aaaaaaaaaaaaaaaa''\<rparr>), 70, [])]"

theorem resume_fails_audit:
  "store_reachable demo_lib demo_ext demo_crypto (run_ops resumed_twice demo_started) \<and>
   map e_type (events (run_ops resumed_twice demo_started)) = [''down'', ''pause'', ''resume'', ''down''] \<and>
   \<not> audit_run 80 300 (run_ops resumed_twice demo_started)"
proof (intro conjI)
  show "store_reachable demo_lib demo_ext demo_crypto (run_ops resumed_twice demo_started)"
    unfolding demo_start_run [symmetric] by (intro run_ops_reachable store_reachable.start)
  show "map e_type (events (run_ops resumed_twice demo_started)) = [''down'', ''pause'', ''resume'', ''down'']" by code_simp
  show "\<not> audit_run 80 300 (run_ops resumed_twice demo_started)" by code_simp
qed

end
