(* ===== verification/Soak_Traffic.thy ===== *)
theory Soak_Traffic
  imports Monitor_Api Auth_Api Startup
begin

text \<open>
  The traffic of the soak test: the load generator (src/backend/cmd/soakloadgen/main.go), which sets
  up an account with monitors over the public API and pings them, and the flaky targets
  (src/backend/cmd/soakflakytarget/main.go) that its http monitors probe. The server is an argument;
  random numbers are arguments of the steps that draw them.
\<close>

section \<open>The API client\<close>

datatype soak_body = RegisterBody emailPasswordRequest | CreateBody createMonitorRequest

record soak_request =
  sq_Path :: string
  sq_Bearer :: string
  sq_Body :: soak_body

text \<open>What the generator decodes of an answer, and the answer: none when the exchange fails.\<close>

record soak_fields =
  sx_AccessToken :: string
  sx_Slug :: string
  sx_PingURL :: string

type_synonym soak_answer = "(int \<times> soak_fields option) option"

type_synonym 'w soak_server = "soak_request \<Rightarrow> 'w \<Rightarrow> soak_answer \<times> 'w"

record 'w apiClient =
  ac_server :: "'w soak_server"
  ac_bearer :: string

text \<open>
  A run ends with an error or a value, the requests it sent, and the state of the server. Texts of
  errors that a library returns are left out.
\<close>

datatype soak_error = SoakError string | SoakPanic string

type_synonym ('a, 'w) traffic = "'w \<Rightarrow> (soak_error + 'a) \<times> soak_request list \<times> 'w"

definition send_back :: "'a \<Rightarrow> ('a, 'w) traffic" where
  "send_back v w = (Inr v, [], w)"

definition then_traffic :: "('a, 'w) traffic \<Rightarrow> ('a \<Rightarrow> ('b, 'w) traffic) \<Rightarrow> ('b, 'w) traffic" where
  "then_traffic m f w = (case m w of
      (Inl e, qs, w') \<Rightarrow> (Inl e, qs, w')
    | (Inr v, qs, w') \<Rightarrow> (case f v w' of (r, qs', w'') \<Rightarrow> (r, qs @ qs', w'')))"

text \<open>\<^verbatim>\<open>fmt.Errorf("pre: %w", err)\<close> around a call; a panic passes.\<close>

definition wrapping :: "string \<Rightarrow> ('a, 'w) traffic \<Rightarrow> ('a, 'w) traffic" where
  "wrapping pre m w = (case m w of
      (Inl (SoakError e), qs, w') \<Rightarrow> (Inl (SoakError (pre @ '': '' @ e)), qs, w')
    | r \<Rightarrow> r)"

definition api_post :: "'w apiClient \<Rightarrow> string \<Rightarrow> soak_body \<Rightarrow> bool \<Rightarrow> (soak_fields option, 'w) traffic" where
  "api_post c path body out w =
    (let req = \<lparr>sq_Path = path, sq_Bearer = ac_bearer c, sq_Body = body\<rparr> in
     case ac_server c req w of (ans, w') \<Rightarrow>
      ((case ans of
          None \<Rightarrow> Inl (SoakError (''apiClient.post '' @ path))
        | Some (status, got) \<Rightarrow>
            if status \<ge> 300 then Inl (SoakError (''apiClient.post '' @ path @ '': unexpected status '' @ show_int status))
            else if \<not> out then Inr None
            else (case got of None \<Rightarrow> Inl (SoakError (''apiClient.post '' @ path @ '': decode response'')) | Some v \<Rightarrow> Inr (Some v))),
       [req], w'))"

section \<open>Setting up\<close>

record 'f soak_config =
  so_baseURL :: string
  so_monitorCount :: int
  so_flakyTargetBaseURL :: string
  so_flakyTargetBasePort :: int
  so_skipProbability :: 'f
  so_failProbability :: 'f

record heartbeatMonitor =
  hm_slug :: string
  hm_pingURL :: string
  hm_periodS :: int

definition register_body :: "string \<Rightarrow> emailPasswordRequest" where
  "register_body rnd = \<lparr>eq_Email = ''soak-'' @ rnd @ ''@example.com'', eq_Password = ''soak-test-password-1''\<rparr>"

definition randomHex :: "nat list \<Rightarrow> string" where
  "randomHex bs = hex_encode bs"

definition bootstrapAccount :: "'w apiClient \<Rightarrow> nat list \<Rightarrow> (string, 'w) traffic" where
  "bootstrapAccount c bs =
     then_traffic (wrapping ''bootstrapAccount: register''
       (api_post c ''/api/v1/auth/register'' (RegisterBody (register_body (randomHex bs))) True))
       (\<lambda>r. send_back (case r of Some v \<Rightarrow> sx_AccessToken v | None \<Rightarrow> ''''))"

definition soakPeriodS :: int where "soakPeriodS = 60"
definition soakGraceS :: int where "soakGraceS = 60"

definition heartbeat_body :: "nat \<Rightarrow> createMonitorRequest" where
  "heartbeat_body i = \<lparr>cr_Kind = ''heartbeat'', cr_Name = ''soak-heartbeat-'' @ show_int (int i), cr_AutoResume = None,
     cr_schedule = \<lparr>sf_ScheduleKind = ''period'', sf_PeriodS = Some soakPeriodS, sf_CronExpr = '''', sf_TZ = ''UTC'',
       sf_GraceS = Some soakGraceS\<rparr>,
     cr_http = \<lparr>hf_URL = '''', hf_Method = '''', hf_IntervalS = None, hf_TimeoutS = None, hf_FailThreshold = None,
       hf_HTTPConfig = ''''\<rparr>\<rparr>"

fun heartbeatLoop :: "'w apiClient \<Rightarrow> nat list \<Rightarrow> (heartbeatMonitor list, 'w) traffic" where
  "heartbeatLoop c [] = send_back []"
| "heartbeatLoop c (i # is) = then_traffic (wrapping ''createHeartbeatMonitors''
       (api_post c ''/api/v1/monitors'' (CreateBody (heartbeat_body i)) True)) (\<lambda>r.
     then_traffic (heartbeatLoop c is) (\<lambda>ms.
     send_back (\<lparr>hm_slug = (case r of Some v \<Rightarrow> sx_Slug v | None \<Rightarrow> ''''),
       hm_pingURL = (case r of Some v \<Rightarrow> sx_PingURL v | None \<Rightarrow> ''''), hm_periodS = soakPeriodS\<rparr> # ms)))"

text \<open>A slice with a negative capacity is a run-time panic.\<close>

definition createHeartbeatMonitors :: "'w apiClient \<Rightarrow> int \<Rightarrow> (heartbeatMonitor list, 'w) traffic" where
  "createHeartbeatMonitors c count =
    (if count < 0 then (\<lambda>w. (Inl (SoakPanic ''makeslice: cap out of range''), [], w)) else heartbeatLoop c [0..<nat count])"

definition http_body :: "string \<Rightarrow> int \<Rightarrow> nat \<Rightarrow> createMonitorRequest" where
  "http_body base port i = \<lparr>cr_Kind = ''http'', cr_Name = ''soak-http-'' @ show_int (int i), cr_AutoResume = None,
     cr_schedule = \<lparr>sf_ScheduleKind = '''', sf_PeriodS = None, sf_CronExpr = '''', sf_TZ = '''', sf_GraceS = None\<rparr>,
     cr_http = \<lparr>hf_URL = base @ '':'' @ show_int (wrap64 (port + int i)) @ ''/health'', hf_Method = ''GET'', hf_IntervalS = Some 30,
       hf_TimeoutS = Some 5, hf_FailThreshold = Some 2, hf_HTTPConfig = ''''\<rparr>\<rparr>"

fun createHTTPMonitors :: "'w apiClient \<Rightarrow> nat list \<Rightarrow> string \<Rightarrow> int \<Rightarrow> (unit, 'w) traffic" where
  "createHTTPMonitors c [] base port = send_back ()"
| "createHTTPMonitors c (i # is) base port =
     then_traffic (wrapping ''createHTTPMonitors''
       (api_post c ''/api/v1/monitors'' (CreateBody (http_body base port i)) False)) (\<lambda>_.
     createHTTPMonitors c is base port)"

section \<open>Pinging\<close>

text \<open>The URL a ping goes to, if any; probabilities and the roll are float64, an ordered type with addition.\<close>

definition sendOnePing :: "string \<Rightarrow> heartbeatMonitor \<Rightarrow> 'f :: {linorder, plus} \<Rightarrow> 'f \<Rightarrow> 'f \<Rightarrow> string option" where
  "sendOnePing baseURL m skipProbability failProbability roll =
    (if roll < skipProbability then None
     else if roll < skipProbability + failProbability then Some (baseURL @ ''/p/'' @ hm_slug m @ ''/fail'')
     else Some (hm_pingURL m))"

text \<open>One roll per tick until the context is done.\<close>

definition pingLoop :: "string \<Rightarrow> heartbeatMonitor \<Rightarrow> 'f :: {linorder, plus} \<Rightarrow> 'f \<Rightarrow> 'f list \<Rightarrow> string list" where
  "pingLoop baseURL m skipProbability failProbability rolls =
     List.map_filter (sendOnePing baseURL m skipProbability failProbability) rolls"

text \<open>
  \<open>run\<close>: the set-up, then a ping loop per heartbeat monitor beside the others; \<open>rolls k\<close> are the
  random numbers the loop of the k-th monitor draws before the context ends. The result lists the
  pings of each loop.
\<close>

definition loadgen_run :: "'w soak_server \<Rightarrow> ('f :: {linorder, plus}) soak_config \<Rightarrow> nat list \<Rightarrow> (nat \<Rightarrow> 'f list) \<Rightarrow>
    (string list list, 'w) traffic" where
  "loadgen_run srv cfg bs rolls =
    (let api = \<lparr>ac_server = srv, ac_bearer = ''''\<rparr> in
     then_traffic (wrapping ''run: bootstrap account'' (bootstrapAccount api bs)) (\<lambda>token.
     let api = api\<lparr>ac_bearer := token\<rparr>;
         heartbeatCount = so_monitorCount cfg sdiv 2;
         httpCount = so_monitorCount cfg - heartbeatCount in
     then_traffic (wrapping ''run: create heartbeat monitors'' (createHeartbeatMonitors api heartbeatCount)) (\<lambda>heartbeats.
     then_traffic (wrapping ''run: create http monitors''
       (createHTTPMonitors api [0..<nat httpCount] (so_flakyTargetBaseURL cfg) (so_flakyTargetBasePort cfg))) (\<lambda>_.
     send_back (map (\<lambda>(k, m). pingLoop (so_baseURL cfg) m (so_skipProbability cfg) (so_failProbability cfg) (rolls k))
       (enumerate 0 heartbeats))))))"

section \<open>Flaky targets\<close>

record target =
  tg_port :: int
  tg_minFlip :: duration
  tg_maxFlip :: duration
  tg_healthy :: bool

definition newTarget :: "int \<Rightarrow> duration \<Rightarrow> duration \<Rightarrow> target" where
  "newTarget port minFlip maxFlip = \<lparr>tg_port = port, tg_minFlip = minFlip, tg_maxFlip = maxFlip, tg_healthy = True\<rparr>"

text \<open>One turn of the loop waits and flips; \<open>draw\<close> is \<^verbatim>\<open>rand.Int64N(maxFlip - minFlip)\<close>. The loop lists the waits and the health after each.\<close>

definition flip_wait :: "target \<Rightarrow> int \<Rightarrow> duration" where
  "flip_wait t draw = tg_minFlip t + draw"

definition flip :: "target \<Rightarrow> target" where
  "flip t = t\<lparr>tg_healthy := \<not> tg_healthy t\<rparr>"

fun flipLoop :: "target \<Rightarrow> int list \<Rightarrow> (duration \<times> bool) list" where
  "flipLoop t [] = []"
| "flipLoop t (draw # draws) = (flip_wait t draw, tg_healthy (flip t)) # flipLoop (flip t) draws"

definition health_answer :: "target \<Rightarrow> int \<times> string" where
  "health_answer t = (if tg_healthy t then (200, ''ok'') else (503, ''unhealthy''))"

text \<open>The targets are started as their ports are read; a bad port ends the run after those before it.\<close>

fun start_targets :: "duration \<Rightarrow> duration \<Rightarrow> string list \<Rightarrow> string option \<times> target list" where
  "start_targets mn mx [] = (None, [])"
| "start_targets mn mx (p # ps) =
    (let ps' = str_TrimSpace p in
     if ps' = '''' then start_targets mn mx ps
     else case ParseInt64 ps' of
       None \<Rightarrow> (Some (''run: invalid port '' @ go_quote ps'), [])
     | Some port \<Rightarrow> (case start_targets mn mx ps of (e, ts) \<Rightarrow> (e, newTarget port mn mx # ts)))"

definition flaky_run :: "string \<Rightarrow> int \<Rightarrow> int \<Rightarrow> string option \<times> target list" where
  "flaky_run portsCSV minFlipS maxFlipS =
    (if minFlipS \<le> 0 \<or> maxFlipS \<le> minFlipS
     then (Some (''run: invalid flip window: min-flip-s='' @ show_int minFlipS @ '' max-flip-s='' @ show_int maxFlipS), [])
     else start_targets (seconds_of minFlipS) (seconds_of maxFlipS) (split_comma portsCSV))"

section \<open>The traffic is valid\<close>

text \<open>A request the server's validation accepts.\<close>

definition valid_request :: "auth_env \<Rightarrow> api_env \<Rightarrow> soak_request \<Rightarrow> bool" where
  "valid_request A E q = (case sq_Body q of
      RegisterBody b \<Rightarrow> sq_Path q = ''/api/v1/auth/register'' \<and> validEmailPassword A b = (None :: unit response option)
    | CreateBody b \<Rightarrow> sq_Path q = ''/api/v1/monitors'' \<and> (\<exists>p. validateCreate E b = (Inr p :: unit response + CreateParams)))"

definition sends :: "(soak_request \<Rightarrow> bool) \<Rightarrow> ('a, 'w) traffic \<Rightarrow> bool" where
  "sends P m \<longleftrightarrow> (\<forall>w. list_all P (fst (snd (m w))))"

lemma sends_rules:
  "sends P (send_back v)" "P \<lparr>sq_Path = path, sq_Bearer = ac_bearer c, sq_Body = body\<rparr> \<Longrightarrow> sends P (api_post c path body out)"
  "sends P m \<Longrightarrow> (\<And>v. sends P (f v)) \<Longrightarrow> sends P (then_traffic m f)" "sends P (\<lambda>w. (r, [], w))"
  "sends P m \<Longrightarrow> sends P (wrapping pre m)"
  by (auto simp: sends_def send_back_def api_post_def then_traffic_def wrapping_def Let_def split: prod.split sum.split soak_error.split)
    (metis fst_conv snd_conv)+

lemma heartbeat_valid: "LoadLocation (ae_sched E) ''UTC'' \<Longrightarrow> \<exists>p. validateCreate E (heartbeat_body i) = Inr p"
  by (simp add: validateCreate_def heartbeat_body_def scheduleConfigFromFields_def Validate_def KindPeriod_def soakPeriodS_def
      soakGraceS_def period_of_def seconds_of_def MinGrace_def MaxGrace_def MinPeriod_def MaxPeriod_def duration_units wrap64_def)

lemma http_valid:
  assumes "url_Scheme E (base @ '':'' @ show_int (wrap64 (port + int i)) @ ''/health'') = Some ''http''"
  shows "\<exists>p. validateCreate E (http_body base port i) = Inr p"
  using assms by (simp add: validateCreate_def http_body_def validateHTTPFields_def outside_def minIntervalS_def maxIntervalS_def
      minTimeoutS_def maxTimeoutS_def)

lemma heartbeatLoop_sends:
  "LoadLocation (ae_sched E) ''UTC'' \<Longrightarrow> sends (valid_request A E) (heartbeatLoop c is)"
  by (induction "is") (auto intro!: sends_rules simp: valid_request_def heartbeat_valid)

lemma createHeartbeatMonitors_sends:
  "LoadLocation (ae_sched E) ''UTC'' \<Longrightarrow> sends (valid_request A E) (createHeartbeatMonitors c n)"
  using heartbeatLoop_sends sends_rules(4) by (auto simp: createHeartbeatMonitors_def)

lemma createHTTPMonitors_sends:
  assumes "\<And>i. url_Scheme E (base @ '':'' @ show_int i @ ''/health'') = Some ''http''"
  shows "sends (valid_request A E) (createHTTPMonitors c is base port)"
  by (induction "is") (auto intro!: sends_rules http_valid assms simp: valid_request_def)

lemma bootstrap_sends:
  "mail_ParseAddress A (eq_Email (register_body (randomHex bs))) \<Longrightarrow> sends (valid_request A E) (bootstrapAccount c bs)"
  unfolding bootstrapAccount_def
  by (intro sends_rules) (simp add: valid_request_def validEmailPassword_def register_body_def minPasswordLen_def)

text \<open>
  The load generator and the server agree: whatever the server answers, every request of the set-up
  goes to a route of the API with a body that the server's validation accepts, so a set-up can only
  fail for reasons outside the requests. (UTC is a known zone and the base URL of the targets has
  scheme http.)
\<close>

theorem soak_traffic_valid:
  assumes "LoadLocation (ae_sched E) ''UTC''" and "mail_ParseAddress A (eq_Email (register_body (randomHex bs)))"
    and "\<And>i. url_Scheme E (so_flakyTargetBaseURL cfg @ '':'' @ show_int i @ ''/health'') = Some ''http''"
  shows "list_all (valid_request A E) (fst (snd (loadgen_run srv cfg bs rolls w)))"
proof -
  have "sends (valid_request A E) (loadgen_run srv cfg bs rolls)"
    unfolding loadgen_run_def Let_def
    by (intro sends_rules bootstrap_sends assms(2) createHeartbeatMonitors_sends assms(1) createHTTPMonitors_sends assms(3))
  then show ?thesis by (simp add: sends_def)
qed

text \<open>A target flips its health at every turn, within its window, and the prober sees it as it is.\<close>

lemma flipLoop_alternates: "map snd (flipLoop t draws) = map (\<lambda>k. tg_healthy t = odd k) [0..<length draws]"
proof (induction draws arbitrary: t)
  case (Cons draw draws)
  have "map (\<lambda>k. tg_healthy (flip t) = odd k) [0..<length draws] = map (\<lambda>k. tg_healthy t = odd k) (map Suc [0..<length draws])"
    by (auto simp: flip_def)
  with Cons [of "flip t"] show ?case
    by (simp add: upt_conv_Cons map_Suc_upt del: upt_Suc) (simp add: flip_def)
qed simp

lemma flipLoop_window:
  assumes "list_all (\<lambda>n. 0 \<le> n \<and> n < tg_maxFlip t - tg_minFlip t) draws"
  shows "list_all (\<lambda>(wait, _). tg_minFlip t \<le> wait \<and> wait < tg_maxFlip t) (flipLoop t draws)"
  using assms
proof (induction draws arbitrary: t)
  case (Cons n draws)
  with Cons.IH [of "flip t"] show ?case by (simp add: flip_def flip_wait_def)
qed simp

lemma health_seen: "isSuccessStatus (fst (health_answer t)) \<longleftrightarrow> tg_healthy t"
  by (simp add: isSuccessStatus_def health_answer_def)

text \<open>
  The targets listen on the loopback address, which the prober refuses unless the allowlist of the
  harness (src/hack/soak/run.sh) lets it through.
\<close>

lemma soak_targets_guarded:
  "guardAddr N (V4 0x7F000001) [] = Inl (disallowed N (V4 0x7F000001))"
  "guardAddr N (V4 0x7F000001) [P4 0x7F000001 32, P6 1 128] = Inr (V4 0x7F000001)"
  by code_simp+

end
