(* ===== verification/Api_Types.thy ===== *)
theory Api_Types
  imports System Monitor_Api
begin

text \<open>
  What the answers of the monitor API contain, compared with the enumerations of src/openapi.yaml:
  the kinds and states of monitors, the types of timeline events, the kinds of check-ins. The type
  of an event is free text in the schema, so its range is an invariant of the store operations.
\<close>

section \<open>Event types\<close>

text \<open>The enumeration of the API description, and the one type the alerter adds.\<close>

definition event_types :: "string list" where
  "event_types = [''up'', ''late'', ''down'', ''pause'', ''resume'', ''mute'', ''unmute'', ''config_change'', ''tls_expiry'']"

definition stored_event_types :: "string list" where
  "stored_event_types = event_types @ [''alert_failed'']"

definition typed :: "db \<Rightarrow> bool" where
  "typed d \<longleftrightarrow> list_all (\<lambda>e. e_type e \<in> set stored_event_types) (events d)"

named_theorems typing_rules

lemma typed_stable: "rollback_stable typed"
  by (auto simp: rollback_stable_def typed_def tables_kept_simps)

definition no_new_events :: "'a stmt \<Rightarrow> bool" where
  "no_new_events q \<longleftrightarrow> (\<forall>now d. set (events (snd (q now d))) \<subseteq> set (events d))"

lemma no_new_events_keeps [typing_rules]: "no_new_events q \<Longrightarrow> stmt_keeps typed q"
  by (auto simp: no_new_events_def stmt_keeps_def typed_def list_all_iff)

lemma quiet_no_new: "quiet_stmt q \<Longrightarrow> no_new_events q"
  by (simp add: quiet_stmt_def no_new_events_def)

lemmas quiet_statements [typing_rules] =
  reading_quiet [THEN quiet_no_new] monitor_updates_quiet [THEN quiet_no_new] other_tables_quiet [THEN quiet_no_new]
  account_stmts_quiet [THEN quiet_no_new]

lemma log_statements_no_new [typing_rules]:
  "no_new_events (q_InsertAlert mid ev ch)" "no_new_events (q_MarkAlertFailed i)" "no_new_events (q_MarkAlertSent i)"
  "no_new_events (q_RescheduleAlert i t)" "no_new_events (q_SuppressAlert i)" "no_new_events (q_EnqueueDownReminders t)"
  "no_new_events (q_DeleteMonitor mid u)" "no_new_events (q_DeleteOldEventsBatch c n)"
  by (auto simp: no_new_events_def q_InsertAlert_def q_MarkAlertFailed_def q_MarkAlertSent_def q_RescheduleAlert_def
      q_SuppressAlert_def q_EnqueueDownReminders_def q_DeleteMonitor_def q_DeleteOldEventsBatch_def update_alerts_def
      cascade_monitor_def Let_def bump_defs)

lemma InsertEvent_typed [typing_rules]:
  "ty \<in> set stored_event_types \<Longrightarrow> stmt_keeps typed (q_InsertEvent mid ty msg meta)"
  by (auto simp: stmt_keeps_def typed_def q_InsertEvent_def Let_def bump_defs)

lemma event_type_simps [simp]:
  "''up'' \<in> set stored_event_types" "''late'' \<in> set stored_event_types" "''down'' \<in> set stored_event_types"
  "''pause'' \<in> set stored_event_types" "''resume'' \<in> set stored_event_types" "''mute'' \<in> set stored_event_types"
  "''unmute'' \<in> set stored_event_types" "''config_change'' \<in> set stored_event_types"
  "''tls_expiry'' \<in> set stored_event_types" "''alert_failed'' \<in> set stored_event_types"
  by (simp_all add: stored_event_types_def event_types_def)

lemma record_typed [typing_rules]:
  assumes "ty \<in> set stored_event_types"
  shows "keeps_all typed (recordEventMeta mid ty msg meta)" "keeps_all typed (recordEvent mid ty msg)"
    "keeps_all typed (recordTransition mid ty msg)"
  unfolding recordTransition_def recordEvent_def recordEventMeta_def
  by (intro tx_rules typing_rules assms)+

section \<open>Every operation keeps the types\<close>

lemma checkinBody_typed: "keeps_all typed (checkinBody lib x p)"
  unfolding checkinBody_def applySuccess_def applyFail_def Let_def
  by (auto intro!: typing_rules tx_rules split: sum.split)

lemma evaluateBody_typed: "keeps_all typed (evaluateBody locked t n)"
proof -
  have "keeps_all typed (evaluateOne m r)" for m r
    unfolding evaluateOne_def Let_def by (auto intro!: typing_rules tx_rules split: option.split)
  then have "keeps_all typed (evaluateAll ms r)" for ms r
    by (induction ms arbitrary: r) (auto intro!: tx_rules)
  then show ?thesis unfolding evaluateBody_def by (auto intro!: typing_rules tx_rules)
qed

lemma recordBody_typed: "keeps_all typed (recordBody x w po)"
proof -
  have "keeps_all typed (maybeWarnTLSExpiry w mid po)" for mid
    unfolding maybeWarnTLSExpiry_def Let_def by (auto intro!: typing_rules tx_rules split: option.split)
  moreover have "keeps_all typed (case probe_transition po of None \<Rightarrow> ret ''''
      | Some (ty, msg) \<Rightarrow> bind (recordTransition mid ty msg) (\<lambda>_. ret ty))" for mid
    by (auto simp: probe_transition_def Let_def intro!: typing_rules tx_rules)
  ultimately show ?thesis unfolding recordBody_def Let_def
    by (auto intro!: typing_rules tx_rules split: prod.split)
qed

lemma other_bodies_typed:
  "keeps_all typed (updateBody x iu uu p)" "keeps_all typed (resumeBody lib x iu uu t)" "keeps_all typed (failBody i mid reason)"
  "ty \<in> set stored_event_types \<Longrightarrow> stmt_keeps typed q \<Longrightarrow> keeps_all typed (flagBody x q ty msg)"
  unfolding updateBody_def resumeBody_def failBody_def flagBody_def Let_def
  by (auto intro!: typing_rules tx_rules split: option.split)

lemma tx_ops_typed:
  "keeps_all typed (RecordCheckin lib x p)" "keeps_all typed (EvaluateDueMonitors locked t limit)"
  "keeps_all typed (RecordProbeResult x w po)" "keeps_all typed (UpdateMonitor x i caller up)"
  "keeps_all typed (ResumeMonitor lib x i caller t)" "keeps_all typed (PauseMonitor x i caller)"
  "keeps_all typed (MuteMonitor x i caller)" "keeps_all typed (UnmuteMonitor x i caller)"
  "keeps_all typed (FailAlert x k mon reason)"
  unfolding RecordCheckin_def EvaluateDueMonitors_def RecordProbeResult_def UpdateMonitor_def ResumeMonitor_def
    PauseMonitor_def MuteMonitor_def UnmuteMonitor_def flagMonitor_def FailAlert_def
  by (auto intro!: keeps_all_withTx typed_stable checkinBody_typed evaluateBody_typed recordBody_typed other_bodies_typed
      checkin.advances evaluation.advances probe.advances config.advances resumption.advances pausing.advances
      muting.advances unmuting.advances failure.advances keeps_all_bind lift_rules parseMonitorIDs_rules typing_rules)

lemma single_ops_typed:
  "keeps_all typed (DeleteMonitor x i caller)" "keeps_all typed (MarkAlertSent k)" "keeps_all typed (SuppressAlert k)"
  "keeps_all typed (RescheduleAlert k t)" "keeps_all typed (EnqueueDownReminders t)"
  "keeps_all typed (RollupDay pc t)" "keeps_all typed (PruneOldData fuel c t)"
proof -
  have "keeps_all typed (upsertAll day es)" for day es
    by (induction es) (auto intro!: tx_rules typing_rules)
  then show "keeps_all typed (RollupDay pc t)"
    unfolding RollupDay_def Let_def by (intro tx_rules typing_rules)
  show "keeps_all typed (EnqueueDownReminders t)"
    unfolding EnqueueDownReminders_def by (intro keeps_all_withTx typed_stable tx_rules typing_rules)
qed (auto simp: DeleteMonitor_def MarkAlertSent_def SuppressAlert_def RescheduleAlert_def PruneOldData_def
      intro!: tx_rules typing_rules)

lemma createLoop_typed: "keeps_all typed (createLoop n x u p rands ids)"
  by (induction n) (auto intro!: tx_rules typing_rules)

lemma account_ops_typed:
  "keeps_all typed (CreateMonitor x cp rands ids)" "keeps_all typed (Register x c i email pw open)"
  "keeps_all typed (IssueRefreshToken x c i fr rand t uid ttl)"
  "keeps_all typed (RotateRefreshToken x c i rand t t' tok ttl)" "keeps_all typed (RevokeFamilyByToken c tok)"
  "keeps_all typed (key_call x c kop)"
  unfolding CreateMonitor_def Register_def IssueRefreshToken_def RotateRefreshToken_def rotateLookup_def
    RevokeFamilyByToken_def key_call_def CreateAPIKey_def ListAPIKeys_def RevokeAPIKey_def AuthenticateAPIKey_def
    discard_def Let_def
  by (auto intro!: tx_rules typing_rules createLoop_typed split: option.split key_op.split)

lemma mutate_typed: "keeps_all typed (mutate lib x i caller mu)"
  by (cases mu) (auto simp: discard_def intro!: tx_ops_typed single_ops_typed keeps_all_bind keeps_all_ret)

lemma run_op_typed: "keeps_all typed (run_op lib x c op)"
  by (cases op) (auto simp: discard_def intro!: tx_ops_typed single_ops_typed account_ops_typed mutate_typed
      keeps_all_bind keeps_all_ret keeps_all_query typing_rules)

lemma typed_reachable: "store_reachable lib x c d \<Longrightarrow> typed d"
proof (induction rule: store_reachable.induct)
  case start
  show ?case by (simp add: typed_def empty_db_def)
next
  case (step d op now os)
  then show ?case by (intro keeps_all_run [OF run_op_typed])
qed

section \<open>Answers\<close>

definition sound :: "db \<Rightarrow> bool" where
  "sound d \<longleftrightarrow> wf_db d \<and> typed d"

lemma sound_reachable: "store_reachable lib x c d \<Longrightarrow> sound d"
  using outbox_reachable typed_reachable by (auto simp: sound_def outbox_def owed_def)

lemma sound_keeps [typing_rules]: "stmt_keeps wf_db q \<Longrightarrow> stmt_keeps typed q \<Longrightarrow> stmt_keeps sound q"
  by (simp add: stmt_keeps_def sound_def)

definition good_monitor :: "Monitor \<Rightarrow> bool" where
  "good_monitor m \<longleftrightarrow> mo_Kind m \<in> {''heartbeat'', ''http''} \<and> mo_State m \<in> {''new'', ''up'', ''late'', ''down''} \<and>
     mo_DisplayState m = (if mo_PausedAt m = None then mo_State m else ''paused'') \<and>
     mo_ScheduleKind m \<in> {'''', ''period'', ''cron''} \<and> mo_Method m \<in> {'''', ''GET'', ''POST'', ''HEAD''}"

lemma toMonitor_display:
  "mo_DisplayState (toMonitor x m) = (if mo_PausedAt (toMonitor x m) = None then mo_State (toMonitor x m) else ''paused'')"
  by (simp add: toMonitor_def)

lemma toMonitor_good: "monitor_checks m \<Longrightarrow> good_monitor (toMonitor x m)"
  unfolding good_monitor_def toMonitor_display by (auto simp: toMonitor_def monitor_checks_def)

text \<open>\<open>gives Q m\<close>: from a sound database, a run of \<open>m\<close> that succeeds gives a value in \<open>Q\<close> and a sound database.\<close>

definition gives :: "('a \<Rightarrow> bool) \<Rightarrow> 'a dbm \<Rightarrow> bool" where
  "gives Q m \<longleftrightarrow> succ sound m (\<lambda>v d. sound d \<and> Q v)"

lemma gives_any: "keeps_all sound m \<Longrightarrow> gives (\<lambda>_. True) m"
  unfolding gives_def succ_def keeps_all_def by (metis snd_conv)

lemma gives_ret: "Q v \<Longrightarrow> gives Q (ret v)"
  by (simp add: gives_def succ_ret)

lemma gives_raise: "gives Q (raise e)"
  by (simp add: gives_def succ_raise)

lemma gives_bind:
  assumes "gives R m" and "\<And>v. R v \<Longrightarrow> gives Q (f v)"
  shows "gives Q (bind m f)"
  unfolding gives_def
proof (rule succ_bind)
  show "succ sound m (\<lambda>v d. sound d \<and> R v)" using assms(1) by (simp add: gives_def)
  show "succ (\<lambda>d. sound d \<and> R v) (f v) (\<lambda>v d. sound d \<and> Q v)" for v
    using assms(2) [of v] unfolding gives_def succ_def by blast
qed

lemma gives_map_err: "gives Q m \<Longrightarrow> gives Q (map_err g m)"
  by (simp add: gives_def succ_map_err)

lemma gives_query:
  assumes "stmt_keeps sound q" and "stmt_succ sound q (\<lambda>v _. Q v)"
  shows "gives Q (query q)"
  unfolding gives_def
proof (rule succ_query, unfold stmt_succ_def, intro allI impI conjI)
  fix now d v d' assume d: "sound d" and q: "q now d = (Inr v, d')"
  show "sound d'" using assms(1) d q unfolding stmt_keeps_def by (metis snd_conv)
  show "Q v" using assms(2) d q unfolding stmt_succ_def by blast
qed

lemma withTx_Inr: "withTx m s = (Inr v, s') \<Longrightarrow> \<exists>s1. m (consume s) = (Inr v, s1) \<and> s' = consume s1"
  by (auto simp: withTx_def split: if_splits prod.splits sum.splits outcome.splits)

lemma gives_withTx:
  assumes "gives Q m" shows "gives Q (withTx m)"
  unfolding gives_def succ_def
proof (intro allI impI)
  fix s v s' assume s: "sound (sdb s)" and t: "withTx m s = (Inr v, s')"
  from withTx_Inr [OF t] obtain s1 where m: "m (consume s) = (Inr v, s1)" and s': "s' = consume s1" by (elim exE conjE)
  have "sound (sdb (consume s))" using s by simp
  then have "sound (sdb s1) \<and> Q v" using assms m unfolding gives_def succ_def by blast
  then show "sound (sdb s') \<and> Q v" by (simp add: s')
qed

lemma gives_catch:
  assumes "gives Q m" and k: "keeps_all sound m" and h: "\<And>e. gives Q (h e)"
  shows "gives Q (catch m h)"
  unfolding gives_def succ_def
proof (intro allI impI)
  fix s v s' assume s: "sound (sdb s)" and c: "catch m h s = (Inr v, s')"
  obtain r s1 where m: "m s = (r, s1)" by force
  have s1: "sound (sdb s1)" using k s m unfolding keeps_all_def by (metis snd_conv)
  show "sound (sdb s') \<and> Q v"
  proof (cases r)
    case (Inl e)
    then have "h e s1 = (Inr v, s')" using c m by (simp add: catch_def)
    then show ?thesis using h [of e] s1 unfolding gives_def succ_def by blast
  next
    case (Inr w)
    then have "m s = (Inr v, s')" using c m by (simp add: catch_def)
    then show ?thesis using assms(1) s unfolding gives_def succ_def by blast
  qed
qed

lemmas gives_rules = gives_ret gives_raise gives_map_err gives_withTx

lemma keeps_sound: "keeps_all wf_db m \<Longrightarrow> keeps_all typed m \<Longrightarrow> keeps_all sound m"
  by (simp add: keeps_all_def sound_def)

lemma sql_one_succ:
  "stmt_succ P (\<lambda>now. sql_one (update_monitors sel (f now)) now) (\<lambda>m _. monitor_checks m)"
  by (auto simp: stmt_succ_def sql_one_def update_monitors_def Let_def first_row_def list_all_iff
      filter_eq_Cons_iff split: if_splits list.splits prod.splits sum.splits)

lemma row_checked:
  "stmt_succ sound (q_PauseMonitor i u) (\<lambda>m _. monitor_checks m)" "stmt_succ sound (q_MuteMonitor i u) (\<lambda>m _. monitor_checks m)"
  "stmt_succ sound (q_UnmuteMonitor i u) (\<lambda>m _. monitor_checks m)"
  "stmt_succ sound (q_ResumeMonitor dl i u) (\<lambda>m _. monitor_checks m)"
  "stmt_succ sound (q_UpdateMonitor p i u) (\<lambda>m _. monitor_checks m)"
  using sql_one_succ [of sound]
  by (simp_all add: stmt_succ_def q_PauseMonitor_def q_MuteMonitor_def q_UnmuteMonitor_def q_ResumeMonitor_def q_UpdateMonitor_def)

lemma row_checked_create: "stmt_succ sound (q_CreateMonitor i p) (\<lambda>m _. monitor_checks m)"
  by (auto simp: stmt_succ_def q_CreateMonitor_def Let_def split: if_splits)

lemma row_checked_get: "stmt_succ sound (q_GetMonitorByID i) (\<lambda>m _. monitor_checks m)"
  by (auto simp: stmt_succ_def q_GetMonitorByID_def reading_def first_row_def sound_def wf_db_def wf_monitors_def filter_eq_Cons_iff
      split: list.splits)

lemma gives_record: "ty \<in> set stored_event_types \<Longrightarrow> gives (\<lambda>_. True) (recordEvent mid ty msg)"
  "ty \<in> set stored_event_types \<Longrightarrow> gives (\<lambda>_. True) (recordEventMeta mid ty msg meta)"
  by (intro gives_any keeps_sound tx_rules typing_rules; assumption?)+

text \<open>The operations that return monitors.\<close>

lemma gives_lift: "gives (\<lambda>_. True) (lift_err r)" "gives (\<lambda>_. True) (uuid_or_404 x s)" "gives (\<lambda>_. True) (parseMonitorIDs x i u)"
  by (intro gives_any lift_rules parseMonitorIDs_rules)+

lemma gives_row:
  assumes "stmt_keeps sound q" and "stmt_succ sound q (\<lambda>m _. monitor_checks m)"
    and "\<And>row. monitor_checks row \<Longrightarrow> gives Q (f row)"
  shows "gives Q (bind (map_err g (query q)) f)"
  using assms by (intro gives_bind [of monitor_checks] gives_map_err gives_query)

lemma flagBody_gives:
  assumes "stmt_keeps sound q" and "stmt_succ sound q (\<lambda>m _. monitor_checks m)" and "ty \<in> set stored_event_types"
  shows "gives good_monitor (flagBody x q ty msg)"
  unfolding flagBody_def
  by (intro gives_row assms gives_bind [OF gives_record(1)] gives_ret toMonitor_good)

lemma sound_row_statements:
  "stmt_keeps sound (q_PauseMonitor i u)" "stmt_keeps sound (q_MuteMonitor i u)" "stmt_keeps sound (q_UnmuteMonitor i u)"
  "stmt_keeps sound (q_ResumeMonitor dl i u)" "stmt_keeps sound (q_UpdateMonitor p i u)" "stmt_keeps sound (q_GetMonitorByID i)"
  "stmt_keeps sound (q_CreateMonitor i cp)"
  by (intro typing_rules tx_rules)+

lemma updateBody_gives: "gives good_monitor (updateBody x iu uu p)"
  unfolding updateBody_def
proof (intro gives_row sound_row_statements row_checked)
  fix row assume row: "monitor_checks row"
  have "gives (\<lambda>_. True) (case changedFieldsMeta p of
      Some meta \<Rightarrow> bind (recordEventMeta (m_id row) ''config_change'' ''Configuration updated'' (Some meta)) (\<lambda>_. ret ())
    | None \<Rightarrow> ret ())"
    by (auto intro!: gives_bind [OF gives_record(2)] gives_ret split: option.split)
  then show "gives good_monitor (bind (case changedFieldsMeta p of
      Some meta \<Rightarrow> bind (recordEventMeta (m_id row) ''config_change'' ''Configuration updated'' (Some meta)) (\<lambda>_. ret ())
    | None \<Rightarrow> ret ()) (\<lambda>_. ret (toMonitor x row)))"
    by (rule gives_bind) (intro gives_ret toMonitor_good row)
qed

lemma resumeBody_gives: "gives good_monitor (resumeBody lib x iu uu t)"
  unfolding resumeBody_def
  by (intro gives_row [OF sound_row_statements(6) row_checked_get] gives_bind [OF gives_lift(1)]
      gives_row [OF sound_row_statements(4) row_checked(4)] gives_bind [OF gives_record(1)] gives_ret toMonitor_good) simp

lemma createLoop_gives: "gives good_monitor (createLoop n x u p rands ids)"
proof (induction n)
  case (Suc n)
  have "gives good_monitor (bind (query (q_CreateMonitor i cp)) (\<lambda>row. ret (toMonitor x row)))" for i cp
    by (intro gives_bind [of monitor_checks] gives_query sound_row_statements row_checked_create gives_ret toMonitor_good)
  moreover have "keeps_all sound (bind (query (q_CreateMonitor i cp)) (\<lambda>row. ret (toMonitor x row)))" for i cp
    by (intro tx_rules sound_row_statements)
  ultimately show ?case
    using Suc by (auto intro!: gives_bind [OF gives_lift(1)] gives_catch gives_raise)
qed (simp add: gives_raise)

lemma operations_give:
  "gives good_monitor (GetMonitor x i caller)" "gives good_monitor (CreateMonitor x cp rands ids)"
  "gives good_monitor (UpdateMonitor x i caller up)" "gives good_monitor (ResumeMonitor lib x i caller t)"
  "gives good_monitor (PauseMonitor x i caller)" "gives good_monitor (MuteMonitor x i caller)"
  "gives good_monitor (UnmuteMonitor x i caller)"
proof -
  show "gives good_monitor (GetMonitor x i caller)"
    unfolding GetMonitor_def
    by (auto intro!: gives_bind [OF gives_lift(2)] gives_row sound_row_statements row_checked_get gives_ret gives_raise toMonitor_good)
qed (auto simp: CreateMonitor_def UpdateMonitor_def ResumeMonitor_def PauseMonitor_def MuteMonitor_def UnmuteMonitor_def flagMonitor_def
    intro!: gives_bind [OF gives_lift(1)] gives_bind [OF gives_lift(3)] gives_withTx createLoop_gives updateBody_gives resumeBody_gives
      flagBody_gives sound_row_statements row_checked)

lemma sql_limit_rows: "sql_limit n rows = Inr out \<Longrightarrow> set out \<subseteq> set rows"
  by (auto simp: sql_limit_def split: if_splits dest: in_set_takeD)

lemma sound_reading [typing_rules]: "stmt_keeps sound (reading f)"
  by (simp add: stmt_keeps_def reading_def)

lemma gives_page:
  assumes "\<And>d rows. sound d \<Longrightarrow> f d = Inr rows \<Longrightarrow> \<forall>r \<in> set rows. good r"
    and "\<And>rows. \<forall>r \<in> set rows. good r \<Longrightarrow> gives Q (k rows)"
  shows "gives Q (bind (map_err g (query (reading f))) k)"
  using assms
  by (intro gives_bind [of "\<lambda>rows. \<forall>r \<in> set rows. good r"] gives_map_err gives_query typing_rules)
    (auto simp: stmt_succ_def reading_def)

lemma gives_lift_map: "(\<And>c. Q (pg c)) \<Longrightarrow> gives Q (lift_err (map_sum id pg r))"
  by (cases r) (simp_all add: lift_err_def gives_ret gives_raise)

definition good_event :: "Event \<Rightarrow> bool" where
  "good_event e \<longleftrightarrow> ev_Type e \<in> set stored_event_types"

definition good_checkin :: "Checkin \<Rightarrow> bool" where
  "good_checkin c \<longleftrightarrow> ch_Kind c \<in> {''success'', ''start'', ''fail''}"

lemma gives_cursor: "gives (\<lambda>_. True) (cursor_or_400 r)"
  by (cases r) (simp_all add: cursor_or_400_def gives_ret gives_raise)

lemma toEventPage_gives:
  "\<forall>e \<in> set rows. e_type e \<in> set stored_event_types \<Longrightarrow>
    gives (\<lambda>p. list_all good_event (ep_Events p)) (lift_err (toEventPage x rows limit))"
  unfolding toEventPage_def by (intro gives_lift_map) (simp add: list_all_iff good_event_def to_event_def)

lemma sql_limit_sorted: "sql_limit n (sort_key f (filter P rows)) = Inr out \<Longrightarrow> r \<in> set out \<Longrightarrow> r \<in> set rows"
  using sql_limit_rows [of n "sort_key f (filter P rows)" out] by auto

lemma event_pages:
  assumes "sound d" and "sql_limit n (sort_key f (filter P (events d))) = Inr rows"
  shows "\<forall>e \<in> set rows. e_type e \<in> set stored_event_types"
  using assms(1) sql_limit_sorted [OF assms(2)] by (simp add: sound_def typed_def list_all_iff)

lemma checkin_pages:
  assumes "sound d" and "sql_limit n (sort_key f (filter P (checkins d))) = Inr rows"
  shows "\<forall>c \<in> set rows. c_kind c \<in> {''success'', ''start'', ''fail''}"
  using assms(1) sql_limit_sorted [OF assms(2)] by (simp add: sound_def wf_db_def wf_checkins_def)

lemma monitor_pages:
  assumes "sound d" and "sql_limit n (sort_key f (filter P (monitors d))) = Inr rows"
  shows "\<forall>m \<in> set rows. monitor_checks m"
  using assms(1) sql_limit_sorted [OF assms(2)] by (simp add: sound_def wf_db_def wf_monitors_def)

lemma feeds_give:
  "gives (\<lambda>p. list_all good_event (ep_Events p)) (ListEventsByMonitor x mid ty cursor limit)"
  "gives (\<lambda>p. list_all good_event (ep_Events p)) (ListEventsByUser x user mid ty cursor limit)"
  "gives (\<lambda>p. list_all good_checkin (cp_Checkins p)) (ListCheckinsByMonitor x mid cursor limit)"
proof -
  show "gives (\<lambda>p. list_all good_event (ep_Events p)) (ListEventsByMonitor x mid ty cursor limit)"
    unfolding ListEventsByMonitor_def q_ListEventsByMonitorPage_def
    by (intro gives_bind [OF gives_lift(2)] gives_bind [OF gives_cursor]
        gives_page [where good = "\<lambda>e. e_type e \<in> set stored_event_types"] toEventPage_gives) (auto dest: event_pages)
  have "gives (\<lambda>p. list_all good_event (ep_Events p)) (ret \<lparr>ep_Events = [], ep_NextCursor = ''''\<rparr>)"
    by (simp add: gives_ret)
  moreover have "gives (\<lambda>p. list_all good_event (ep_Events p)) (bind (cursor_or_400 (decodeIDCursor cursor)) (\<lambda>cid.
      bind (map_err g (query (q_ListEventsByUserPage u m t cid limit))) (\<lambda>rows. lift_err (toEventPage x rows limit))))" for g u m t
    unfolding q_ListEventsByUserPage_def
    by (intro gives_bind [OF gives_cursor] gives_page [where good = "\<lambda>e. e_type e \<in> set stored_event_types"] toEventPage_gives)
      (auto dest: event_pages)
  ultimately show "gives (\<lambda>p. list_all good_event (ep_Events p)) (ListEventsByUser x user mid ty cursor limit)"
    unfolding ListEventsByUser_def by (intro gives_bind [OF gives_lift(2)]) (simp split: sum.split)
  show "gives (\<lambda>p. list_all good_checkin (cp_Checkins p)) (ListCheckinsByMonitor x mid cursor limit)"
    unfolding ListCheckinsByMonitor_def q_ListCheckinsByMonitorPage_def toCheckinPage_def
    by (intro gives_bind [OF gives_lift(2)] gives_bind [OF gives_cursor] gives_lift_map
        gives_page [where good = "\<lambda>c. c_kind c \<in> {''success'', ''start'', ''fail''}"])
      (auto simp: list_all_iff good_checkin_def to_checkin_def dest: checkin_pages)
qed

lemma ListMonitors_gives: "gives (\<lambda>p. list_all good_monitor (mp_Monitors p)) (ListMonitors tf x user cursor limit flt)"
proof -
  have c: "gives (\<lambda>_. True) (if cursor = [] then ret None else bind (cursor_or_400 (decodeCursor tf x cursor)) (\<lambda>c. ret (Some c)))"
    by (auto intro!: gives_bind [OF gives_cursor] gives_ret)
  show ?thesis
    unfolding ListMonitors_def q_ListMonitorsByUserPage_def
    by (intro gives_bind [OF gives_lift(1)] gives_bind [OF c] gives_page [where good = monitor_checks] gives_ret)
      (auto simp: list_all_iff toMonitor_good dest: monitor_pages)
qed

section \<open>Handlers\<close>

text \<open>An answer conforms when its payload, if it has one, has the property.\<close>

definition conforms :: "('b \<Rightarrow> bool) \<Rightarrow> 'b response \<Rightarrow> bool" where
  "conforms Q rsp \<longleftrightarrow> (case rs_body rsp of Payload b \<Rightarrow> Q b | _ \<Rightarrow> True)"

definition answers :: "('b \<Rightarrow> bool) \<Rightarrow> ('r, 'b) handler \<Rightarrow> bool" where
  "answers Q h \<longleftrightarrow> (\<forall>(s :: sess) r. sound (sdb s) \<longrightarrow> conforms Q (fst (h (s, r))))"

lemma conforms_simps [simp]:
  "conforms Q (writeJSON st (Payload b)) \<longleftrightarrow> Q b" "conforms Q (errorResponse st msg)" "conforms Q (writeError e)"
  "conforms Q (writeFieldError f msg)" "conforms Q (writeScheduleValidationError ve)"
  by (simp_all add: conforms_def writeJSON_def errorResponse_def writeError_def writeFieldError_def
      writeScheduleValidationError_def split: option.split)

lemma conforms_checks:
  "validateHTTPFields E f = Some rsp \<Longrightarrow> conforms Q rsp" "validateCreate E req = Inl rsp \<Longrightarrow> conforms Q rsp"
  "validateUpdate E m ureq = Inl rsp \<Longrightarrow> conforms Q rsp" "eventPageLimit q = Inl rsp \<Longrightarrow> conforms Q rsp"
  "list_filter q = Inl rsp \<Longrightarrow> conforms Q rsp"
proof -
  show http: "conforms Q rsp" if "validateHTTPFields E f = Some rsp" for f
    using that by (auto simp: validateHTTPFields_def split: if_splits)
  show "validateCreate E req = Inl rsp \<Longrightarrow> conforms Q rsp"
    using http by (auto simp: validateCreate_def Let_def split: if_splits option.splits)
  show "validateUpdate E m ureq = Inl rsp \<Longrightarrow> conforms Q rsp"
    using http by (auto simp: validateUpdate_def Let_def split: if_splits option.splits)
  show "eventPageLimit q = Inl rsp \<Longrightarrow> conforms Q rsp" "list_filter q = Inl rsp \<Longrightarrow> conforms Q rsp"
    by (auto simp: eventPageLimit_def list_filter_def split: if_splits option.splits)
qed

lemma answers_reply: "conforms Q rsp \<Longrightarrow> answers Q (reply rsp)"
  by (simp add: answers_def reply_def)

lemma answers_call:
  assumes "gives R m" and "\<And>v. R v \<Longrightarrow> answers Q (k v)"
  shows "answers Q (call m k)"
  unfolding answers_def
proof (intro allI impI)
  fix s :: sess and r assume s: "sound (sdb s)"
  obtain res s' where m: "m s = (res, s')" by force
  show "conforms Q (fst (call m k (s, r)))"
  proof (cases res)
    case (Inl e)
    then show ?thesis by (simp add: call_def m)
  next
    case (Inr v)
    then have "sound (sdb s') \<and> R v" using assms(1) s m unfolding gives_def succ_def by blast
    then show ?thesis using assms(2) [of v] Inr by (simp add: call_def m answers_def)
  qed
qed

lemma answers_decoded: "(\<And>req. answers Q (k req)) \<Longrightarrow> answers Q (decoded body k)"
  by (cases body) (simp_all add: decoded_def answers_reply)

lemma answers_checked: "(\<And>rsp. v = Inl rsp \<Longrightarrow> conforms Q rsp) \<Longrightarrow> (\<And>p. answers Q (k p)) \<Longrightarrow> answers Q (checked v k)"
  by (cases v) (simp_all add: checked_def answers_reply)

lemmas answers_rules = answers_decoded answers_reply answers_checked [OF conforms_checks(2)] answers_checked [OF conforms_checks(3)]
  answers_checked [OF conforms_checks(4)] answers_checked [OF conforms_checks(5)]

definition good_response :: "monitorResponse \<Rightarrow> bool" where
  "good_response r \<longleftrightarrow> mr_Kind r \<in> {''heartbeat'', ''http''} \<and> mr_State r \<in> {''new'', ''up'', ''late'', ''down''} \<and>
     mr_DisplayState r = (if mr_PausedAt r = None then mr_State r else ''paused'') \<and>
     mr_ScheduleKind r \<in> {'''', ''period'', ''cron''} \<and> mr_Method r \<in> {'''', ''GET'', ''POST'', ''HEAD''}"

lemma good_responses: "good_monitor m \<Longrightarrow> good_response (toMonitorResponse E m)"
  "good_monitor m \<Longrightarrow> good_response (with_stats stats m (toMonitorResponse E m))"
  by (simp_all add: good_monitor_def good_response_def toMonitorResponse_def with_stats_def)

lemma stats_give: "gives (\<lambda>_. True) (ListDailyStats x ids since)"
  unfolding ListDailyStats_def by (intro gives_any) (auto intro!: tx_rules typing_rules)

lemma monitor_answers:
  "answers good_response (monitor_create E user creq rands ids)"
  "answers good_response (monitor_get E user i now)"
  "answers good_response (monitor_update E user i ureq)"
proof -
  show "answers good_response (monitor_create E user creq rands ids)" unfolding monitor_create_def
    by (intro answers_rules answers_call [OF operations_give(2)]) (simp_all add: good_responses)
  show "answers good_response (monitor_get E user i now)" unfolding monitor_get_def
    by (intro answers_call [OF operations_give(1)] answers_call [OF stats_give] answers_rules) (simp_all add: good_responses)
  show "answers good_response (monitor_update E user i ureq)" unfolding monitor_update_def
    by (intro answers_call [OF operations_give(1)] answers_rules answers_call [OF operations_give(3)]) (simp_all add: good_responses)
qed

lemma mutate_answers: "(\<And>i user. gives good_monitor (op i user)) \<Longrightarrow> answers good_response (mutateMonitor E user i op)"
  unfolding mutateMonitor_def
  by (rule answers_call [OF operations_give(1)], rule answers_call, assumption) (intro answers_rules, simp add: good_responses)

lemma list_answers: "answers (\<lambda>l. list_all good_response (ml_Monitors l)) (monitor_list E user q now)"
proof -
  have s: "gives (\<lambda>_. True) (if c then ret (\<lambda>_. []) else ListDailyStats x ms since)" for c x ms since
    by (simp add: gives_ret stats_give)
  show ?thesis unfolding monitor_list_def
    by (intro answers_call [OF ListMonitors_gives] answers_call [OF s] answers_rules) (auto simp: list_all_iff good_responses)
qed

definition good_event_response :: "eventResponse \<Rightarrow> bool" where
  "good_event_response e \<longleftrightarrow> er_Type e \<in> set event_types \<or> er_Type e = ''alert_failed''"

lemma event_answers:
  "answers (\<lambda>p. list_all good_event_response (fr_Items p)) (listMonitorEvents E user i q)"
  "answers (\<lambda>p. list_all good_event_response (fr_Items p)) (listEvents E user q)"
  unfolding listMonitorEvents_def listEvents_def writeEventPage_def
  by (intro answers_call [OF operations_give(1)] answers_call [OF feeds_give(1)] answers_call [OF feeds_give(2)] answers_rules,
      auto simp: list_all_iff good_event_def good_event_response_def toEventResponse_def stored_event_types_def)+

lemma checkin_answers:
  "answers (\<lambda>p. list_all (\<lambda>c. cn_Kind c \<in> {''success'', ''start'', ''fail''}) (fr_Items p)) (listMonitorCheckins E user i q)"
  unfolding listMonitorCheckins_def
  by (intro answers_call [OF operations_give(1)] answers_call [OF feeds_give(3)] answers_rules)
    (auto simp: list_all_iff good_checkin_def toCheckinResponse_def)

lemma answers_reachable: "answers Q h \<Longrightarrow> store_reachable lib x c (sdb s) \<Longrightarrow> conforms Q (fst (h (s, r)))"
  unfolding answers_def using sound_reachable by blast

text \<open>
  C21. The monitor API is well typed. On every database the store can reach, whatever the request
  and the connection do, each answer with a monitor has a kind and a state of the enumerations of
  the API description and the display state its state and its pause determine; the events served
  have a type of the enumeration or 'alert_failed'; and check-ins are successes, starts or failures.
\<close>

theorem api_typed:
  assumes "store_reachable lib x c (sdb s)"
  shows "conforms good_response (fst (monitor_create E user creq rands ids (s, r))) \<and>
    conforms good_response (fst (monitor_get E user i now (s, r))) \<and>
    conforms good_response (fst (monitor_update E user i ureq (s, r))) \<and>
    conforms good_response (fst (monitor_pause E user i (s, r))) \<and>
    conforms good_response (fst (monitor_resume E user i now (s, r))) \<and>
    conforms good_response (fst (monitor_mute E user i (s, r))) \<and>
    conforms good_response (fst (monitor_unmute E user i (s, r))) \<and>
    conforms (\<lambda>l. list_all good_response (ml_Monitors l)) (fst (monitor_list E user q now (s, r))) \<and>
    conforms (\<lambda>p. list_all good_event_response (fr_Items p)) (fst (listMonitorEvents E user i q (s, r))) \<and>
    conforms (\<lambda>p. list_all good_event_response (fr_Items p)) (fst (listEvents E user q (s, r))) \<and>
    conforms (\<lambda>p. list_all (\<lambda>ci. cn_Kind ci \<in> {''success'', ''start'', ''fail''}) (fr_Items p))
      (fst (listMonitorCheckins E user i q (s, r)))"
  unfolding monitor_pause_def monitor_resume_def monitor_mute_def monitor_unmute_def
  by (intro conjI answers_reachable [OF _ assms] monitor_answers mutate_answers operations_give list_answers event_answers
      checkin_answers)

text \<open>
  A delivery that failed for good: the feed serves its 'alert_failed' event, a type that the
  enumeration of the API description lacks.
\<close>

definition failed_delivery :: db where
  "failed_delivery = run_ops (demo_pings @ [(GiveUp 1 ''7'' ''rejected'', 50, [])]) demo_started"

definition served_types :: "db \<Rightarrow> string list" where
  "served_types d = (case rs_body (fst (listEvents demo_env ''1'' (\<lambda>_. '''') (quiet d 60, ()))) of
     Payload p \<Rightarrow> map er_Type (fr_Items p) | _ \<Rightarrow> [])"

lemma failed_delivery_reachable: "store_reachable demo_lib demo_ext demo_crypto failed_delivery"
  unfolding failed_delivery_def demo_start_run [symmetric] by (intro run_ops_reachable store_reachable.start)

lemma undocumented_type: "served_types failed_delivery = [''alert_failed'', ''down'']" "''alert_failed'' \<notin> set event_types"
  by code_simp+

theorem api_typed_witness:
  "served_types failed_delivery = [''alert_failed'', ''down''] \<and>
   conforms (\<lambda>p. list_all good_event_response (fr_Items p)) (fst (listEvents demo_env ''1'' (\<lambda>_. '''') (quiet failed_delivery 60, ())))"
  using api_typed [of demo_lib demo_ext demo_crypto "quiet failed_delivery 60" demo_env "''1''" None "\<lambda>_. None" "\<lambda>_. 0" "()" "''7''" 60
      None "\<lambda>_. ''''"] failed_delivery_reachable undocumented_type(1) by simp

end
