(* ===== verification/Middleware.thy ===== *)
theory Middleware
  imports Auth_Api Calendar
begin

text \<open>
  The middleware chain around every handler: request ids, request logging and the panic handler of
  src/backend/server/middleware.go, with the header middlewares of the same file, in the order
  src/backend/server/server.go installs them. The chain works on the response writer of net/http,
  whose headers are fixed by the first status written.
\<close>

section \<open>The response writer\<close>

text \<open>\<open>wr_status\<close> is the field of \<^verbatim>\<open>statusWriter\<close>; headers are listed newest first.\<close>

record writer =
  wr_header :: "(string \<times> string) list"
  wr_sent :: "(nat \<times> (string \<times> string) list) option"
  wr_status :: nat

definition set_header :: "string \<Rightarrow> string \<Rightarrow> writer \<Rightarrow> writer" where
  "set_header k v w = w\<lparr>wr_header := (k, v) # wr_header w\<rparr>"

text \<open>A second \<^verbatim>\<open>WriteHeader\<close> is superfluous for the client, but \<^verbatim>\<open>statusWriter\<close> notes it.\<close>

definition send_header :: "nat \<Rightarrow> writer \<Rightarrow> writer" where
  "send_header status w = (case wr_sent w of None \<Rightarrow> w\<lparr>wr_sent := Some (status, wr_header w)\<rparr> | Some _ \<Rightarrow> w)"

definition statusWriter_WriteHeader :: "nat \<Rightarrow> writer \<Rightarrow> writer" where
  "statusWriter_WriteHeader status w = send_header status (w\<lparr>wr_status := status\<rparr>)"

text \<open>What a handler does to the writer before it returns or panics.\<close>

datatype action = SetHeader string string | WriteStatus nat | WriteBody

fun act :: "action \<Rightarrow> writer \<Rightarrow> writer" where
  "act (SetHeader k v) w = set_header k v w"
| "act (WriteStatus s) w = statusWriter_WriteHeader s w"
| "act WriteBody w = send_header 200 w"

type_synonym stage = "writer \<Rightarrow> writer \<times> bool"

definition handle :: "action list \<Rightarrow> bool \<Rightarrow> stage" where
  "handle acts panics w = (fold act acts w, panics)"

section \<open>The chain\<close>

text \<open>\<open>rand\<close> are the random bytes, None when the source fails; \<open>t\<close> is the clock.\<close>

definition newRequestID :: "nat list option \<Rightarrow> gotime \<Rightarrow> string" where
  "newRequestID rand t = (case rand of
      Some bs \<Rightarrow> hex_encode bs
    | None \<Rightarrow> (let (y, m, dd) = date_of_days (t div Day); ns = t mod Day; s = ns div Second in
        show_padded 4 y @ show_padded 2 m @ show_padded 2 dd @ ''T'' @ show_padded 2 (s div 3600) @
        show_padded 2 (s mod 3600 div 60) @ show_padded 2 (s mod 60) @ ''.'' @ show_padded 9 (ns mod Second)))"

definition requestIDMiddleware :: "string \<Rightarrow> (writer \<Rightarrow> 'a) \<Rightarrow> writer \<Rightarrow> 'a" where
  "requestIDMiddleware rid nxt w = nxt (set_header ''X-Request-ID'' rid w)"

text \<open>The second part is the status in the log entry; a panic would pass without one.\<close>

definition loggingMiddleware :: "stage \<Rightarrow> writer \<Rightarrow> (writer \<times> bool) \<times> nat option" where
  "loggingMiddleware nxt w = (case nxt (w\<lparr>wr_status := 200\<rparr>) of (w', panics) \<Rightarrow>
     ((w', panics), if panics then None else Some (wr_status w')))"

definition recoverMiddleware :: "stage \<Rightarrow> stage" where
  "recoverMiddleware nxt w = (case nxt w of (w', panics) \<Rightarrow>
     if panics then (fold act [SetHeader ''Content-Type'' ''application/json; charset=utf-8'', WriteStatus 500, WriteBody] w', False)
     else (w', False))"

definition headersStage :: "bool \<Rightarrow> stage \<Rightarrow> stage" where
  "headersStage tls nxt w = nxt (w\<lparr>wr_header := securityHeadersMiddleware tls (wr_header w)\<rparr>)"

definition corsStage :: "string \<Rightarrow> string \<Rightarrow> string \<Rightarrow> stage \<Rightarrow> stage" where
  "corsStage allowedOrigin origin meth nxt w =
    (case corsMiddleware allowedOrigin origin meth (wr_header w) of (hs, continue) \<Rightarrow>
       if continue then nxt (w\<lparr>wr_header := hs\<rparr>)
       else (statusWriter_WriteHeader 204 (w\<lparr>wr_header := hs\<rparr>), False))"

record request_env =
  re_id :: string
  re_tls :: bool
  re_allowed :: string
  re_origin :: string
  re_method :: string

definition guarded_chain :: "request_env \<Rightarrow> stage \<Rightarrow> stage" where
  "guarded_chain R h = recoverMiddleware (headersStage (re_tls R) (corsStage (re_allowed R) (re_origin R) (re_method R) h))"

definition chain :: "request_env \<Rightarrow> stage \<Rightarrow> (writer \<times> bool) \<times> nat option" where
  "chain R h = requestIDMiddleware (re_id R) (loggingMiddleware (guarded_chain R h))
     \<lparr>wr_header = [], wr_sent = None, wr_status = 200\<rparr>"

text \<open>What the client gets: a handler that wrote nothing is answered 200.\<close>

definition answer :: "writer \<Rightarrow> nat \<times> (string \<times> string) list" where
  "answer w = (case wr_sent w of None \<Rightarrow> (200, wr_header w) | Some a \<Rightarrow> a)"

section \<open>Every answer is dressed\<close>

definition protected :: "string list" where
  "protected = [''X-Request-ID'', ''X-Frame-Options'', ''X-Content-Type-Options'', ''Content-Security-Policy'',
     ''Referrer-Policy'', ''Strict-Transport-Security'', ''Access-Control-Allow-Origin'', ''Access-Control-Allow-Credentials'']"

fun harmless :: "action \<Rightarrow> bool" where
  "harmless (SetHeader k v) \<longleftrightarrow> k \<notin> set protected"
| "harmless _ \<longleftrightarrow> True"

text \<open>A writer that still answers with the given headers under the protected names.\<close>

definition dressed :: "(string \<times> string) list \<Rightarrow> writer \<Rightarrow> bool" where
  "dressed hs w \<longleftrightarrow> (\<forall>k \<in> set protected. map_of (snd (answer w)) k = map_of hs k \<and> map_of (wr_header w) k = map_of hs k)"

lemma dressed_act: "dressed hs w \<Longrightarrow> harmless a \<Longrightarrow> dressed hs (act a w)"
  by (cases a) (auto simp: dressed_def answer_def set_header_def statusWriter_WriteHeader_def send_header_def split: option.splits)

lemma dressed_fold: "dressed hs w \<Longrightarrow> list_all harmless acts \<Longrightarrow> dressed hs (fold act acts w)"
  by (induction acts arbitrary: w) (auto intro: dressed_act)

definition dress :: "request_env \<Rightarrow> (string \<times> string) list" where
  "dress R = fst (corsMiddleware (re_allowed R) (re_origin R) (re_method R)
     (securityHeadersMiddleware (re_tls R) [(''X-Request-ID'', re_id R)]))"

text \<open>
  Whatever a handler writes and even when it panics, as long as it leaves the protected headers
  alone, the chain ends normally with a log entry, and the answer carries the request id, the
  security headers and the CORS headers, the latter exactly for the configured origin.
\<close>

theorem chain_dressed:
  assumes "list_all harmless acts" and "chain R (handle acts panics) = ((w, p), entry)"
  shows "\<not> p \<and> entry = Some (wr_status w) \<and> (\<forall>k \<in> set protected. map_of (snd (answer w)) k = map_of (dress R) k)"
proof -
  let ?w = "\<lparr>wr_header = dress R, wr_sent = None, wr_status = 200\<rparr>"
  have d: "dressed (dress R) ?w" by (simp add: dressed_def answer_def)
  have j: "list_all harmless [SetHeader ''Content-Type'' ''application/json; charset=utf-8'', WriteStatus 500, WriteBody]"
    by (simp add: protected_def)
  have "dressed (dress R) (fold act [SetHeader ''Content-Type'' ''application/json; charset=utf-8'', WriteStatus 500, WriteBody] (fold act acts ?w))"
    "dressed (dress R) (fold act acts ?w)" "dressed (dress R) (statusWriter_WriteHeader 204 ?w)"
    using dressed_fold [OF dressed_fold [OF d assms(1)] j] dressed_fold [OF d assms(1)] dressed_act [OF d, of "WriteStatus 204"]
    by simp_all
  then have "dressed (dress R) w \<and> \<not> p \<and> entry = Some (wr_status w)"
    using assms(2)
    by (auto simp: chain_def loggingMiddleware_def guarded_chain_def recoverMiddleware_def headersStage_def corsStage_def
        handle_def requestIDMiddleware_def set_header_def dress_def corsMiddleware_def split: if_splits prod.splits)
  then show ?thesis by (simp add: dressed_def)
qed

lemma dress_cors:
  "map_of (dress R) ''Access-Control-Allow-Origin'' =
    (if re_origin R \<noteq> '''' \<and> re_origin R = re_allowed R then Some (re_origin R) else None)"
  "map_of (dress R) ''X-Request-ID'' = Some (re_id R)" "map_of (dress R) ''X-Frame-Options'' = Some ''DENY''"
  by (simp_all add: dress_def corsMiddleware_def securityHeadersMiddleware_def)

text \<open>A panic before anything is written is answered 500; after a status was written the client keeps that status.\<close>

lemma panic_answer:
  assumes "re_method R \<noteq> ''OPTIONS''" and "chain R (handle acts True) = ((w, p), entry)"
  shows "fst (answer w) = (case wr_sent (fold act acts \<lparr>wr_header = dress R, wr_sent = None, wr_status = 200\<rparr>) of
      None \<Rightarrow> 500 | Some (s, _) \<Rightarrow> s)" and "entry = Some 500"
proof -
  let ?w = "fold act acts \<lparr>wr_header = dress R, wr_sent = None, wr_status = 200\<rparr>"
  have w: "w = fold act [SetHeader ''Content-Type'' ''application/json; charset=utf-8'', WriteStatus 500, WriteBody] ?w" "entry = Some (wr_status w)"
    using assms
    by (auto simp: chain_def loggingMiddleware_def guarded_chain_def recoverMiddleware_def headersStage_def corsStage_def
        handle_def requestIDMiddleware_def set_header_def dress_def corsMiddleware_def split: if_splits prod.splits)
  show "fst (answer w) = (case wr_sent ?w of None \<Rightarrow> 500 | Some (s, _) \<Rightarrow> s)"
    by (auto simp: w answer_def set_header_def statusWriter_WriteHeader_def send_header_def split: option.split)
  show "entry = Some 500"
    by (auto simp: w(2)) (auto simp: w(1) set_header_def statusWriter_WriteHeader_def send_header_def split: option.split)
qed

end
