(* ===== verification/Spec2Isabelle.thy ===== *)
theory Spec2Isabelle
  imports Monitor_Api Auth_Api Worker_Loops System Heartbeat Mail Startup Soak_Audit Soak_Traffic Api_Types Middleware
begin

text \<open>
  Verification of ping, a self-hosted monitor for cron jobs and web sites (the Go backend under
  src/backend).

  \<^bold>\<open>The program.\<close> Users register monitors. A heartbeat monitor expects a ping on a schedule
  (package schedule); an http monitor is probed. An HTTP server (package server) takes pings and
  serves the management API; four workers (package worker) run beside it, in one process or many:
  the scheduler moves overdue monitors from up to late to down, the prober requests targets and
  records results, the alerter mails the rows of an outbox, and the rollup worker aggregates days
  and prunes old rows. All of them work on one Postgres database through package store, whose
  statements are package db; Redis holds rate-limit counters and worker heartbeats. A state change
  that users must hear about writes its event and its outbox row in the transaction of the change.

  \<^bold>\<open>The theories and the code they model.\<close>
  \<^item> Prelude: Go integers, instants, durations, strings and number texts; lemmas on lists and tables.
  \<^item> Schedule: package schedule (schedule.go, errors.go, describe.go).
  \<^item> Calendar: dates of package time.
  \<^item> Database: rows of all tables (db/models.go), errors (store/errors.go), statements and
    transactions under a connection that may fail before or after any statement (store/store.go).
  \<^item> Monitor_Queries, Log_Queries: the statements of db/monitors.sql.go, checkins.sql.go,
    probe_results.sql.go, events.sql.go and alerts.sql.go.
  \<^item> Schema: the invariant \<open>wf_db\<close> of the migrations, kept by every statement.
  \<^item> Checkin, Scheduler, Monitor_Store, Prober, Alerter, Accounts, Pages, Rollup: the operations of
    store/checkin.go, scheduler.go, monitor.go, slug.go, events.go, prober.go, alerter.go, user.go,
    session.go, apikey.go and rollup.go, with the ticks of worker/scheduler, worker/prober,
    worker/alerter and worker/rollup.
  \<^item> Probe: one probe with its SSRF guard (worker/prober/probe.go). Mail: templates and SMTP channel
    (alert/template.go, alert/email.go, alert/channel.go).
  \<^item> Http, Monitor_Api, Auth_Api: server/response.go, health.go, monitor.go, events.go, checkin.go,
    auth.go, jwt.go, auth_middleware.go, apikey.go, alerting.go, and store/ratelimit.go. Middleware: the chain of
    server/middleware.go around every handler.
  \<^item> Workers: worker/worker.go and heartbeat.go, internal/testclock, server/testclock.go. Worker_Loops:
    the Run functions of the four workers on that loop.
  \<^item> Startup: internal/config/config.go, cmd/ping/main.go and the routes of server/server.go.
  \<^item> Soak_Audit: cmd/soakaudit/main.go. Soak_Traffic: cmd/soakloadgen/main.go and
    cmd/soakflakytarget/main.go.
  \<^item> System: every writing operation of the store as one transition system. Heartbeat: the abstract
    machine that a heartbeat monitor implements. Api_Types: the types of the answers of the monitor
    API (openapi.yaml) over everything the store can reach.

  \<^bold>\<open>State and effects.\<close> A database is a record of tables, a table the list of its rows in
  insertion order. A store call is a function on a session: the database, the statement clock
  \<^verbatim>\<open>now()\<close> and the outcomes the connection will give to the next statements (success, failure
  before, failure after). \<open>withTx\<close> rolls back on an error of its body or of the commit. Errors are
  values of \<open>gerror\<close> with the HTTP status they carry. A handler maps a request with a decoded body
  to a response and runs its calls in order on the session and on Redis. Mail, HTTP exchanges and
  Redis answer as their arguments say.

  \<^bold>\<open>What is shown.\<close>
  \<^item> Across the store (System, Heartbeat, Soak_Audit): from the empty database, through any calls in any
    order with any failures, the schema holds and every event to announce has exactly one outbox
    row; a heartbeat monitor behaves as a four-state machine under any interleaving of pings, ticks,
    pauses and resumes; the soak audit can only ever report late deliveries among its alert checks.
  \<^item> At the API (Api_Types, Soak_Traffic): on every reachable database the monitors, events and check-ins
    served are well typed; every request the load generator sends passes the validation of the server.
  \<^item> Workers (Workers, Worker_Loops): every loop keeps the schema and goes on after any tick error, and a
    worker whose ticks take at most 25 seconds is always reported up; a longer tick of the alerter is
    reported down although its loop turns.
  \<^item> Per operation: exact effects and all-or-nothing for check-ins, evaluations and probes; claims
    that take only due rows; detection within two ticks; the confirmation threshold; certificate
    warnings once per certificate; the outcome of every dispatch, bounded delivery attempts and the
    reminder cadence; the rollup against a direct definition, pruning that ends and removes exactly
    the old rows; feeds that are complete; cursors that decode; isolation between users.
  \<^item> Sessions: one live refresh token per family under interleaved refreshes, revocation on reuse;
    keys that stay revoked; logins that open working sessions.
  \<^item> Boundaries: rate limits, the address ranges of the SSRF guard and its use on every dial, mail
    without injected headers or markup, credentials only over encryption, start-up errors that name
    the offending variable, guards on every route.
  \<^item> Deviations from the documentation appear as theorems too: two probers that both announce one
    outage, a mail sent twice after a lost mark, a token that survives the revocation of its family,
    a PATCH that makes later pings fail, an outage counted twice, a monitor whose name prevents its
    mails, a wedged worker that is reported for 30 seconds only.

  \<^bold>\<open>Interfaces.\<close> \<open>tx_body\<close> (System) is what a transaction body owes the store, interpreted for the
  nine bodies; \<open>simulation\<close> (Heartbeat) is refinement of a machine; \<open>id_feed\<close> (Pages) is a paged
  feed, interpreted for the four feeds; \<open>batch_delete\<close> (Rollup) is a batched DELETE, interpreted for
  the three pruned tables.

  \<^bold>\<open>Bounds and fuel.\<close> \<open>drainBatches\<close> takes a number of rounds; one more than the rows to delete
  is enough and the theorem on pruning says so. \<open>drain\<close> reads a feed with as many pages as rows
  plus one. The passes of the test clock have the bound of the source. Every other loop is
  structural recursion. Counters of 32 bits overflow as a failing statement; theorems that need
  room for them say so.

  \<^bold>\<open>Parameters.\<close> The cron library and time zones, bcrypt, SHA-256, JWT signing, random bytes and
  generated UUIDs, the text forms of UUIDs and addresses, DNS, TLS and HTTP exchanges, JSON decoding
  of stored documents, URL parsing, Redis, SMTP servers, RFC 2047 encoding, percentiles of the
  database, hours as floating point, and rows locked by other sessions under SKIP LOCKED.

  \<^bold>\<open>Abstractions.\<close> A committed transaction is one step of the database and statements of a call see
  one \<^verbatim>\<open>now()\<close>; where the code runs several statements without a transaction (refresh tokens, probe
  claims, marks of the alerter) the steps are separate. A request reads the clock once per use.
  Rows that an ORDER BY leaves equal keep table order; groups and maps are iterated in table order.
  Instants are exact to the nanosecond, also in the database. Metadata documents are structured
  values. Text is checked for neither NUL bytes nor UTF-8, and quoted text in error messages escapes
  ASCII only. The interval of the soak audit is exact. Sequences do not overflow.

  \<^bold>\<open>Not modelled.\<close> Context accessors (server/context.go), the router, timeouts and graceful shutdown
  (server/server.go), flag parsing, signals and log set-up of the commands (cmd), the HTTP transport
  and tickers of the soak traffic, connecting and printing in the soak audit, generated interfaces
  without behaviour (db/querier.go, db/db.go), and the web frontend, a client of the HTTP API. They
  hold no state of the system or only call libraries.
\<close>

end
